(* ===== verification/Prelude.thy ===== *)
theory Prelude
  imports Complex_Main
begin

text \<open>
  Shared vocabulary of the development: the JavaScript values that cross the
  preload bridge, the insertion-ordered \<open>Set\<close> of JavaScript as a distinct list,
  and the generic list lemmas the component theories use.  Nothing here models
  a line of the repository by itself; the component theories build on it.
\<close>

named_theorems js_set_simps "characteristic equations of the JavaScript Set model"
named_theorems world_simps "frame equations of the browser primitives"

section \<open>JavaScript values\<close>

text \<open>
  The bridge function \<open>addAdSelector\<close> receives an arbitrary page value; its guard
  \<open>typeof selector === 'string' && selector\<close> inspects the type tag and the
  truthiness.  Values other than strings only matter through that tag.
\<close>

datatype js_value =
    JStr string
  | JNum int
  | JBool bool
  | JNull
  | JUndefined
  | JObject

fun js_is_string :: "js_value \<Rightarrow> bool" where
  "js_is_string (JStr _) = True"
| "js_is_string _ = False"

fun js_truthy :: "js_value \<Rightarrow> bool" where
  "js_truthy (JStr s) = (s \<noteq> [])"
| "js_truthy (JNum n) = (n \<noteq> 0)"
| "js_truthy (JBool b) = b"
| "js_truthy JNull = False"
| "js_truthy JUndefined = False"
| "js_truthy JObject = True"

section \<open>The JavaScript Set as a duplicate-free list\<close>

text \<open>
  A JavaScript \<open>Set\<close> iterates in insertion order and holds each value once.
  It is a list without duplicates: \<open>add\<close> appends a value not yet present,
  \<open>delete\<close> removes it, and \<open>new Set(xs)\<close> adds the values of \<open>xs\<close> from
  left to right, keeping the first occurrence of each.
\<close>

definition js_set_add :: "'a \<Rightarrow> 'a list \<Rightarrow> 'a list" where
  "js_set_add x s = (if x \<in> set s then s else s @ [x])"

definition js_set_delete :: "'a \<Rightarrow> 'a list \<Rightarrow> 'a list" where
  "js_set_delete x s = removeAll x s"

definition js_set_of_list :: "'a list \<Rightarrow> 'a list" where
  "js_set_of_list xs = fold js_set_add xs []"

lemma set_js_set_add [simp, js_set_simps]: "set (js_set_add x s) = insert x (set s)"
  by (auto simp: js_set_add_def)

lemma distinct_js_set_add [simp, js_set_simps]: "distinct s \<Longrightarrow> distinct (js_set_add x s)"
  by (simp add: js_set_add_def)

lemma js_set_add_present [simp, js_set_simps]: "x \<in> set s \<Longrightarrow> js_set_add x s = s"
  by (simp add: js_set_add_def)

lemma js_set_add_absent [js_set_simps]: "x \<notin> set s \<Longrightarrow> js_set_add x s = s @ [x]"
  by (simp add: js_set_add_def)

lemma set_js_set_delete [simp, js_set_simps]: "set (js_set_delete x s) = set s - {x}"
  by (simp add: js_set_delete_def)

lemma distinct_js_set_delete [simp, js_set_simps]: "distinct s \<Longrightarrow> distinct (js_set_delete x s)"
  by (simp add: js_set_delete_def distinct_removeAll)

lemma fold_js_set_add:
  "distinct s \<Longrightarrow> distinct (fold js_set_add xs s) \<and> set (fold js_set_add xs s) = set s \<union> set xs"
  by (induction xs arbitrary: s) auto

lemma js_set_of_list [simp, js_set_simps]:
  "distinct (js_set_of_list xs)" "set (js_set_of_list xs) = set xs"
  using fold_js_set_add [of "[]" xs] by (simp_all add: js_set_of_list_def)

lemma js_set_of_list_distinct [js_set_simps]: "distinct xs \<Longrightarrow> js_set_of_list xs = xs"
proof -
  have "distinct (s @ xs) \<Longrightarrow> fold js_set_add xs s = s @ xs" for s
    by (induction xs arbitrary: s) (auto simp: js_set_add_def)
  then show "distinct xs \<Longrightarrow> js_set_of_list xs = xs"
    by (simp add: js_set_of_list_def)
qed

section \<open>Lists\<close>

lemma distinct_insert_at:
  assumes "distinct xs" and "x \<notin> set xs"
  shows "distinct (take i xs @ x # drop i xs)"
proof -
  have "distinct (take i xs @ drop i xs)" using assms(1) by simp
  then show ?thesis using assms(2)
    using set_take_disj_set_drop_if_distinct [OF assms(1), of i i]
    by (auto simp: distinct_append dest: in_set_takeD in_set_dropD)
qed

lemma at_most_one_same_fst:
  "distinct (map fst xs) \<Longrightarrow> \<forall>x\<in>set xs. fst x = i \<Longrightarrow> length xs \<le> 1"
proof (induction xs)
  case (Cons x xs)
  then have "xs = []" by (cases xs) auto
  then show ?case by simp
qed simp

end
