(* ===== verification/Browser.thy ===== *)
theory Browser
  imports Prelude
begin

text \<open>
  The part of the browser the preload script touches, as explicit state: the
  document's elements, the root metrics, the overflow styles of the root and the
  body, the timer table of \<open>setTimeout\<close>, the callback list of
  \<open>requestAnimationFrame\<close>, the console, and the page's clock.  The script's
  components (\<open>PageScaler\<close>, \<open>AdBlocker\<close>) are functions on this world; the event
  loop that drives them is in \<open>Preload\<close>.  The primitives here are the browser's,
  not the repository's: they are written from the DOM and HTML standards.
\<close>

section \<open>Elements and the document\<close>

text \<open>
  An element is a node identity \<open>key\<close>, its \<open>id\<close> attribute, its inline
  \<open>style.display\<close>, and the scaling box that \<open>applyScale\<close> writes into its inline
  style (\<open>None\<close> until written).  The document is the list of its elements in tree
  order; the nesting of elements is not modelled, since both observers watch the
  whole body subtree and react to any child-list change in it.
\<close>

record box =
  bx_scale :: rat
  bx_origin :: string
  bx_margin_left :: rat
  bx_margin_top :: rat
  bx_width :: nat
  bx_height :: nat

record elem =
  key :: nat
  id_attr :: string
  display :: string
  box :: "box option"

datatype task = ApplyScale | HideAds

datatype log_entry =
    ScalingEnabled
  | AdHidden nat
  | BlockerError
  | BlockerReady
  | SelectorAdded string
  | SelectorRemoved string

record world =
  elems :: "elem list"
  client_w :: nat
  client_h :: nat
  root_overflow :: string
  body_overflow :: string
  now :: nat
  next_timer :: nat
  timers :: "(nat \<times> nat \<times> task) list"
  next_frame :: nat
  frames :: "(nat \<times> task) list"
  console :: "log_entry list"

definition keys :: "world \<Rightarrow> nat list" where
  "keys w = map key (elems w)"

text \<open>\<open>document.getElementById\<close>: the first element in tree order with that id.\<close>

definition get_element_by_id :: "string \<Rightarrow> world \<Rightarrow> nat option" where
  "get_element_by_id i w = map_option key (find (\<lambda>e. id_attr e = i) (elems w))"

definition lookup_elem :: "nat \<Rightarrow> world \<Rightarrow> elem option" where
  "lookup_elem k w = find (\<lambda>e. key e = k) (elems w)"

definition update_elem :: "nat \<Rightarrow> (elem \<Rightarrow> elem) \<Rightarrow> world \<Rightarrow> world" where
  "update_elem k f w = w\<lparr>elems := map (\<lambda>e. if key e = k then f e else e) (elems w)\<rparr>"

definition console_log :: "log_entry \<Rightarrow> world \<Rightarrow> world" where
  "console_log x w = w\<lparr>console := console w @ [x]\<rparr>"

text \<open>
  Page scripts change the child lists: inserting a node at a position of the
  tree order (a node already in the document is moved, as \<open>insertBefore\<close> does),
  and removing one.
\<close>

definition remove_node :: "nat \<Rightarrow> world \<Rightarrow> world" where
  "remove_node k w = w\<lparr>elems := filter (\<lambda>e. key e \<noteq> k) (elems w)\<rparr>"

definition insert_node :: "nat \<Rightarrow> elem \<Rightarrow> world \<Rightarrow> world" where
  "insert_node i e w =
     (let es = filter (\<lambda>x. key x \<noteq> key e) (elems w)
      in w\<lparr>elems := take i es @ [e] @ drop i es\<rparr>)"

section \<open>Timers and animation frames\<close>

text \<open>
  \<open>setTimeout(cb, d)\<close> returns a fresh positive handle and registers \<open>cb\<close> due at
  \<open>now + d\<close>; \<open>clearTimeout(h)\<close> drops the timer with handle \<open>h\<close> and does nothing
  for \<open>null\<close> (\<open>None\<close>) or for a handle that already ran.  Animation frames are
  the same with no due time: every callback registered before a frame runs at it.
\<close>

definition set_timeout :: "task \<Rightarrow> nat \<Rightarrow> world \<Rightarrow> nat \<times> world" where
  "set_timeout cb d w =
     (next_timer w,
      w\<lparr>timers := timers w @ [(next_timer w, now w + d, cb)], next_timer := Suc (next_timer w)\<rparr>)"

definition clear_timeout :: "nat option \<Rightarrow> world \<Rightarrow> world" where
  "clear_timeout h w =
     (case h of None \<Rightarrow> w
      | Some i \<Rightarrow> w\<lparr>timers := filter (\<lambda>(j, _). j \<noteq> i) (timers w)\<rparr>)"

definition request_frame :: "task \<Rightarrow> world \<Rightarrow> nat \<times> world" where
  "request_frame cb w =
     (next_frame w, w\<lparr>frames := frames w @ [(next_frame w, cb)], next_frame := Suc (next_frame w)\<rparr>)"

definition cancel_frame :: "nat option \<Rightarrow> world \<Rightarrow> world" where
  "cancel_frame h w =
     (case h of None \<Rightarrow> w
      | Some i \<Rightarrow> w\<lparr>frames := filter (\<lambda>(j, _). j \<noteq> i) (frames w)\<rparr>)"

section \<open>The selector engine\<close>

text \<open>
  \<open>querySelectorAll\<close> with a selector list (the selectors joined by commas) is
  the browser's: it throws a \<open>SyntaxError\<close> if the list is empty or any selector
  of it does not parse, and otherwise returns, in tree order, the elements that
  some selector of the list matches.  Which strings parse and which nodes a
  selector matches is the page's business; it is a parameter, a fixed relation
  between selector strings and node identities (selectors that read the inline
  style the blocker writes are not modelled).
\<close>

record css =
  sel_valid :: "string \<Rightarrow> bool"
  sel_match :: "string \<Rightarrow> nat \<Rightarrow> bool"

datatype dom_error = SyntaxError

definition matches_any :: "css \<Rightarrow> string list \<Rightarrow> nat \<Rightarrow> bool" where
  "matches_any c ss k = list_ex (\<lambda>s. sel_match c s k) ss"

definition query_selector_all :: "css \<Rightarrow> string list \<Rightarrow> world \<Rightarrow> dom_error + nat list" where
  "query_selector_all c ss w =
     (if ss = [] \<or> \<not> list_all (sel_valid c) ss then Inl SyntaxError
      else Inr (filter (matches_any c ss) (keys w)))"

section \<open>Frame lemmas\<close>

lemma update_elem_simps [simp, world_simps]:
  "client_w (update_elem k f w) = client_w w" "client_h (update_elem k f w) = client_h w"
  "now (update_elem k f w) = now w" "timers (update_elem k f w) = timers w"
  "frames (update_elem k f w) = frames w" "console (update_elem k f w) = console w"
  "next_timer (update_elem k f w) = next_timer w" "next_frame (update_elem k f w) = next_frame w"
  "root_overflow (update_elem k f w) = root_overflow w"
  "body_overflow (update_elem k f w) = body_overflow w"
  by (simp_all add: update_elem_def)

lemma keys_update_elem [simp, world_simps]:
  "(\<And>e. key (f e) = key e) \<Longrightarrow> keys (update_elem k f w) = keys w"
  by (simp add: keys_def update_elem_def comp_def)

lemma console_log_simps [simp, world_simps]:
  "elems (console_log x w) = elems w" "keys (console_log x w) = keys w"
  "client_w (console_log x w) = client_w w" "client_h (console_log x w) = client_h w"
  "now (console_log x w) = now w" "timers (console_log x w) = timers w"
  "frames (console_log x w) = frames w" "console (console_log x w) = console w @ [x]"
  "next_timer (console_log x w) = next_timer w" "next_frame (console_log x w) = next_frame w"
  "root_overflow (console_log x w) = root_overflow w"
  "body_overflow (console_log x w) = body_overflow w"
  by (simp_all add: console_log_def keys_def)

lemma lookup_elem_Some: "lookup_elem k w = Some e \<Longrightarrow> key e = k \<and> e \<in> set (elems w)"
  by (auto simp: lookup_elem_def find_Some_iff)

lemma lookup_elem_None: "lookup_elem k w = None \<longleftrightarrow> k \<notin> set (keys w)"
  by (auto simp: lookup_elem_def keys_def find_None_iff)

lemma find_key_distinct:
  "distinct (map key xs) \<Longrightarrow> e \<in> set xs \<Longrightarrow> find (\<lambda>x. key x = key e) xs = Some e"
  by (induction xs) (auto simp: image_iff)

lemma distinct_keys_lookup:
  "distinct (keys w) \<Longrightarrow> e \<in> set (elems w) \<Longrightarrow> lookup_elem (key e) w = Some e"
  by (simp add: lookup_elem_def keys_def find_key_distinct)

text \<open>
  The document holds each node once: node keys are distinct.  Inserting (which
  moves a node already present) and removing keep this.
\<close>

definition dom_wf :: "world \<Rightarrow> bool" where
  "dom_wf w \<longleftrightarrow> distinct (keys w)"

lemma dom_wf_key_unique:
  "dom_wf w \<Longrightarrow> x \<in> set (elems w) \<Longrightarrow> e \<in> set (elems w) \<Longrightarrow> key x = key e \<Longrightarrow> x = e"
  by (auto simp: dom_wf_def keys_def distinct_map inj_on_def)

text \<open>A document as it is created: no timers, no frames, an empty console.\<close>

definition new_world :: "elem list \<Rightarrow> nat \<Rightarrow> nat \<Rightarrow> world" where
  "new_world es cw ch =
     \<lparr>elems = es, client_w = cw, client_h = ch, root_overflow = [], body_overflow = [],
      now = 0, next_timer = 1, timers = [], next_frame = 1, frames = [], console = []\<rparr>"

lemma dom_wf_update_elem [simp, world_simps]:
  "(\<And>e. key (f e) = key e) \<Longrightarrow> dom_wf (update_elem k f w) = dom_wf w"
  by (simp add: dom_wf_def)

lemma dom_wf_console_log [simp, world_simps]: "dom_wf (console_log x w) = dom_wf w"
  by (simp add: dom_wf_def)

lemma dom_wf_remove_node: "dom_wf w \<Longrightarrow> dom_wf (remove_node k w)"
  by (simp add: dom_wf_def keys_def remove_node_def distinct_map_filter)

lemma dom_wf_insert_node: "dom_wf w \<Longrightarrow> dom_wf (insert_node i e w)"
proof -
  assume "dom_wf w"
  define es where "es = filter (\<lambda>x. key x \<noteq> key e) (elems w)"
  have "distinct (map key es)" using \<open>dom_wf w\<close>
    by (simp add: es_def dom_wf_def keys_def distinct_map_filter)
  moreover have "key e \<notin> set (map key es)" by (auto simp: es_def)
  ultimately have "distinct (take i (map key es) @ key e # drop i (map key es))"
    by (rule distinct_insert_at)
  then show ?thesis
    by (simp add: dom_wf_def keys_def insert_node_def es_def [symmetric] take_map drop_map)
qed

lemma keys_field_updates [simp, world_simps]:
  "keys (w\<lparr>root_overflow := a\<rparr>) = keys w" "keys (w\<lparr>body_overflow := a\<rparr>) = keys w"
  "keys (w\<lparr>client_w := n\<rparr>) = keys w" "keys (w\<lparr>client_h := n\<rparr>) = keys w"
  "keys (w\<lparr>now := n\<rparr>) = keys w" "keys (w\<lparr>timers := ts\<rparr>) = keys w"
  "keys (w\<lparr>next_timer := n\<rparr>) = keys w" "keys (w\<lparr>frames := fs\<rparr>) = keys w"
  "keys (w\<lparr>next_frame := n\<rparr>) = keys w" "keys (w\<lparr>console := l\<rparr>) = keys w"
  by (simp_all add: keys_def)

lemma dom_wf_field_updates [simp, world_simps]:
  "dom_wf (w\<lparr>root_overflow := a\<rparr>) = dom_wf w" "dom_wf (w\<lparr>body_overflow := a\<rparr>) = dom_wf w"
  "dom_wf (w\<lparr>client_w := n\<rparr>) = dom_wf w" "dom_wf (w\<lparr>client_h := n\<rparr>) = dom_wf w"
  "dom_wf (w\<lparr>now := n\<rparr>) = dom_wf w" "dom_wf (w\<lparr>timers := ts\<rparr>) = dom_wf w"
  "dom_wf (w\<lparr>next_timer := n\<rparr>) = dom_wf w" "dom_wf (w\<lparr>frames := fs\<rparr>) = dom_wf w"
  "dom_wf (w\<lparr>next_frame := n\<rparr>) = dom_wf w" "dom_wf (w\<lparr>console := l\<rparr>) = dom_wf w"
  by (simp_all add: dom_wf_def)

lemma clear_timeout_keys [simp, world_simps]:
  "keys (clear_timeout h w) = keys w" "dom_wf (clear_timeout h w) = dom_wf w"
  by (simp_all add: clear_timeout_def split: option.split)

lemma cancel_frame_keys [simp, world_simps]:
  "keys (cancel_frame h w) = keys w" "dom_wf (cancel_frame h w) = dom_wf w"
  by (simp_all add: cancel_frame_def split: option.split)

lemma insert_remove_node_elems:
  "insert_node i e w = w\<lparr>elems := elems (insert_node i e w)\<rparr>"
  "remove_node k w = w\<lparr>elems := elems (remove_node k w)\<rparr>"
  by (simp_all add: insert_node_def remove_node_def Let_def)

end
