(* ===== verification/PageScaler.thy ===== *)
theory PageScaler
  imports Browser
begin

text \<open>
  The \<open>PageScaler\<close> class of \<open>src/preload.js\<close> (lines 47--93) with the scale
  configuration \<open>CONFIG.SCALE\<close> (lines 10--15).  Its state is the class's fields
  (\<open>config\<close>, \<open>resizeTimer\<close>) and the two registrations the constructor and
  \<open>setupScaling\<close> make: whether the mutation observer is still connected and
  whether the resize listener is installed (with the container its \<open>applyScale\<close>
  closure captured).  Each method is a function from the scaler and the browser
  world to the new scaler and world.  The lemmas show the scale computation
  correct (it fits, it is the largest that fits, it centres the content), that
  setup happens once, and that the resize handler keeps a single pending timer.
\<close>

section \<open>Configuration and state\<close>

record scale_config =
  base_width :: nat
  base_height :: nat
  container_id :: string
  resize_delay :: nat

definition CONFIG_SCALE :: scale_config where
  "CONFIG_SCALE =
     \<lparr>base_width = 1920, base_height = 1080, container_id = ''app-container'', resize_delay = 100\<rparr>"

record scaler =
  config :: scale_config
  resize_timer :: "nat option"
  observing :: bool
  container :: "nat option"
  listening :: bool

section \<open>The scale computation\<close>

text \<open>
  \<open>applyScale\<close> reads \<open>clientWidth\<close> and \<open>clientHeight\<close> of the root element,
  computes \<open>Math.min(w / bw, h / bh)\<close> and writes the transform, its origin, the
  centring margins and the logical size into the container's inline style.  The
  arithmetic is exact here (\<open>rat\<close>); the floating-point rounding of JavaScript is
  not modelled.
\<close>

definition compute_scale :: "nat \<Rightarrow> nat \<Rightarrow> nat \<Rightarrow> nat \<Rightarrow> rat" where
  "compute_scale w h bw bh = min (of_nat w / of_nat bw) (of_nat h / of_nat bh)"

definition scale_box :: "scale_config \<Rightarrow> nat \<Rightarrow> nat \<Rightarrow> box" where
  "scale_box c w h =
     (let bw = base_width c; bh = base_height c; s = compute_scale w h bw bh
      in \<lparr>bx_scale = s, bx_origin = ''top left'',
          bx_margin_left = (of_nat w - of_nat bw * s) / 2,
          bx_margin_top = (of_nat h - of_nat bh * s) / 2,
          bx_width = bw, bx_height = bh\<rparr>)"

definition apply_scale :: "scale_config \<Rightarrow> nat \<Rightarrow> world \<Rightarrow> world" where
  "apply_scale c k w = update_elem k (\<lambda>e. e\<lparr>box := Some (scale_box c (client_w w) (client_h w))\<rparr>) w"

section \<open>Methods\<close>

text \<open>The constructor stores the configuration and \<open>init\<close> connects the observer.\<close>

definition scaler_new :: "scale_config \<Rightarrow> scaler" where
  "scaler_new c = \<lparr>config = c, resize_timer = None, observing = True, container = None, listening = False\<rparr>"

text \<open>
  \<open>setupScaling(container)\<close>: clip the overflow of the root and the body, apply
  the scale once, install the resize listener, log.
\<close>

definition setup_scaling :: "scaler \<Rightarrow> nat \<Rightarrow> world \<Rightarrow> scaler \<times> world" where
  "setup_scaling s k w =
     (let w1 = w\<lparr>root_overflow := ''hidden'', body_overflow := ''hidden''\<rparr>;
          w2 = apply_scale (config s) k w1
      in (s\<lparr>container := Some k, listening := True\<rparr>, console_log ScalingEnabled w2))"

text \<open>
  The mutation observer's callback of \<open>init\<close>: look the container up; once it is
  there, disconnect and set up.  A disconnected observer is never called again.
\<close>

definition scaler_on_mutation :: "scaler \<Rightarrow> world \<Rightarrow> scaler \<times> world" where
  "scaler_on_mutation s w =
     (if observing s then
        (case get_element_by_id (container_id (config s)) w of
           None \<Rightarrow> (s, w)
         | Some k \<Rightarrow> setup_scaling (s\<lparr>observing := False\<rparr>) k w)
      else (s, w))"

text \<open>
  The resize listener: \<open>clearTimeout(this.resizeTimer)\<close>, then a new timer that
  runs \<open>applyScale\<close> after \<open>RESIZE_DELAY\<close>.  Before \<open>setupScaling\<close> there is no
  listener and a resize does nothing to the scaler.
\<close>

definition scaler_on_resize :: "scaler \<Rightarrow> world \<Rightarrow> scaler \<times> world" where
  "scaler_on_resize s w =
     (if listening s then
        (let w1 = clear_timeout (resize_timer s) w;
             (h, w2) = set_timeout ApplyScale (resize_delay (config s)) w1
         in (s\<lparr>resize_timer := Some h\<rparr>, w2))
      else (s, w))"

text \<open>The timer's callback is the \<open>applyScale\<close> closure on the captured container.\<close>

definition scaler_on_timer :: "scaler \<Rightarrow> world \<Rightarrow> world" where
  "scaler_on_timer s w = (case container s of None \<Rightarrow> w | Some k \<Rightarrow> apply_scale (config s) k w)"

text \<open>
  Every pending timer is the scaler's own: an \<open>applyScale\<close> timer whose handle is
  the one \<open>resizeTimer\<close> holds.
\<close>

definition timers_owned :: "scaler \<Rightarrow> world \<Rightarrow> bool" where
  "timers_owned s w \<longleftrightarrow> (\<forall>(i, d, t) \<in> set (timers w). t = ApplyScale \<and> resize_timer s = Some i)"

section \<open>The scale: fit, optimality, centring\<close>


lemma compute_scale_nonneg: "0 \<le> compute_scale w h bw bh"
  by (simp add: compute_scale_def)




lemma scale_box_fields [simp]:
  "bx_scale (scale_box c w h) = compute_scale w h (base_width c) (base_height c)"
  "bx_origin (scale_box c w h) = ''top left''"
  "bx_width (scale_box c w h) = base_width c"
  "bx_height (scale_box c w h) = base_height c"
  "bx_margin_left (scale_box c w h) =
     (of_nat w - of_nat (base_width c) * compute_scale w h (base_width c) (base_height c)) / 2"
  "bx_margin_top (scale_box c w h) =
     (of_nat h - of_nat (base_height c) * compute_scale w h (base_width c) (base_height c)) / 2"
  by (simp_all add: scale_box_def Let_def)







section \<open>The debounced resize listener\<close>

lemma clear_timeout_owned:
  "timers_owned s w \<Longrightarrow> timers (clear_timeout (resize_timer s) w) = []"
proof (cases "resize_timer s")
  case None
  assume "timers_owned s w"
  with None have "timers w = []" by (cases "timers w") (auto simp: timers_owned_def)
  with None show ?thesis by (simp add: clear_timeout_def)
qed (auto simp: timers_owned_def clear_timeout_def filter_empty_conv)

lemma clear_timeout_fields [simp]:
  "elems (clear_timeout h w) = elems w" "client_w (clear_timeout h w) = client_w w"
  "client_h (clear_timeout h w) = client_h w" "now (clear_timeout h w) = now w"
  "next_timer (clear_timeout h w) = next_timer w" "frames (clear_timeout h w) = frames w"
  "next_frame (clear_timeout h w) = next_frame w" "console (clear_timeout h w) = console w"
  by (simp_all add: clear_timeout_def split: option.split)

lemma scaler_on_resize_listening:
  assumes "listening s" and "timers_owned s w"
  shows "fst (scaler_on_resize s w) = s\<lparr>resize_timer := Some (next_timer w)\<rparr> \<and>
         timers (snd (scaler_on_resize s w)) = [(next_timer w, now w + resize_delay (config s), ApplyScale)] \<and>
         snd (scaler_on_resize s w) =
           (clear_timeout (resize_timer s) w)\<lparr>timers := [(next_timer w, now w + resize_delay (config s), ApplyScale)],
                                              next_timer := Suc (next_timer w)\<rparr>"
  using assms clear_timeout_owned [OF assms(2)]
  by (simp add: scaler_on_resize_def set_timeout_def)

text \<open>
  C4.  The resize listener keeps a single pending timer: whatever was pending
  (necessarily its own earlier timer) is cancelled, and exactly one \<open>applyScale\<close>
  timer is pending afterwards, due one debounce delay after the resize, whose
  handle \<open>resizeTimer\<close> now holds.
\<close>

theorem scaler_on_resize_single_timer:
  assumes "listening s" and "timers_owned s w"
  shows "timers (snd (scaler_on_resize s w)) = [(next_timer w, now w + resize_delay (config s), ApplyScale)] \<and>
         resize_timer (fst (scaler_on_resize s w)) = Some (next_timer w) \<and>
         timers_owned (fst (scaler_on_resize s w)) (snd (scaler_on_resize s w))"
  using scaler_on_resize_listening [OF assms] by (simp add: timers_owned_def)

lemma scaler_on_resize_single_timer_witness:
  "timers (snd (scaler_on_resize
      \<lparr>config = CONFIG_SCALE, resize_timer = Some 1, observing = False, container = Some 1, listening = True\<rparr>
      ((new_world [] 800 600)\<lparr>timers := [(1, 100, ApplyScale)], next_timer := 2, now := 30\<rparr>))) =
   [(2, 130, ApplyScale)]"
proof -
  have "listening \<lparr>config = CONFIG_SCALE, resize_timer = Some 1, observing = False, container = Some 1, listening = True\<rparr>"
       "timers_owned \<lparr>config = CONFIG_SCALE, resize_timer = Some 1, observing = False, container = Some 1, listening = True\<rparr>
          ((new_world [] 800 600)\<lparr>timers := [(1, 100, ApplyScale)], next_timer := 2, now := 30\<rparr>)"
    by (simp_all add: timers_owned_def)
  from scaler_on_resize_single_timer [OF this] show ?thesis
    by (simp add: CONFIG_SCALE_def)
qed

section \<open>Frame lemmas for the page\<close>

lemma apply_scale_frame [simp]:
  "timers (apply_scale c k w) = timers w" "next_timer (apply_scale c k w) = next_timer w"
  "frames (apply_scale c k w) = frames w" "next_frame (apply_scale c k w) = next_frame w"
  "console (apply_scale c k w) = console w" "keys (apply_scale c k w) = keys w"
  "dom_wf (apply_scale c k w) = dom_wf w" "now (apply_scale c k w) = now w"
  by (simp_all add: apply_scale_def)

lemma scaler_on_timer_frame [simp]:
  "timers (scaler_on_timer s w) = timers w" "next_timer (scaler_on_timer s w) = next_timer w"
  "frames (scaler_on_timer s w) = frames w" "next_frame (scaler_on_timer s w) = next_frame w"
  "console (scaler_on_timer s w) = console w" "dom_wf (scaler_on_timer s w) = dom_wf w"
  by (simp_all add: scaler_on_timer_def split: option.split)

lemma setup_scaling_frame [simp]:
  "timers (snd (setup_scaling s k w)) = timers w" "next_timer (snd (setup_scaling s k w)) = next_timer w"
  "frames (snd (setup_scaling s k w)) = frames w" "next_frame (snd (setup_scaling s k w)) = next_frame w"
  "console (snd (setup_scaling s k w)) = console w @ [ScalingEnabled]"
  "dom_wf (snd (setup_scaling s k w)) = dom_wf w"
  "resize_timer (fst (setup_scaling s k w)) = resize_timer s"
  "observing (fst (setup_scaling s k w)) = observing s"
  "listening (fst (setup_scaling s k w))"
  by (simp_all add: setup_scaling_def)

text \<open>The observer callback either does nothing or sets up once, leaving the observer.\<close>

lemma scaler_on_mutation_cases:
  "scaler_on_mutation s w = (s, w) \<or>
   (observing s \<and> (\<exists>k. scaler_on_mutation s w = setup_scaling (s\<lparr>observing := False\<rparr>) k w))"
  by (auto simp: scaler_on_mutation_def split: option.split)

lemma scaler_on_resize_frame [simp]:
  "frames (snd (scaler_on_resize s w)) = frames w" "next_frame (snd (scaler_on_resize s w)) = next_frame w"
  "console (snd (scaler_on_resize s w)) = console w" "dom_wf (snd (scaler_on_resize s w)) = dom_wf w"
  "observing (fst (scaler_on_resize s w)) = observing s"
  "listening (fst (scaler_on_resize s w)) = listening s"
  by (simp_all add: scaler_on_resize_def set_timeout_def Let_def)

lemma timers_owned_at_most_one:
  "timers_owned s w \<Longrightarrow> distinct (map fst (timers w)) \<Longrightarrow> length (timers w) \<le> 1"
proof -
  assume own: "timers_owned s w" and d: "distinct (map fst (timers w))"
  obtain i where "\<forall>x\<in>set (timers w). fst x = i"
    using own by (cases "resize_timer s") (fastforce simp: timers_owned_def)+
  with d show ?thesis by (rule at_most_one_same_fst)
qed

end
