(* ===== verification/AdBlocker.thy ===== *)
theory AdBlocker
  imports Browser
begin

text \<open>
  The \<open>AdBlocker\<close> class of \<open>src/preload.js\<close> (lines 98--146) and the default
  selector list \<open>CONFIG.AD_SELECTORS\<close> (lines 16--20).  Its state is the class's
  fields: the selector \<open>Set\<close> (a duplicate-free list, \<open>Prelude\<close>), the handle of
  the last requested animation frame, and whether its mutation observer is
  connected.  \<open>hideAds\<close>, \<open>debounceHide\<close>, \<open>init\<close>, \<open>add\<close> and \<open>remove\<close> are functions
  on the blocker and the browser world.  The lemmas give the scan's exact effect,
  its idempotence, its failure on a malformed selector, the refinement of the
  selector list to a set of strings, and the single pending frame.
\<close>

section \<open>State and configuration\<close>

definition AD_SELECTORS :: "string list" where
  "AD_SELECTORS = [''#player+div+div'', ''div.mgp_adRollEventCatcher.mgp_clickable'', ''div.toc-container'']"

record blocker =
  selectors :: "string list"
  frame_id :: "nat option"
  bl_observing :: bool

section \<open>Methods\<close>

text \<open>
  One iteration of the \<open>forEach\<close> of \<open>hideAds\<close>: an element not yet hidden is
  hidden and reported on the console.
\<close>

definition hide_one :: "nat \<Rightarrow> world \<Rightarrow> world" where
  "hide_one k w =
     (case lookup_elem k w of
        None \<Rightarrow> w
      | Some e \<Rightarrow>
          if display e \<noteq> ''none''
          then console_log (AdHidden k) (update_elem k (\<lambda>x. x\<lparr>display := ''none''\<rparr>) w)
          else w)"

text \<open>
  \<open>hideAds\<close>: nothing for an empty set; otherwise one \<open>querySelectorAll\<close> on the
  selectors joined by commas, and the \<open>forEach\<close> over its result.  A thrown
  \<open>SyntaxError\<close> is caught and reported with \<open>console.error\<close>.
\<close>

definition hide_ads :: "css \<Rightarrow> blocker \<Rightarrow> world \<Rightarrow> world" where
  "hide_ads c b w =
     (if selectors b = [] then w
      else (case query_selector_all c (selectors b) w of
              Inl _ \<Rightarrow> console_log BlockerError w
            | Inr ks \<Rightarrow> fold hide_one ks w))"

text \<open>\<open>debounceHide\<close>: cancel the last requested frame, request a new one.\<close>

definition debounce_hide :: "blocker \<Rightarrow> world \<Rightarrow> blocker \<times> world" where
  "debounce_hide b w =
     (let w1 = cancel_frame (frame_id b) w;
          (h, w2) = request_frame HideAds w1
      in (b\<lparr>frame_id := Some h\<rparr>, w2))"

text \<open>
  The constructor: \<open>new Set(selectors)\<close>, no frame, then \<open>init\<close>: a first
  \<open>debounceHide\<close>, the observer connected (its callback is \<open>debounceHide\<close>), a console line.
\<close>

definition blocker_new :: "string list \<Rightarrow> world \<Rightarrow> blocker \<times> world" where
  "blocker_new sels w =
     (let (b, w1) = debounce_hide \<lparr>selectors = js_set_of_list sels, frame_id = None, bl_observing = False\<rparr> w
      in (b\<lparr>bl_observing := True\<rparr>, console_log BlockerReady w1))"

definition blocker_on_mutation :: "blocker \<Rightarrow> world \<Rightarrow> blocker \<times> world" where
  "blocker_on_mutation b w = (if bl_observing b then debounce_hide b w else (b, w))"

text \<open>
  \<open>add(selector)\<close>: a truthy selector not yet present is added, logged, and a scan
  is requested; otherwise nothing happens.
\<close>

definition blocker_add :: "string \<Rightarrow> blocker \<Rightarrow> world \<Rightarrow> blocker \<times> world" where
  "blocker_add s b w =
     (if js_truthy (JStr s) \<and> s \<notin> set (selectors b) then
        debounce_hide (b\<lparr>selectors := js_set_add s (selectors b)\<rparr>) (console_log (SelectorAdded s) w)
      else (b, w))"

text \<open>\<open>remove(selector)\<close>: \<open>Set.delete\<close>, and a console line when it removed something.\<close>

definition blocker_remove :: "string \<Rightarrow> blocker \<Rightarrow> world \<Rightarrow> blocker \<times> world" where
  "blocker_remove s b w =
     (if s \<in> set (selectors b)
      then (b\<lparr>selectors := js_set_delete s (selectors b)\<rparr>, console_log (SelectorRemoved s) w)
      else (b, w))"

section \<open>Auxiliary notions\<close>

text \<open>The element after \<open>el.style.display = 'none'\<close>.\<close>

definition hidden_elem :: "elem \<Rightarrow> elem" where
  "hidden_elem e = e\<lparr>display := ''none''\<rparr>"

text \<open>The elements a scan can still hide: those not displayed as \<open>none\<close>.\<close>

definition shown_keys :: "world \<Rightarrow> nat list" where
  "shown_keys w = map key (filter (\<lambda>e. display e \<noteq> ''none'') (elems w))"

text \<open>
  The abstract suppression set of the specification is a set of selector
  strings; \<open>add\<close> inserts a non-empty string, \<open>remove\<close> deletes one.
\<close>

definition supp_add :: "string \<Rightarrow> string set \<Rightarrow> string set" where
  "supp_add s S = (if s = [] then S else insert s S)"

definition supp_remove :: "string \<Rightarrow> string set \<Rightarrow> string set" where
  "supp_remove s S = S - {s}"

text \<open>
  The frames the blocker keeps: frame handles are distinct and below the next
  handle, and every pending \<open>hideAds\<close> frame is the one \<open>frameId\<close> names.
\<close>

definition frames_inv :: "blocker \<Rightarrow> world \<Rightarrow> bool" where
  "frames_inv b w \<longleftrightarrow>
     distinct (map fst (frames w)) \<and>
     (\<forall>(i, t) \<in> set (frames w). i < next_frame w \<and> (t = HideAds \<longrightarrow> frame_id b = Some i))"

definition pending_scans :: "world \<Rightarrow> (nat \<times> task) list" where
  "pending_scans w = filter (\<lambda>(i, t). t = HideAds) (frames w)"

text \<open>
  An example page for the witnesses: a container, an ad matched by \<open>#ad\<close>, and an
  element the page already hides; a selector engine on which \<open>div)\<close> does not parse.
\<close>

definition demo_doc :: world where
  "demo_doc = new_world
     [\<lparr>key = 1, id_attr = ''app-container'', display = [], box = None\<rparr>,
      \<lparr>key = 2, id_attr = ''ad'', display = [], box = None\<rparr>,
      \<lparr>key = 3, id_attr = [], display = ''none'', box = None\<rparr>] 1000 540"

definition demo_css :: css where
  "demo_css = \<lparr>sel_valid = (\<lambda>s. s \<noteq> ''div)''), sel_match = (\<lambda>s k. s = ''#ad'' \<and> k = 2)\<rparr>"

definition demo_blocker :: "string list \<Rightarrow> blocker" where
  "demo_blocker ss = \<lparr>selectors = ss, frame_id = None, bl_observing = True\<rparr>"

section \<open>The scan\<close>

lemma key_hidden_elem [simp]: "key (hidden_elem e) = key e"
  by (simp add: hidden_elem_def)

lemma hidden_elem_idem [simp]: "hidden_elem (hidden_elem e) = hidden_elem e"
  by (simp add: hidden_elem_def)

lemma hidden_elem_noop: "display e = ''none'' \<Longrightarrow> hidden_elem e = e"
  by (simp add: hidden_elem_def)

lemma hide_one_keys [simp]: "keys (hide_one k w) = keys w"
  by (simp add: hide_one_def hidden_elem_def split: option.split)

lemma hide_one_dom_wf [simp]: "dom_wf (hide_one k w) = dom_wf w"
  by (simp add: dom_wf_def)

lemma hide_one_elems:
  assumes "dom_wf w"
  shows "elems (hide_one k w) = map (\<lambda>e. if key e = k then hidden_elem e else e) (elems w)"
proof (cases "lookup_elem k w")
  case None
  then have "\<forall>e\<in>set (elems w). key e \<noteq> k" by (auto simp: lookup_elem_None keys_def)
  with None show ?thesis by (simp add: hide_one_def map_idI)
next
  case (Some e)
  then have ke: "key e = k" and ine: "e \<in> set (elems w)" by (auto dest: lookup_elem_Some)
  have same: "x = e" if "x \<in> set (elems w)" "key x = k" for x
    using dom_wf_key_unique [OF assms that(1) ine] that ke by simp
  show ?thesis
  proof (cases "display e = ''none''")
    case True
    have "(if key x = k then hidden_elem x else x) = x" if "x \<in> set (elems w)" for x
      using same [OF that] True by (auto simp: hidden_elem_noop)
    then have "map (\<lambda>x. if key x = k then hidden_elem x else x) (elems w) = elems w"
      by (rule map_idI)
    with Some True show ?thesis by (simp add: hide_one_def)
  next
    case False
    with Some show ?thesis by (simp add: hide_one_def update_elem_def hidden_elem_def)
  qed
qed

lemma hide_one_log:
  "console (hide_one k w) =
     console w @ (case lookup_elem k w of None \<Rightarrow> [] | Some e \<Rightarrow> if display e \<noteq> ''none'' then [AdHidden k] else [])"
  by (simp add: hide_one_def split: option.split)

lemma hide_one_other [simp]:
  "client_w (hide_one k w) = client_w w" "client_h (hide_one k w) = client_h w"
  "now (hide_one k w) = now w" "timers (hide_one k w) = timers w"
  "frames (hide_one k w) = frames w" "next_timer (hide_one k w) = next_timer w"
  "next_frame (hide_one k w) = next_frame w"
  "root_overflow (hide_one k w) = root_overflow w" "body_overflow (hide_one k w) = body_overflow w"
  by (simp_all add: hide_one_def split: option.split)

lemma fold_hide_one_elems:
  "dom_wf w \<Longrightarrow>
     elems (fold hide_one ks w) = map (\<lambda>e. if key e \<in> set ks then hidden_elem e else e) (elems w)"
proof (induction ks arbitrary: w)
  case Nil
  then show ?case by simp
next
  case (Cons k ks)
  let ?f = "\<lambda>A e. if key e \<in> A then hidden_elem e else e"
  have "elems (fold hide_one ks (hide_one k w)) = map (?f (set ks)) (elems (hide_one k w))"
    using Cons by simp
  also have "\<dots> = map (?f (set ks)) (map (?f {k}) (elems w))"
    using Cons.prems by (simp add: hide_one_elems)
  also have "\<dots> = map (?f (set (k # ks))) (elems w)"
    by (simp add: comp_def)
  finally show ?case by simp
qed

lemma hide_one_log_shown:
  assumes "dom_wf w"
  shows "console (hide_one k w) = console w @ (if k \<in> set (shown_keys w) then [AdHidden k] else [])"
proof (cases "lookup_elem k w")
  case None
  then have "k \<notin> set (shown_keys w)" by (auto simp: lookup_elem_None keys_def shown_keys_def)
  with None show ?thesis by (simp add: hide_one_log)
next
  case (Some e)
  then have ke: "key e = k" and ine: "e \<in> set (elems w)" by (auto dest: lookup_elem_Some)
  have "k \<in> set (shown_keys w) \<longleftrightarrow> display e \<noteq> ''none''"
  proof
    assume "k \<in> set (shown_keys w)"
    then obtain x where x: "x \<in> set (elems w)" "display x \<noteq> ''none''" "key x = k"
      by (auto simp: shown_keys_def)
    with dom_wf_key_unique [OF assms x(1) ine] ke show "display e \<noteq> ''none''" by simp
  next
    assume "display e \<noteq> ''none''"
    with ine ke show "k \<in> set (shown_keys w)" by (force simp: shown_keys_def)
  qed
  with Some show ?thesis by (simp add: hide_one_log)
qed

lemma shown_keys_hide_one:
  "dom_wf w \<Longrightarrow> set (shown_keys (hide_one k w)) = set (shown_keys w) - {k}"
proof -
  assume wf: "dom_wf w"
  have "filter (\<lambda>e. display e \<noteq> ''none'') (map (\<lambda>e. if key e = k then hidden_elem e else e) es) =
      filter (\<lambda>e. display e \<noteq> ''none'' \<and> key e \<noteq> k) es" for es
    by (induction es) (simp_all add: hidden_elem_def)
  then show ?thesis using wf by (auto simp: shown_keys_def hide_one_elems)
qed

lemma fold_hide_one_log:
  "dom_wf w \<Longrightarrow> distinct ks \<Longrightarrow>
     console (fold hide_one ks w) = console w @ map AdHidden (filter (\<lambda>k. k \<in> set (shown_keys w)) ks)"
proof (induction ks arbitrary: w)
  case Nil
  then show ?case by simp
next
  case (Cons k ks)
  then have "console (fold hide_one ks (hide_one k w)) =
      console (hide_one k w) @ map AdHidden (filter (\<lambda>j. j \<in> set (shown_keys (hide_one k w))) ks)"
    by simp
  moreover have "filter (\<lambda>j. j \<in> set (shown_keys (hide_one k w))) ks =
      filter (\<lambda>j. j \<in> set (shown_keys w)) ks"
    using Cons.prems by (auto simp: shown_keys_hide_one intro!: filter_cong)
  ultimately show ?case using Cons.prems by (simp add: hide_one_log_shown)
qed

lemma fold_hide_one_noop:
  "dom_wf w \<Longrightarrow> \<forall>k\<in>set ks. k \<notin> set (shown_keys w) \<Longrightarrow> fold hide_one ks w = w"
proof (induction ks)
  case Nil
  then show ?case by simp
next
  case (Cons k ks)
  have "hide_one k w = w"
  proof (cases "lookup_elem k w")
    case (Some e)
    then have "key e = k" "e \<in> set (elems w)" by (auto dest: lookup_elem_Some)
    with Cons.prems have "display e = ''none''" by (force simp: shown_keys_def)
    with Some show ?thesis by (simp add: hide_one_def)
  qed (simp add: hide_one_def)
  with Cons show ?case by simp
qed

lemma hide_ads_keys [simp]: "keys (hide_ads c b w) = keys w"
proof -
  have "keys (fold hide_one ks w) = keys w" for ks
    by (induction ks arbitrary: w) simp_all
  then show ?thesis by (simp add: hide_ads_def split: sum.split)
qed

lemma hide_ads_dom_wf [simp]: "dom_wf (hide_ads c b w) = dom_wf w"
  by (simp add: dom_wf_def)

lemma query_selector_all_keys:
  "keys w' = keys w \<Longrightarrow> query_selector_all c ss w' = query_selector_all c ss w"
  by (simp add: query_selector_all_def)

lemma distinct_query_result:
  "dom_wf w \<Longrightarrow> query_selector_all c ss w = Inr ks \<Longrightarrow> distinct ks"
  by (auto simp: query_selector_all_def dom_wf_def split: if_splits)

lemma fold_hide_one_other [simp]:
  "client_w (fold hide_one ks w) = client_w w" "client_h (fold hide_one ks w) = client_h w"
  "now (fold hide_one ks w) = now w" "timers (fold hide_one ks w) = timers w"
  "frames (fold hide_one ks w) = frames w" "next_timer (fold hide_one ks w) = next_timer w"
  "next_frame (fold hide_one ks w) = next_frame w"
  "root_overflow (fold hide_one ks w) = root_overflow w"
  "body_overflow (fold hide_one ks w) = body_overflow w"
  by (induction ks arbitrary: w) simp_all

lemma hide_ads_other [simp]:
  "client_w (hide_ads c b w) = client_w w" "client_h (hide_ads c b w) = client_h w"
  "now (hide_ads c b w) = now w" "timers (hide_ads c b w) = timers w"
  "frames (hide_ads c b w) = frames w" "next_timer (hide_ads c b w) = next_timer w"
  "next_frame (hide_ads c b w) = next_frame w"
  "root_overflow (hide_ads c b w) = root_overflow w" "body_overflow (hide_ads c b w) = body_overflow w"
  by (simp_all add: hide_ads_def split: sum.split)

lemma hide_ads_valid:
  "selectors b \<noteq> [] \<Longrightarrow> list_all (sel_valid c) (selectors b) \<Longrightarrow>
     hide_ads c b w = fold hide_one (filter (matches_any c (selectors b)) (keys w)) w"
  by (simp add: hide_ads_def query_selector_all_def)

lemma hide_ads_elems_valid:
  assumes "dom_wf w" "selectors b \<noteq> []" "list_all (sel_valid c) (selectors b)"
  shows "elems (hide_ads c b w) =
           map (\<lambda>e. if matches_any c (selectors b) (key e) then hidden_elem e else e) (elems w)"
proof -
  have "key e \<in> set (filter (matches_any c (selectors b)) (keys w)) \<longleftrightarrow> matches_any c (selectors b) (key e)"
    if "e \<in> set (elems w)" for e
    using that by (auto simp: keys_def)
  then show ?thesis
    using assms by (simp add: hide_ads_valid fold_hide_one_elems cong: map_cong)
qed

text \<open>
  Whatever the selectors, a scan never shows an element again: an element already
  hidden is still in the document, unchanged, after the scan (the error and the
  empty branch change no element at all).
\<close>

lemma hide_ads_unchanged:
  "\<not> (selectors b \<noteq> [] \<and> list_all (sel_valid c) (selectors b)) \<Longrightarrow> elems (hide_ads c b w) = elems w"
proof -
  assume n: "\<not> (selectors b \<noteq> [] \<and> list_all (sel_valid c) (selectors b))"
  show ?thesis
  proof (cases "selectors b = []")
    case True
    then show ?thesis by (simp add: hide_ads_def)
  next
    case False
    with n have "query_selector_all c (selectors b) w = Inl SyntaxError"
      by (simp add: query_selector_all_def)
    with False show ?thesis by (simp add: hide_ads_def)
  qed
qed

lemma hide_ads_keeps_hidden:
  assumes "dom_wf w" and "e \<in> set (elems w)" and "display e = ''none''"
  shows "e \<in> set (elems (hide_ads c b w))"
proof (cases "selectors b \<noteq> [] \<and> list_all (sel_valid c) (selectors b)")
  case True
  let ?f = "\<lambda>x. if matches_any c (selectors b) (key x) then hidden_elem x else x"
  from True assms(1) have m: "elems (hide_ads c b w) = map ?f (elems w)"
    by (simp add: hide_ads_elems_valid)
  have fe: "?f e = e" using assms(3) by (simp add: hidden_elem_noop)
  have "?f e \<in> ?f ` set (elems w)" using assms(2) by (rule imageI)
  then have "?f e \<in> set (map ?f (elems w))" by (simp only: set_map)
  then show ?thesis by (simp only: m fe)
next
  case False
  then show ?thesis using assms(2) by (simp add: hide_ads_unchanged)
qed

text \<open>
  C7.  A scan with a non-empty set of well-formed selectors hides exactly the
  elements some selector matches, leaves every other element as it was, and logs
  one \<open>AdHidden\<close> line per matched element that was not yet hidden, in tree order.
\<close>

theorem hide_ads_effect:
  assumes "dom_wf w" and "selectors b \<noteq> []" and "list_all (sel_valid c) (selectors b)"
  shows "elems (hide_ads c b w) =
           map (\<lambda>e. if matches_any c (selectors b) (key e) then hidden_elem e else e) (elems w) \<and>
         console (hide_ads c b w) =
           console w @ map AdHidden (filter (\<lambda>k. matches_any c (selectors b) k \<and> k \<in> set (shown_keys w)) (keys w))"
proof -
  have "distinct (filter (matches_any c (selectors b)) (keys w))"
    using assms(1) by (simp add: dom_wf_def)
  then have "console (hide_ads c b w) =
      console w @ map AdHidden (filter (\<lambda>k. k \<in> set (shown_keys w)) (filter (matches_any c (selectors b)) (keys w)))"
    using assms by (simp add: hide_ads_valid fold_hide_one_log)
  then show ?thesis using hide_ads_elems_valid [OF assms] by (simp add: filter_filter)
qed

lemma hide_ads_effect_witness:
  "elems (hide_ads demo_css (demo_blocker [''#ad'']) demo_doc) =
     [\<lparr>key = 1, id_attr = ''app-container'', display = [], box = None\<rparr>,
      \<lparr>key = 2, id_attr = ''ad'', display = ''none'', box = None\<rparr>,
      \<lparr>key = 3, id_attr = [], display = ''none'', box = None\<rparr>] \<and>
   console (hide_ads demo_css (demo_blocker [''#ad'']) demo_doc) = [AdHidden 2]"
proof -
  have "dom_wf demo_doc" by (simp add: dom_wf_def demo_doc_def new_world_def keys_def)
  from hide_ads_effect [OF this, of "demo_blocker [''#ad'']" demo_css] show ?thesis
    by (simp add: demo_blocker_def demo_css_def demo_doc_def new_world_def keys_def
                  matches_any_def shown_keys_def hidden_elem_def)
qed

text \<open>
  C8.  The scan is idempotent: a second scan with no change in between hides
  nothing more and logs nothing; the world is exactly as after the first.
\<close>

theorem hide_ads_idempotent:
  assumes "dom_wf w" and "selectors b \<noteq> []" and "list_all (sel_valid c) (selectors b)"
  shows "hide_ads c b (hide_ads c b w) = hide_ads c b w"
proof -
  let ?ks = "filter (matches_any c (selectors b)) (keys w)"
  let ?w = "hide_ads c b w"
  have "k \<notin> set (shown_keys ?w)" if "k \<in> set ?ks" for k
    using that hide_ads_elems_valid [OF assms]
    by (auto simp: shown_keys_def keys_def hidden_elem_def)
  then have "fold hide_one ?ks ?w = ?w"
    using assms(1) by (simp add: fold_hide_one_noop)
  moreover have "hide_ads c b ?w = fold hide_one (filter (matches_any c (selectors b)) (keys ?w)) ?w"
    using assms(2,3) by (rule hide_ads_valid)
  ultimately show ?thesis by (simp only: hide_ads_keys)
qed

lemma hide_ads_idempotent_witness:
  "hide_ads demo_css (demo_blocker [''#ad'']) (hide_ads demo_css (demo_blocker [''#ad'']) demo_doc) =
   hide_ads demo_css (demo_blocker [''#ad'']) demo_doc"
proof -
  have "dom_wf demo_doc" by (simp add: dom_wf_def demo_doc_def new_world_def keys_def)
  then show ?thesis
    by (rule hide_ads_idempotent) (simp_all add: demo_blocker_def demo_css_def)
qed

text \<open>
  C9.  One malformed selector makes the whole scan fail: the compound query
  throws, the error is logged, and no element is hidden, not even those the
  well-formed selectors of the set match.
\<close>

theorem hide_ads_malformed:
  assumes "s \<in> set (selectors b)" and "\<not> sel_valid c s"
  shows "elems (hide_ads c b w) = elems w \<and> console (hide_ads c b w) = console w @ [BlockerError]"
  using assms by (auto simp: hide_ads_def query_selector_all_def list_all_iff)

lemma hide_ads_malformed_witness:
  "matches_any demo_css [''#ad'', ''div)''] 2 \<and> 2 \<in> set (shown_keys demo_doc) \<and>
   elems (hide_ads demo_css (demo_blocker [''#ad'', ''div)'']) demo_doc) = elems demo_doc \<and>
   console (hide_ads demo_css (demo_blocker [''#ad'', ''div)'']) demo_doc) = [BlockerError]"
proof -
  have "''div)'' \<in> set (selectors (demo_blocker [''#ad'', ''div)'']))" "\<not> sel_valid demo_css ''div)''"
    by (simp_all add: demo_blocker_def demo_css_def)
  from hide_ads_malformed [OF this, of demo_doc] show ?thesis
    by (simp add: demo_css_def matches_any_def shown_keys_def demo_doc_def new_world_def)
qed

section \<open>The selector set: refinement to a set of strings\<close>

lemma blocker_add_selectors:
  "selectors (fst (blocker_add s b w)) =
     (if s \<noteq> [] \<and> s \<notin> set (selectors b) then selectors b @ [s] else selectors b)"
  by (simp add: blocker_add_def debounce_hide_def js_set_add_def split: prod.split)

text \<open>
  C10.  The selector list refines the abstract set: \<open>add\<close> and \<open>remove\<close> keep it
  duplicate-free and act on its set of elements as insertion of a non-empty
  string and deletion.
\<close>

theorem selector_set_refinement:
  assumes "distinct (selectors b)"
  shows "distinct (selectors (fst (blocker_add s b w))) \<and>
         set (selectors (fst (blocker_add s b w))) = supp_add s (set (selectors b)) \<and>
         distinct (selectors (fst (blocker_remove s b w))) \<and>
         set (selectors (fst (blocker_remove s b w))) = supp_remove s (set (selectors b))"
  using assms
  by (auto simp: blocker_add_selectors supp_add_def supp_remove_def blocker_remove_def)

lemma selector_set_refinement_witness:
  "set (selectors (fst (blocker_add ''#new-ad'' (demo_blocker AD_SELECTORS) demo_doc))) =
     insert ''#new-ad'' (set AD_SELECTORS) \<and>
   length (selectors (fst (blocker_add ''#new-ad'' (demo_blocker AD_SELECTORS) demo_doc))) = 4 \<and>
   set (selectors (fst (blocker_remove ''div.toc-container'' (demo_blocker AD_SELECTORS) demo_doc))) =
     {''#player+div+div'', ''div.mgp_adRollEventCatcher.mgp_clickable''}"
proof -
  have d: "distinct (selectors (demo_blocker AD_SELECTORS))"
    by (simp add: demo_blocker_def AD_SELECTORS_def)
  note r = selector_set_refinement [OF d, where s = "''#new-ad''" and w = demo_doc]
  note r' = selector_set_refinement [OF d, where s = "''div.toc-container''" and w = demo_doc]
  have l: "selectors (fst (blocker_add ''#new-ad'' (demo_blocker AD_SELECTORS) demo_doc)) =
      AD_SELECTORS @ [''#new-ad'']"
    by (simp add: blocker_add_selectors demo_blocker_def AD_SELECTORS_def)
  from r have a: "set (selectors (fst (blocker_add ''#new-ad'' (demo_blocker AD_SELECTORS) demo_doc))) =
      supp_add ''#new-ad'' (set AD_SELECTORS)" by (simp add: demo_blocker_def)
  from r' have b: "set (selectors (fst (blocker_remove ''div.toc-container'' (demo_blocker AD_SELECTORS) demo_doc))) =
      supp_remove ''div.toc-container'' (set AD_SELECTORS)" by (simp add: demo_blocker_def)
  from a b l show ?thesis
    by (simp add: supp_add_def supp_remove_def AD_SELECTORS_def insert_commute insert_Diff_if)
qed

text \<open>
  C11.  Adding a selector twice is adding it once: the second call changes
  nothing, neither the set nor the requested frames nor the console.
\<close>

theorem blocker_add_twice:
  "blocker_add s (fst (blocker_add s b w)) (snd (blocker_add s b w)) = blocker_add s b w"
proof (cases "s \<noteq> [] \<and> s \<notin> set (selectors b)")
  case True
  then have "s \<in> set (selectors (fst (blocker_add s b w)))"
    by (simp add: blocker_add_selectors)
  then have "blocker_add s (fst (blocker_add s b w)) (snd (blocker_add s b w)) =
      (fst (blocker_add s b w), snd (blocker_add s b w))"
    unfolding blocker_add_def [of s "fst (blocker_add s b w)"] by simp
  then show ?thesis by simp
next
  case False
  then have "blocker_add s b w = (b, w)" by (auto simp: blocker_add_def)
  then show ?thesis by simp
qed

section \<open>Coalescing of scans\<close>

lemma frames_inv_at_most_one: "frames_inv b w \<Longrightarrow> length (pending_scans w) \<le> 1"
proof -
  assume inv: "frames_inv b w"
  then obtain i where "\<forall>x\<in>set (pending_scans w). fst x = i"
    by (cases "frame_id b") (fastforce simp: frames_inv_def pending_scans_def)+
  moreover have "distinct (map fst (pending_scans w))"
    using inv by (simp add: frames_inv_def pending_scans_def distinct_map_filter)
  ultimately show ?thesis by (rule at_most_one_same_fst [rotated])
qed

lemma debounce_hide_parts:
  "fst (debounce_hide b w) = b\<lparr>frame_id := Some (next_frame w)\<rparr>"
  "frames (snd (debounce_hide b w)) = frames (cancel_frame (frame_id b) w) @ [(next_frame w, HideAds)]"
  "next_frame (snd (debounce_hide b w)) = Suc (next_frame w)"
  "elems (snd (debounce_hide b w)) = elems w"
  "console (snd (debounce_hide b w)) = console w"
  by (simp_all add: debounce_hide_def request_frame_def cancel_frame_def split: option.split)

lemma cancel_frame_sub:
  "set (frames (cancel_frame h w)) \<subseteq> set (frames w)"
  "distinct (map fst (frames w)) \<Longrightarrow> distinct (map fst (frames (cancel_frame h w)))"
  "next_frame (cancel_frame h w) = next_frame w"
  by (auto simp: cancel_frame_def distinct_map_filter split: option.split)

lemma cancel_frame_no_scan:
  "frames_inv b w \<Longrightarrow> (i, HideAds) \<notin> set (frames (cancel_frame (frame_id b) w))"
  by (cases "frame_id b") (auto simp: frames_inv_def cancel_frame_def)

lemma debounce_hide_inv:
  assumes "frames_inv b w"
  shows "frames_inv (fst (debounce_hide b w)) (snd (debounce_hide b w)) \<and>
         frame_id (fst (debounce_hide b w)) = Some (next_frame w) \<and>
         pending_scans (snd (debounce_hide b w)) = [(next_frame w, HideAds)]"
proof -
  let ?fs = "frames (cancel_frame (frame_id b) w)"
  have sub: "set ?fs \<subseteq> set (frames w)" and d: "distinct (map fst ?fs)"
    using assms cancel_frame_sub by (auto simp: frames_inv_def)
  have lt: "\<forall>(i, t) \<in> set ?fs. i < next_frame w"
    using assms sub by (auto simp: frames_inv_def)
  have none: "filter (\<lambda>(i, t). t = HideAds) ?fs = []"
    using cancel_frame_no_scan [OF assms] by (auto simp: filter_empty_conv)
  have "frames_inv (fst (debounce_hide b w)) (snd (debounce_hide b w))"
    using d lt cancel_frame_no_scan [OF assms]
    by (fastforce simp: frames_inv_def debounce_hide_parts)
  then show ?thesis using none by (simp add: debounce_hide_parts pending_scans_def)
qed

text \<open>
  C12.  \<open>debounceHide\<close> coalesces: from any state where the blocker's frames are
  well kept, it leaves exactly one pending scan, the frame \<open>frameId\<close> now names,
  and keeps the frames well kept; so at most one scan is ever pending.
\<close>

theorem debounce_hide_single_frame:
  assumes "frames_inv b w"
  shows "frames_inv (fst (debounce_hide b w)) (snd (debounce_hide b w)) \<and>
         frame_id (fst (debounce_hide b w)) = Some (next_frame w) \<and>
         pending_scans (snd (debounce_hide b w)) = [(next_frame w, HideAds)]"
  using assms by (rule debounce_hide_inv)

lemma debounce_hide_single_frame_witness:
  "pending_scans (snd (debounce_hide \<lparr>selectors = AD_SELECTORS, frame_id = Some 1, bl_observing = True\<rparr>
      ((new_world [] 800 600)\<lparr>frames := [(1, HideAds)], next_frame := 2\<rparr>))) = [(2, HideAds)] \<and>
   length (pending_scans (new_world [] 800 600)) \<le> 1"
proof -
  have "frames_inv \<lparr>selectors = AD_SELECTORS, frame_id = Some 1, bl_observing = True\<rparr>
      ((new_world [] 800 600)\<lparr>frames := [(1, HideAds)], next_frame := 2\<rparr>)"
    by (simp add: frames_inv_def new_world_def)
  from debounce_hide_single_frame [OF this] show ?thesis
    by (simp add: new_world_def pending_scans_def)
qed

lemma frames_inv_hide_ads [simp]: "frames_inv b (hide_ads c b' w) = frames_inv b w"
  by (simp add: frames_inv_def)

lemma frames_inv_console_log [simp]: "frames_inv b (console_log x w) = frames_inv b w"
  by (simp add: frames_inv_def)

lemma frames_inv_selectors [simp]: "frames_inv (b\<lparr>selectors := ss\<rparr>) w = frames_inv b w"
  by (simp add: frames_inv_def)

lemma frames_inv_blocker_add:
  "frames_inv b w \<Longrightarrow> frames_inv (fst (blocker_add s b w)) (snd (blocker_add s b w))"
  using debounce_hide_inv [of "b\<lparr>selectors := js_set_add s (selectors b)\<rparr>" "console_log (SelectorAdded s) w"]
  by (simp add: blocker_add_def)

lemma frames_inv_blocker_remove:
  "frames_inv b w \<Longrightarrow> frames_inv (fst (blocker_remove s b w)) (snd (blocker_remove s b w))"
  by (simp add: blocker_remove_def)

section \<open>Removal does not show again\<close>

lemma blocker_remove_world:
  "elems (snd (blocker_remove s b w)) = elems w" "dom_wf (snd (blocker_remove s b w)) = dom_wf w"
  by (simp_all add: blocker_remove_def dom_wf_def)

text \<open>
  C13.  Removal is one-directional: an element already hidden is still in the
  document, still hidden, after removing any selector and scanning again.
\<close>

theorem remove_keeps_hidden:
  assumes "dom_wf w" and "e \<in> set (elems w)" and "display e = ''none''"
  shows "e \<in> set (elems (hide_ads c (fst (blocker_remove s b w)) (snd (blocker_remove s b w))))"
  using assms blocker_remove_world by (simp add: hide_ads_keeps_hidden)

lemma remove_keeps_hidden_witness:
  "\<lparr>key = 3, id_attr = [], display = ''none'', box = None\<rparr> \<in>
     set (elems (hide_ads demo_css (fst (blocker_remove ''#ad'' (demo_blocker [''#ad'']) demo_doc))
                              (snd (blocker_remove ''#ad'' (demo_blocker [''#ad'']) demo_doc))))"
  by (rule remove_keeps_hidden) (simp_all add: dom_wf_def demo_doc_def new_world_def keys_def)

section \<open>Frame lemmas for the page\<close>

lemma count_hide_one [simp]:
  "count_list (console (hide_one k w)) ScalingEnabled = count_list (console w) ScalingEnabled"
  by (simp add: hide_one_log split: option.split)

lemma count_hide_ads [simp]:
  "count_list (console (hide_ads c b w)) ScalingEnabled = count_list (console w) ScalingEnabled"
proof -
  have "count_list (console (fold hide_one ks w)) ScalingEnabled = count_list (console w) ScalingEnabled" for ks
    by (induction ks arbitrary: w) simp_all
  then show ?thesis by (simp add: hide_ads_def split: sum.split)
qed

lemma debounce_hide_frame [simp]:
  "timers (snd (debounce_hide b w)) = timers w" "next_timer (snd (debounce_hide b w)) = next_timer w"
  "keys (snd (debounce_hide b w)) = keys w" "dom_wf (snd (debounce_hide b w)) = dom_wf w"
  "selectors (fst (debounce_hide b w)) = selectors b" "bl_observing (fst (debounce_hide b w)) = bl_observing b"
  by (simp_all add: debounce_hide_def request_frame_def cancel_frame_def keys_def dom_wf_def split: option.split)

lemma blocker_add_frame [simp]:
  "timers (snd (blocker_add s b w)) = timers w" "next_timer (snd (blocker_add s b w)) = next_timer w"
  "keys (snd (blocker_add s b w)) = keys w" "dom_wf (snd (blocker_add s b w)) = dom_wf w"
  "bl_observing (fst (blocker_add s b w)) = bl_observing b"
  "count_list (console (snd (blocker_add s b w))) ScalingEnabled = count_list (console w) ScalingEnabled"
  by (simp_all add: blocker_add_def debounce_hide_parts)

lemma frames_inv_observing [simp]: "frames_inv (b\<lparr>bl_observing := x\<rparr>) w = frames_inv b w"
  by (simp add: frames_inv_def)

lemma blocker_new_frame [simp]:
  "timers (snd (blocker_new sels w)) = timers w" "next_timer (snd (blocker_new sels w)) = next_timer w"
  "dom_wf (snd (blocker_new sels w)) = dom_wf w"
  "count_list (console (snd (blocker_new sels w))) ScalingEnabled = count_list (console w) ScalingEnabled"
  "bl_observing (fst (blocker_new sels w))" "selectors (fst (blocker_new sels w)) = js_set_of_list sels"
  by (simp_all add: blocker_new_def split_beta debounce_hide_parts)

lemma blocker_new_frames_inv:
  assumes "frames w = []"
  shows "frames_inv (fst (blocker_new sels w)) (snd (blocker_new sels w))"
proof -
  let ?b0 = "\<lparr>selectors = js_set_of_list sels, frame_id = None, bl_observing = False\<rparr>"
  have "frames_inv ?b0 w" using assms by (simp add: frames_inv_def)
  then have "frames_inv (fst (debounce_hide ?b0 w)) (snd (debounce_hide ?b0 w))"
    by (simp add: debounce_hide_inv)
  then show ?thesis by (simp add: blocker_new_def split_beta)
qed

end
