(* ===== verification/Fingerprint.thy ===== *)
theory Fingerprint
  imports Prelude
begin

text \<open>
  \<open>hideBrowserFingerprint\<close> of \<open>src/preload.js\<close> (lines 26--42): the page-visible
  runtime properties it overrides, as a record (\<open>navigator.webdriver\<close>, whether
  \<open>window.performance\<close> exists, and \<open>performance.memory\<close>).  \<open>Math.random()\<close> is
  an argument: the two draws, each in \<open>[0, 1)\<close>.  The lemmas bound the installed
  heap figures and show the patch idempotent.
\<close>

record heap_info =
  total_heap :: nat
  used_heap :: nat
  heap_limit :: nat

record fp_env =
  webdriver :: bool
  has_performance :: bool
  memory :: "heap_info option"

definition MiB :: nat where
  "MiB = 1024 * 1024"

text \<open>\<open>Math.floor(x) * 1024 * 1024\<close> for the non-negative \<open>x\<close> the code computes.\<close>

definition floor_mib :: "rat \<Rightarrow> nat" where
  "floor_mib x = nat \<lfloor>x\<rfloor> * 1024 * 1024"

definition fake_memory :: "rat \<Rightarrow> rat \<Rightarrow> heap_info" where
  "fake_memory r1 r2 =
     \<lparr>total_heap = floor_mib (r1 * 100 + 50), used_heap = floor_mib (r2 * 50),
      heap_limit = 200 * 1024 * 1024\<rparr>"

text \<open>
  The getter of \<open>navigator.webdriver\<close> returns \<open>false\<close>; \<open>performance.memory\<close> is
  defined only where \<open>performance\<close> exists and \<open>memory\<close> is absent (falsy).
\<close>

definition hide_fingerprint :: "rat \<Rightarrow> rat \<Rightarrow> fp_env \<Rightarrow> fp_env" where
  "hide_fingerprint r1 r2 env =
     env\<lparr>webdriver := False,
         memory := (if has_performance env \<and> memory env = None then Some (fake_memory r1 r2)
                    else memory env)\<rparr>"

definition random_draw :: "rat \<Rightarrow> bool" where
  "random_draw r \<longleftrightarrow> 0 \<le> r \<and> r < 1"

lemma floor_mib_bounds:
  assumes "of_nat lo \<le> x" and "x < of_nat hi"
  shows "lo * MiB \<le> floor_mib x \<and> floor_mib x \<le> (hi - 1) * MiB"
proof -
  have "int lo \<le> \<lfloor>x\<rfloor>" using assms(1) by (simp add: le_floor_iff)
  moreover have "\<lfloor>x\<rfloor> < int hi" using assms(2) by (simp add: floor_less_iff)
  ultimately have "lo \<le> nat \<lfloor>x\<rfloor>" "nat \<lfloor>x\<rfloor> \<le> hi - 1" by linarith+
  then show ?thesis by (simp add: floor_mib_def MiB_def)
qed

text \<open>
  C32.  With random draws in \<open>[0, 1)\<close>, the heap figures the patch installs look
  plausible: the total is between 50 and 149 MiB, the used size at most 49 MiB and
  below the total, the limit 200 MiB above both; and \<open>webdriver\<close> reads \<open>false\<close>.
\<close>

theorem hide_fingerprint_bounds:
  assumes "random_draw r1" and "random_draw r2"
    and "has_performance env" and "memory env = None"
  shows "\<not> webdriver (hide_fingerprint r1 r2 env) \<and>
         (\<exists>m. memory (hide_fingerprint r1 r2 env) = Some m \<and>
              50 * MiB \<le> total_heap m \<and> total_heap m \<le> 149 * MiB \<and>
              used_heap m \<le> 49 * MiB \<and> used_heap m < total_heap m \<and>
              total_heap m < heap_limit m \<and> heap_limit m = 200 * MiB)"
proof -
  have t: "50 * MiB \<le> floor_mib (r1 * 100 + 50) \<and> floor_mib (r1 * 100 + 50) \<le> 149 * MiB"
    using assms(1) floor_mib_bounds [of 50 "r1 * 100 + 50" 150]
    by (simp add: random_draw_def)
  have u: "floor_mib (r2 * 50) \<le> 49 * MiB"
    using assms(2) floor_mib_bounds [of 0 "r2 * 50" 50]
    by (simp add: random_draw_def)
  show ?thesis
    using assms(3,4) t u by (simp add: hide_fingerprint_def fake_memory_def MiB_def)
qed

lemma hide_fingerprint_bounds_witness:
  "\<not> webdriver (hide_fingerprint 0 (1/2) \<lparr>webdriver = True, has_performance = True, memory = None\<rparr>) \<and>
   memory (hide_fingerprint 0 (1/2) \<lparr>webdriver = True, has_performance = True, memory = None\<rparr>) =
     Some \<lparr>total_heap = 50 * MiB, used_heap = 25 * MiB, heap_limit = 200 * MiB\<rparr>"
proof -
  have "random_draw 0" "random_draw (1/2)" by (simp_all add: random_draw_def)
  from hide_fingerprint_bounds [OF this, of "\<lparr>webdriver = True, has_performance = True, memory = None\<rparr>"]
  show ?thesis by (simp add: hide_fingerprint_def fake_memory_def floor_mib_def MiB_def)
qed

text \<open>
  C33.  The patch is idempotent: applying it again, with any random draws, changes
  nothing, because the first application already installed \<open>memory\<close>.
\<close>

theorem hide_fingerprint_idempotent:
  "hide_fingerprint r3 r4 (hide_fingerprint r1 r2 env) = hide_fingerprint r1 r2 env"
  by (simp add: hide_fingerprint_def)

end
