(* ===== verification/Preload.thy ===== *)
theory Preload
  imports PageScaler AdBlocker Fingerprint "HOL-Library.Product_Lexorder"
begin

text \<open>
  The preload script as a whole (\<open>src/preload.js\<close> lines 148--168) and the event
  loop of the page that drives it.  A page is the browser world, the runtime
  properties fingerprinting reads, the two controllers once \<open>DOMContentLoaded\<close> has
  created them, and whether the bridge \<open>electronAPI\<close> is exposed.  The events are
  what the page and the user do: the \<open>DOMContentLoaded\<close> event (with the two draws
  of \<open>Math.random\<close>), child-list mutations by page scripts, viewport resizes, time
  passing (timers fire), animation frames, and the page calling the bridge.
  \<open>ran\<close> records the callbacks the event loop ran, in order.
\<close>

record page =
  world :: world
  fp :: fp_env
  scaler :: "scaler option"
  blocker :: "blocker option"
  api :: bool
  ran :: "task list"

datatype page_event =
    DOMContentLoaded rat rat
  | Insert nat elem
  | Remove nat
  | Resize nat nat
  | Elapse nat
  | Frame
  | AddAdSelector js_value
  | RefreshAds

definition new_page :: "world \<Rightarrow> fp_env \<Rightarrow> page" where
  "new_page w env = \<lparr>world = w, fp = env, scaler = None, blocker = None, api = False, ran = []\<rparr>"

section \<open>The DOMContentLoaded handler\<close>

text \<open>
  Lines 152--164: mask the fingerprint, construct the scaler and the blocker (in
  this order, so the scaler's observer is registered first), expose the bridge.
  The event fires once per document.
\<close>

definition on_loaded :: "rat \<Rightarrow> rat \<Rightarrow> page \<Rightarrow> page" where
  "on_loaded r1 r2 p =
     (if api p then p
      else (let (b, w1) = blocker_new AD_SELECTORS (world p)
            in p\<lparr>fp := hide_fingerprint r1 r2 (fp p), scaler := Some (scaler_new CONFIG_SCALE),
                 blocker := Some b, world := w1, api := True\<rparr>))"

section \<open>Dispatching to the controllers\<close>

text \<open>Both mutation observers are called, in the order they were registered.\<close>

definition notify_scaler :: "page \<Rightarrow> page" where
  "notify_scaler p =
     (case scaler p of None \<Rightarrow> p
      | Some s \<Rightarrow> (let (s', w') = scaler_on_mutation s (world p) in p\<lparr>scaler := Some s', world := w'\<rparr>))"

definition notify_blocker :: "page \<Rightarrow> page" where
  "notify_blocker p =
     (case blocker p of None \<Rightarrow> p
      | Some b \<Rightarrow> (let (b', w') = blocker_on_mutation b (world p) in p\<lparr>blocker := Some b', world := w'\<rparr>))"

definition notify_mutation :: "page \<Rightarrow> page" where
  "notify_mutation p = notify_blocker (notify_scaler p)"

definition on_resize :: "nat \<Rightarrow> nat \<Rightarrow> page \<Rightarrow> page" where
  "on_resize cw ch p =
     (let p1 = p\<lparr>world := (world p)\<lparr>client_w := cw, client_h := ch\<rparr>\<rparr>
      in case scaler p1 of None \<Rightarrow> p1
         | Some s \<Rightarrow> (let (s', w') = scaler_on_resize s (world p1) in p1\<lparr>scaler := Some s', world := w'\<rparr>))"

text \<open>A callback the event loop runs: the \<open>applyScale\<close> closure or \<open>hideAds\<close>.\<close>

definition run_task :: "css \<Rightarrow> task \<Rightarrow> page \<Rightarrow> page" where
  "run_task c t p =
     (case t of
        ApplyScale \<Rightarrow>
          (case scaler p of None \<Rightarrow> p | Some s \<Rightarrow> p\<lparr>world := scaler_on_timer s (world p)\<rparr>)
      | HideAds \<Rightarrow>
          (case blocker p of None \<Rightarrow> p | Some b \<Rightarrow> p\<lparr>world := hide_ads c b (world p)\<rparr>))\<lparr>ran := ran p @ [t]\<rparr>"

text \<open>
  Time passes by \<open>d\<close> milliseconds; the timers now due run in the order of their
  due time (then of their handle), each removed from the table before it runs.
  The callbacks never set timers, so running the due ones at once is the loop.
\<close>

definition due_timers :: "nat \<Rightarrow> world \<Rightarrow> (nat \<times> nat \<times> task) list" where
  "due_timers t w = sort_key (\<lambda>(i, d, _). (d, i)) (filter (\<lambda>(_, d, _). d \<le> t) (timers w))"

definition elapse :: "css \<Rightarrow> nat \<Rightarrow> page \<Rightarrow> page" where
  "elapse c d p =
     (let t = now (world p) + d;
          due = due_timers t (world p);
          p1 = p\<lparr>world := (world p)\<lparr>now := t, timers := filter (\<lambda>(_, e, _). t < e) (timers (world p))\<rparr>\<rparr>
      in fold (\<lambda>(_, _, cb). run_task c cb) due p1)"

text \<open>An animation frame runs every callback requested before it, in order.\<close>

definition frame :: "css \<Rightarrow> page \<Rightarrow> page" where
  "frame c p =
     (let fs = frames (world p)
      in fold (\<lambda>(_, cb). run_task c cb) fs (p\<lparr>world := (world p)\<lparr>frames := []\<rparr>\<rparr>))"

section \<open>The bridge\<close>

text \<open>
  \<open>addAdSelector\<close> (lines 158--162): a non-empty string is passed to \<open>add\<close>,
  anything else is ignored.  \<open>refreshAds\<close> (line 163) requests a scan.  Before the
  bridge is exposed the page has no \<open>electronAPI\<close>; its call throws in the
  page's own script and the preload state is unchanged.
\<close>

definition add_ad_selector :: "js_value \<Rightarrow> page \<Rightarrow> page" where
  "add_ad_selector v p =
     (if api p \<and> js_is_string v \<and> js_truthy v then
        (case (v, blocker p) of
           (JStr s, Some b) \<Rightarrow> (let (b', w') = blocker_add s b (world p) in p\<lparr>blocker := Some b', world := w'\<rparr>)
         | _ \<Rightarrow> p)
      else p)"

definition refresh_ads :: "page \<Rightarrow> page" where
  "refresh_ads p =
     (if api p then
        (case blocker p of None \<Rightarrow> p
         | Some b \<Rightarrow> (let (b', w') = debounce_hide b (world p) in p\<lparr>blocker := Some b', world := w'\<rparr>))
      else p)"

section \<open>The event loop\<close>

fun page_step :: "css \<Rightarrow> page \<Rightarrow> page_event \<Rightarrow> page" where
  "page_step c p (DOMContentLoaded r1 r2) = on_loaded r1 r2 p"
| "page_step c p (Insert i e) = notify_mutation (p\<lparr>world := insert_node i e (world p)\<rparr>)"
| "page_step c p (Remove k) = notify_mutation (p\<lparr>world := remove_node k (world p)\<rparr>)"
| "page_step c p (Resize cw ch) = on_resize cw ch p"
| "page_step c p (Elapse d) = elapse c d p"
| "page_step c p Frame = frame c p"
| "page_step c p (AddAdSelector v) = add_ad_selector v p"
| "page_step c p RefreshAds = refresh_ads p"

text \<open>The selector engine of the example pages: every selector parses; \<open>#new-ad\<close> matches node 2.\<close>

definition c0_css :: css where
  "c0_css = \<lparr>sel_valid = (\<lambda>s. True), sel_match = (\<lambda>s k. s = ''#new-ad'' \<and> k = 2)\<rparr>"

definition page_run :: "css \<Rightarrow> page \<Rightarrow> page_event list \<Rightarrow> page" where
  "page_run c p es = fold (\<lambda>e p. page_step c p e) es p"

fun is_mutation :: "page_event \<Rightarrow> bool" where
  "is_mutation (Insert _ _) = True"
| "is_mutation (Remove _) = True"
| "is_mutation _ = False"

lemma page_run_simps [simp]:
  "page_run c p [] = p"
  "page_run c p (e # es) = page_run c (page_step c p e) es"
  "page_run c p (es @ fs) = page_run c (page_run c p es) fs"
  by (simp_all add: page_run_def)

text \<open>A burst of resizes, each followed by a pause of \<open>g\<close> milliseconds.\<close>

definition burst :: "(nat \<times> nat \<times> nat) list \<Rightarrow> page_event list" where
  "burst xs = concat (map (\<lambda>(cw, ch, g). [Resize cw ch, Elapse g]) xs)"

text \<open>The scaler has not found its container: not created yet, or still observing.\<close>

definition scaler_idle :: "page \<Rightarrow> bool" where
  "scaler_idle p \<longleftrightarrow>
     (scaler p = None \<and> \<not> api p) \<or>
     (\<exists>s. scaler p = Some s \<and> observing s \<and> container s = None \<and> \<not> listening s)"

text \<open>
  What stays true of a page: the document keeps distinct keys; timer handles are
  distinct and fresh; before \<open>DOMContentLoaded\<close> nothing is scheduled, and after it
  every timer is the scaler's own and every frame the blocker's; the scaler has
  either its observer or its resize listener; \<open>ScalingEnabled\<close> is logged once
  exactly when the scaler has set up.
\<close>

definition timers_wf :: "world \<Rightarrow> bool" where
  "timers_wf w \<longleftrightarrow> distinct (map fst (timers w)) \<and> (\<forall>(i, _, _) \<in> set (timers w). i < next_timer w)"

definition page_inv :: "page \<Rightarrow> bool" where
  "page_inv p \<longleftrightarrow>
     dom_wf (world p) \<and> timers_wf (world p) \<and>
     (case scaler p of
        None \<Rightarrow> timers (world p) = [] \<and> count_list (console (world p)) ScalingEnabled = 0
      | Some s \<Rightarrow> timers_owned s (world p) \<and> listening s = (\<not> observing s) \<and>
                  count_list (console (world p)) ScalingEnabled = (if observing s then 0 else 1)) \<and>
     (case blocker p of
        None \<Rightarrow> frames (world p) = []
      | Some b \<Rightarrow> frames_inv b (world p) \<and> bl_observing b \<and> distinct (selectors b)) \<and>
     (scaler p = None \<longleftrightarrow> \<not> api p) \<and> (blocker p = None \<longleftrightarrow> \<not> api p)"

text \<open>Two worlds that agree on everything the invariant reads.\<close>

definition sched_same :: "world \<Rightarrow> world \<Rightarrow> bool" where
  "sched_same w w' \<longleftrightarrow>
     timers w' = timers w \<and> next_timer w' = next_timer w \<and> frames w' = frames w \<and>
     next_frame w' = next_frame w \<and> dom_wf w' = dom_wf w \<and>
     count_list (console w') ScalingEnabled = count_list (console w) ScalingEnabled"

inductive reachable :: "css \<Rightarrow> page \<Rightarrow> page \<Rightarrow> bool" for c p0 where
  reach_start: "reachable c p0 p0"
| reach_step: "reachable c p0 p \<Longrightarrow> reachable c p0 (page_step c p e)"

text \<open>The definitions a concrete run unfolds, for evaluation by \<open>simp\<close>.\<close>

lemmas page_eval =
  new_page_def new_world_def on_loaded_def blocker_new_def debounce_hide_def
  cancel_frame_def request_frame_def console_log_def scaler_new_def notify_mutation_def
  notify_scaler_def notify_blocker_def scaler_on_mutation_def blocker_on_mutation_def
  get_element_by_id_def insert_node_def remove_node_def setup_scaling_def apply_scale_def
  update_elem_def frame_def run_task_def hide_ads_def query_selector_all_def keys_def
  matches_any_def hide_one_def lookup_elem_def add_ad_selector_def blocker_add_def
  refresh_ads_def on_resize_def scaler_on_resize_def clear_timeout_def set_timeout_def
  elapse_def due_timers_def scaler_on_timer_def CONFIG_SCALE_def AD_SELECTORS_def
  js_set_of_list_def js_set_add_def hide_fingerprint_def fake_memory_def floor_mib_def

section \<open>Controllers across steps\<close>

lemma run_task_scaler [simp]: "scaler (run_task c t p) = scaler p"
  and run_task_blocker [simp]: "blocker (run_task c t p) = blocker p"
  and run_task_api [simp]: "api (run_task c t p) = api p"
  by (simp_all add: run_task_def split: task.split option.split)

lemma fold_run_task_ctrl2 [simp]:
  "scaler (fold (\<lambda>(_, cb). run_task c cb) fs p) = scaler p \<and>
   blocker (fold (\<lambda>(_, cb). run_task c cb) fs p) = blocker p \<and>
   api (fold (\<lambda>(_, cb). run_task c cb) fs p) = api p"
  by (induction fs arbitrary: p) (simp_all add: case_prod_beta)

lemma fold_run_task_ctrl3 [simp]:
  "scaler (fold (\<lambda>(_, _, cb). run_task c cb) ts p) = scaler p \<and>
   blocker (fold (\<lambda>(_, _, cb). run_task c cb) ts p) = blocker p \<and>
   api (fold (\<lambda>(_, _, cb). run_task c cb) ts p) = api p"
  by (induction ts arbitrary: p) (simp_all add: case_prod_beta)

text \<open>
  Steps other than child-list mutations never call the scaler's observer callback:
  the scaler keeps its observer, its container and its listener as they were.
\<close>

lemma step_scaler_setup:
  assumes "\<not> is_mutation e"
  shows "map_option (\<lambda>s. (observing s, container s, listening s)) (scaler (page_step c p e)) =
         (if \<not> api p \<and> (\<exists>r1 r2. e = DOMContentLoaded r1 r2)
          then Some (True, None, False)
          else map_option (\<lambda>s. (observing s, container s, listening s)) (scaler p))"
  using assms
  by (cases e) (auto simp: on_loaded_def scaler_new_def on_resize_def scaler_on_resize_def elapse_def
        frame_def add_ad_selector_def blocker_add_def refresh_ads_def debounce_hide_def Let_def
        split: option.split prod.split js_value.split)

lemma step_api: "api (page_step c p e) = (api p \<or> (\<exists>r1 r2. e = DOMContentLoaded r1 r2))"
  by (cases e) (auto simp: on_loaded_def notify_mutation_def notify_scaler_def notify_blocker_def
        on_resize_def elapse_def frame_def add_ad_selector_def refresh_ads_def Let_def
        split: option.split prod.split js_value.split)

lemma scaler_idle_step: "scaler_idle p \<Longrightarrow> \<not> is_mutation e \<Longrightarrow> scaler_idle (page_step c p e)"
proof -
  assume idle: "scaler_idle p" and nm: "\<not> is_mutation e"
  note eq = step_scaler_setup [OF nm, of c p]
  show ?thesis
  proof (cases "\<not> api p \<and> (\<exists>r1 r2. e = DOMContentLoaded r1 r2)")
    case True
    with eq show ?thesis by (auto simp: scaler_idle_def)
  next
    case False
    show ?thesis
    proof (cases "scaler p")
      case None
      with idle False eq show ?thesis by (auto simp: scaler_idle_def step_api)
    next
      case (Some s)
      with idle have "observing s \<and> container s = None \<and> \<not> listening s"
        by (simp add: scaler_idle_def)
      with Some False eq show ?thesis by (auto simp: scaler_idle_def)
    qed
  qed
qed

text \<open>
  C14.  The scaler reacts only to child-list mutations: on a run with none of
  them, the scaler never finds its container and never scales, even when an
  element with the container id is in the document from the start.
\<close>

theorem no_mutation_no_scaling:
  assumes "\<forall>e\<in>set es. \<not> is_mutation e"
  shows "scaler_idle (page_run c (new_page w env) es)"
proof -
  have "scaler_idle p \<Longrightarrow> scaler_idle (page_run c p es)" for p
    using assms by (induction es arbitrary: p) (simp_all add: scaler_idle_step)
  then show ?thesis by (simp add: scaler_idle_def new_page_def)
qed

lemma no_mutation_no_scaling_witness:
  "scaler_idle (page_run c0_css
      (new_page (new_world [\<lparr>key = 1, id_attr = ''app-container'', display = [], box = None\<rparr>] 1000 540)
                \<lparr>webdriver = True, has_performance = True, memory = None\<rparr>)
      [DOMContentLoaded 0 0, Resize 960 540, Elapse 200, Frame]) \<and>
   get_element_by_id ''app-container''
      (new_world [\<lparr>key = 1, id_attr = ''app-container'', display = [], box = None\<rparr>] 1000 540) = Some 1"
proof -
  have "\<forall>e\<in>set [DOMContentLoaded 0 0, Resize 960 540, Elapse 200, Frame]. \<not> is_mutation e" by simp
  from no_mutation_no_scaling [OF this] show ?thesis
    by (simp add: get_element_by_id_def new_world_def)
qed

section \<open>The bridge\<close>

text \<open>
  C15.  The bridge refines the abstract suppression set: once exposed,
  \<open>addAdSelector(v)\<close> inserts \<open>v\<close> when it is a non-empty string and ignores every
  other value, keeping the selector list duplicate-free.
\<close>

theorem add_ad_selector_refines:
  assumes "api p" and "blocker p = Some b" and "distinct (selectors b)"
  shows "\<exists>b'. blocker (add_ad_selector v p) = Some b' \<and> distinct (selectors b') \<and>
           set (selectors b') = (case v of JStr s \<Rightarrow> supp_add s (set (selectors b)) | _ \<Rightarrow> set (selectors b))"
proof (cases v)
  case (JStr s)
  show ?thesis
  proof (cases "s = []")
    case True
    with JStr assms show ?thesis by (simp add: add_ad_selector_def supp_add_def)
  next
    case False
    have "selectors (fst (blocker_add s b (world p))) =
        (if s \<notin> set (selectors b) then selectors b @ [s] else selectors b)"
      using False by (simp add: blocker_add_selectors)
    with JStr False assms show ?thesis
      by (auto simp: add_ad_selector_def supp_add_def split: prod.split if_splits)
  qed
qed (use assms in \<open>simp_all add: add_ad_selector_def\<close>)

lemma add_ad_selector_refines_witness:
  "selectors (the (blocker (add_ad_selector (JStr ''#new-ad'')
      (page_run c0_css (new_page (new_world [] 800 600) \<lparr>webdriver = True, has_performance = True, memory = None\<rparr>)
         [DOMContentLoaded 0 0])))) = AD_SELECTORS @ [''#new-ad''] \<and>
   blocker (add_ad_selector (JNum 7)
      (page_run c0_css (new_page (new_world [] 800 600) \<lparr>webdriver = True, has_performance = True, memory = None\<rparr>)
         [DOMContentLoaded 0 0])) =
   blocker (page_run c0_css (new_page (new_world [] 800 600) \<lparr>webdriver = True, has_performance = True, memory = None\<rparr>)
         [DOMContentLoaded 0 0])"
proof -
  let ?p = "page_run c0_css (new_page (new_world [] 800 600) \<lparr>webdriver = True, has_performance = True, memory = None\<rparr>)
         [DOMContentLoaded 0 0]"
  have p: "api ?p" "blocker ?p = Some (the (blocker ?p))" "distinct (selectors (the (blocker ?p)))"
    by (simp_all add: page_eval)
  from add_ad_selector_refines [OF p, of "JNum 7"] have "blocker (add_ad_selector (JNum 7) ?p) = blocker ?p"
    by (simp add: add_ad_selector_def)
  moreover have "selectors (the (blocker (add_ad_selector (JStr ''#new-ad'') ?p))) = AD_SELECTORS @ [''#new-ad'']"
    by (simp add: page_eval)
  ultimately show ?thesis by simp
qed

section \<open>End-to-end scenarios\<close>

definition app_container :: elem where
  "app_container = \<lparr>key = 1, id_attr = ''app-container'', display = [], box = None\<rparr>"

definition new_ad :: elem where
  "new_ad = \<lparr>key = 2, id_attr = ''banner'', display = [], box = None\<rparr>"

definition fresh_page :: "nat \<Rightarrow> nat \<Rightarrow> page" where
  "fresh_page cw ch = new_page (new_world [] cw ch) \<lparr>webdriver = True, has_performance = True, memory = None\<rparr>"



section \<open>Debouncing at the page level\<close>

lemma on_resize_listening:
  assumes "scaler p = Some s" and "listening s" and "timers_owned s (world p)"
  shows "scaler (on_resize cw ch p) = Some (s\<lparr>resize_timer := Some (next_timer (world p))\<rparr>) \<and>
         timers (world (on_resize cw ch p)) =
           [(next_timer (world p), now (world p) + resize_delay (config s), ApplyScale)] \<and>
         elems (world (on_resize cw ch p)) = elems (world p) \<and>
         now (world (on_resize cw ch p)) = now (world p) \<and>
         client_w (world (on_resize cw ch p)) = cw \<and> client_h (world (on_resize cw ch p)) = ch \<and>
         ran (on_resize cw ch p) = ran p"
proof -
  let ?w = "(world p)\<lparr>client_w := cw, client_h := ch\<rparr>"
  have "timers_owned s ?w" using assms(3) by (simp add: timers_owned_def)
  note r = scaler_on_resize_listening [OF assms(2) this]
  obtain s' w' where eq: "scaler_on_resize s ?w = (s', w')" by (cases "scaler_on_resize s ?w")
  from r eq have "s' = s\<lparr>resize_timer := Some (next_timer (world p))\<rparr>"
    "w' = (clear_timeout (resize_timer s) ?w)\<lparr>timers := [(next_timer (world p), now (world p) + resize_delay (config s), ApplyScale)],
                                              next_timer := Suc (next_timer (world p))\<rparr>"
    by simp_all
  then show ?thesis using assms(1) eq by (simp add: on_resize_def)
qed

lemma elapse_quiet:
  assumes "timers (world p) = [(n, t, cb)]" and "now (world p) + g < t"
  shows "elapse c g p = p\<lparr>world := (world p)\<lparr>now := now (world p) + g\<rparr>\<rparr>"
  using assms by (simp add: elapse_def due_timers_def)

lemma elapse_fire:
  assumes "timers (world p) = [(n, t, ApplyScale)]" and "t \<le> now (world p) + g"
    and "scaler p = Some s" and "container s = Some k"
  shows "ran (elapse c g p) = ran p @ [ApplyScale] \<and>
         elems (world (elapse c g p)) =
           map (\<lambda>e. if key e = k then e\<lparr>box := Some (scale_box (config s) (client_w (world p)) (client_h (world p)))\<rparr> else e)
             (elems (world p))"
  using assms
  by (simp add: elapse_def due_timers_def run_task_def scaler_on_timer_def apply_scale_def update_elem_def)

lemma burst_quiet:
  assumes "scaler p = Some s" and "listening s" and "timers_owned s (world p)"
    and "\<forall>(cw, ch, g) \<in> set xs. g < resize_delay (config s)"
  shows "\<exists>s'. scaler (page_run c p (burst xs)) = Some s' \<and> config s' = config s \<and>
           container s' = container s \<and> listening s' \<and>
           timers_owned s' (world (page_run c p (burst xs))) \<and>
           elems (world (page_run c p (burst xs))) = elems (world p) \<and>
           ran (page_run c p (burst xs)) = ran p"
  using assms
proof (induction xs arbitrary: p s)
  case Nil
  then show ?case by (simp add: burst_def)
next
  case (Cons x xs)
  obtain cw ch g where x: "x = (cw, ch, g)" by (cases x)
  let ?p1 = "on_resize cw ch p"
  let ?s1 = "s\<lparr>resize_timer := Some (next_timer (world p))\<rparr>"
  note r = on_resize_listening [OF Cons.prems(1-3), of cw ch]
  have g: "g < resize_delay (config s)" using Cons.prems(4) x by auto
  have t1: "timers (world ?p1) = [(next_timer (world p), now (world p) + resize_delay (config s), ApplyScale)]"
    and n1: "now (world ?p1) = now (world p)" using r by simp_all
  have lt: "now (world ?p1) + g < now (world p) + resize_delay (config s)" using n1 g by simp
  have q: "elapse c g ?p1 = ?p1\<lparr>world := (world ?p1)\<lparr>now := now (world ?p1) + g\<rparr>\<rparr>"
    by (rule elapse_quiet [OF t1 lt])
  let ?p2 = "?p1\<lparr>world := (world ?p1)\<lparr>now := now (world ?p1) + g\<rparr>\<rparr>"
  have p2: "scaler ?p2 = Some ?s1" "listening ?s1" "timers_owned ?s1 (world ?p2)"
    "\<forall>(cw, ch, g) \<in> set xs. g < resize_delay (config ?s1)"
    using r Cons.prems by (auto simp: timers_owned_def)
  from Cons.IH [OF p2] r
  have "\<exists>s'. scaler (page_run c ?p2 (burst xs)) = Some s' \<and> config s' = config s \<and>
           container s' = container s \<and> listening s' \<and>
           timers_owned s' (world (page_run c ?p2 (burst xs))) \<and>
           elems (world (page_run c ?p2 (burst xs))) = elems (world p) \<and>
           ran (page_run c ?p2 (burst xs)) = ran p"
    by simp
  moreover have "page_run c p (burst (x # xs)) = page_run c ?p2 (burst xs)"
    using q x by (simp add: burst_def)
  ultimately show ?case by simp
qed

text \<open>
  C5.  Debouncing: after the scaler is set up, resizes that follow each other
  within the debounce delay, then a last resize and a pause of at least the delay,
  run \<open>applyScale\<close> exactly once, and with the metrics of the last resize.
\<close>

theorem resize_burst_once:
  assumes "scaler p = Some s" and "listening s" and "container s = Some k"
    and "timers_owned s (world p)"
    and "\<forall>(cw, ch, g) \<in> set xs. g < resize_delay (config s)" and "resize_delay (config s) \<le> d"
  shows "ran (page_run c p (burst xs @ [Resize cw ch, Elapse d])) = ran p @ [ApplyScale] \<and>
         elems (world (page_run c p (burst xs @ [Resize cw ch, Elapse d]))) =
           map (\<lambda>e. if key e = k then e\<lparr>box := Some (scale_box (config s) cw ch)\<rparr> else e) (elems (world p))"
proof -
  obtain s' where s': "scaler (page_run c p (burst xs)) = Some s'" "config s' = config s"
    "container s' = Some k" "listening s'" "timers_owned s' (world (page_run c p (burst xs)))"
    "elems (world (page_run c p (burst xs))) = elems (world p)" "ran (page_run c p (burst xs)) = ran p"
    using burst_quiet [OF assms(1,2,4,5), of c] assms(3) by auto
  let ?q = "on_resize cw ch (page_run c p (burst xs))"
  note r = on_resize_listening [OF s'(1,4,5), of cw ch]
  have "ran (elapse c d ?q) = ran ?q @ [ApplyScale] \<and>
        elems (world (elapse c d ?q)) =
          map (\<lambda>e. if key e = k then e\<lparr>box := Some (scale_box (config s') (client_w (world ?q)) (client_h (world ?q)))\<rparr> else e)
            (elems (world ?q))"
  proof -
    let ?s1 = "s'\<lparr>resize_timer := Some (next_timer (world (page_run c p (burst xs))))\<rparr>"
    have t: "timers (world ?q) = [(next_timer (world (page_run c p (burst xs))),
        now (world (page_run c p (burst xs))) + resize_delay (config s), ApplyScale)]"
      using r s'(2) by simp
    have le: "now (world (page_run c p (burst xs))) + resize_delay (config s) \<le> now (world ?q) + d"
      using r assms(6) by simp
    have sc: "scaler ?q = Some ?s1" and ct: "container ?s1 = Some k" using r s'(3) by simp_all
    from elapse_fire [OF t le sc ct] s'(2) show ?thesis by simp
  qed
  then show ?thesis using r s' by simp
qed

lemma resize_burst_once_witness:
  "ran (page_run c0_css
      \<lparr>world = (new_world [app_container] 1000 540)\<lparr>timers := [], now := 5\<rparr>,
       fp = \<lparr>webdriver = False, has_performance = True, memory = None\<rparr>,
       scaler = Some \<lparr>config = CONFIG_SCALE, resize_timer = None, observing = False,
                      container = Some 1, listening = True\<rparr>,
       blocker = None, api = True, ran = []\<rparr>
      (burst [(960, 540, 30), (1200, 700, 99)] @ [Resize 960 540, Elapse 100])) = [ApplyScale] \<and>
   elems (world (page_run c0_css
      \<lparr>world = (new_world [app_container] 1000 540)\<lparr>timers := [], now := 5\<rparr>,
       fp = \<lparr>webdriver = False, has_performance = True, memory = None\<rparr>,
       scaler = Some \<lparr>config = CONFIG_SCALE, resize_timer = None, observing = False,
                      container = Some 1, listening = True\<rparr>,
       blocker = None, api = True, ran = []\<rparr>
      (burst [(960, 540, 30), (1200, 700, 99)] @ [Resize 960 540, Elapse 100]))) =
     [app_container\<lparr>box := Some (scale_box CONFIG_SCALE 960 540)\<rparr>]"
proof -
  let ?s = "\<lparr>config = CONFIG_SCALE, resize_timer = None, observing = False, container = Some 1, listening = True\<rparr>"
  let ?p = "\<lparr>world = (new_world [app_container] 1000 540)\<lparr>timers := [], now := 5\<rparr>,
       fp = \<lparr>webdriver = False, has_performance = True, memory = None\<rparr>,
       scaler = Some ?s, blocker = None, api = True, ran = []\<rparr>"
  have h: "scaler ?p = Some ?s" "listening ?s" "container ?s = Some 1" "timers_owned ?s (world ?p)"
    "\<forall>(cw, ch, g) \<in> set [(960::nat, 540::nat, 30::nat), (1200, 700, 99)]. g < resize_delay (config ?s)"
    "resize_delay (config ?s) \<le> 100"
    by (simp_all add: timers_owned_def CONFIG_SCALE_def)
  from resize_burst_once [OF h, of c0_css 960 540] show ?thesis
    by (simp add: new_world_def app_container_def)
qed

section \<open>The page invariant\<close>

lemma page_inv_ran [simp]: "page_inv (p\<lparr>ran := r\<rparr>) = page_inv p"
  by (simp add: page_inv_def split: option.split)

lemma page_inv_sched_same:
  assumes "page_inv p" and "sched_same (world p) w'"
  shows "page_inv (p\<lparr>world := w'\<rparr>)"
proof -
  have "timers_wf w' = timers_wf (world p)" "frames_inv b w' = frames_inv b (world p)"
    "timers_owned s w' = timers_owned s (world p)" for b s
    using assms(2) by (simp_all add: sched_same_def timers_wf_def frames_inv_def timers_owned_def)
  with assms show ?thesis
    by (cases "scaler p"; cases "blocker p") (simp_all add: page_inv_def sched_same_def)
qed

lemma page_inv_run_task: "page_inv p \<Longrightarrow> page_inv (run_task c t p)"
proof -
  assume inv: "page_inv p"
  have "sched_same (world p) (scaler_on_timer s (world p))" "sched_same (world p) (hide_ads c b (world p))" for s b
    by (simp_all add: sched_same_def)
  with inv show ?thesis
    by (cases t; cases "scaler p"; cases "blocker p") (simp_all add: run_task_def page_inv_sched_same)
qed

lemma page_inv_fold_run_task:
  "page_inv p \<Longrightarrow> page_inv (fold (\<lambda>(_, cb). run_task c cb) fs p)"
  "page_inv p \<Longrightarrow> page_inv (fold (\<lambda>(_, _, cb). run_task c cb) ts p)"
   apply (induction fs arbitrary: p)
    apply (auto simp: page_inv_run_task split: prod.split)[2]
  apply (induction ts arbitrary: p)
   apply (auto simp: page_inv_run_task split: prod.split)
  done

lemma inv_parts_cong:
  "timers w' = timers w \<Longrightarrow> next_timer w' = next_timer w \<Longrightarrow> timers_wf w' = timers_wf w"
  "timers w' = timers w \<Longrightarrow> resize_timer s' = resize_timer s \<Longrightarrow> timers_owned s' w' = timers_owned s w"
  "frames w' = frames w \<Longrightarrow> next_frame w' = next_frame w \<Longrightarrow> frame_id b' = frame_id b \<Longrightarrow>
   frames_inv b' w' = frames_inv b w"
  by (simp_all add: timers_wf_def timers_owned_def frames_inv_def)

lemma page_inv_mutate_dom:
  assumes "page_inv p" and "dom_wf w'" and "w' = (world p)\<lparr>elems := es\<rparr>"
  shows "page_inv (p\<lparr>world := w'\<rparr>)"
proof -
  have "sched_same (world p) w'"
    using assms by (simp add: sched_same_def page_inv_def)
  with assms(1) show ?thesis by (rule page_inv_sched_same)
qed

lemma notify_scaler_Some:
  "scaler p = Some s \<Longrightarrow>
   notify_scaler p = p\<lparr>scaler := Some (fst (scaler_on_mutation s (world p))),
                       world := snd (scaler_on_mutation s (world p))\<rparr>"
  by (simp add: notify_scaler_def split_beta)

lemma page_inv_set_scaler:
  assumes "page_inv p" and "scaler p = Some s"
    and "dom_wf w'" and "timers_wf w'" and "timers_owned s' w'" and "listening s' = (\<not> observing s')"
    and "count_list (console w') ScalingEnabled = (if observing s' then 0 else 1)"
    and "case blocker p of None \<Rightarrow> frames w' = [] | Some b \<Rightarrow> frames_inv b w'"
  shows "page_inv (p\<lparr>scaler := Some s', world := w'\<rparr>)"
  using assms by (cases "blocker p") (simp_all add: page_inv_def)

lemma page_inv_notify_scaler:
  assumes inv: "page_inv p"
  shows "page_inv (notify_scaler p)"
proof (cases "scaler p")
  case None
  then show ?thesis using inv by (simp add: notify_scaler_def)
next
  case (Some s)
  consider "scaler_on_mutation s (world p) = (s, world p)"
    | k where "observing s" "scaler_on_mutation s (world p) = setup_scaling (s\<lparr>observing := False\<rparr>) k (world p)"
    using scaler_on_mutation_cases by blast
  then show ?thesis
  proof cases
    case 1
    have "notify_scaler p = p" using Some 1 by (simp add: notify_scaler_def)
    with inv show ?thesis by simp
  next
    case 2
    let ?s = "fst (setup_scaling (s\<lparr>observing := False\<rparr>) k (world p))"
    let ?w = "snd (setup_scaling (s\<lparr>observing := False\<rparr>) k (world p))"
    have s: "page_inv p" "scaler p = Some s" by (fact inv, fact Some)
    have "timers_wf ?w = timers_wf (world p)" by (rule inv_parts_cong(1)) simp_all
    moreover have "timers_owned ?s ?w = timers_owned s (world p)" by (rule inv_parts_cong(2)) simp_all
    moreover have "frames_inv b ?w = frames_inv b (world p)" for b by (rule inv_parts_cong(3)) simp_all
    moreover have "listening ?s" "\<not> observing ?s" by (simp_all add: setup_scaling_def)
    moreover have "count_list (console (world p)) ScalingEnabled = 0"
      using inv Some 2 by (simp add: page_inv_def)
    ultimately have "page_inv (p\<lparr>scaler := Some ?s, world := ?w\<rparr>)"
      using inv Some
      by (intro page_inv_set_scaler [OF s]) (auto simp: page_inv_def split: option.split)
    then show ?thesis using Some 2 by (simp add: notify_scaler_Some)
  qed
qed

lemma page_inv_set_blocker:
  assumes "page_inv p" and "blocker p = Some b"
    and "dom_wf w'" and "timers w' = timers (world p)" and "next_timer w' = next_timer (world p)"
    and "count_list (console w') ScalingEnabled = count_list (console (world p)) ScalingEnabled"
    and "frames_inv b' w'" and "bl_observing b'" and "distinct (selectors b')"
  shows "page_inv (p\<lparr>blocker := Some b', world := w'\<rparr>)"
proof -
  have "timers_wf w' = timers_wf (world p)" using assms(4,5) by (rule inv_parts_cong(1))
  moreover have "timers_owned s w' = timers_owned s (world p)" for s
    using assms(4) by (rule inv_parts_cong(2)) simp
  ultimately show ?thesis using assms by (cases "scaler p") (simp_all add: page_inv_def)
qed

lemma page_inv_debounce:
  assumes "page_inv p" and "blocker p = Some b"
  shows "page_inv (p\<lparr>blocker := Some (fst (debounce_hide b (world p))), world := snd (debounce_hide b (world p))\<rparr>)"
proof (rule page_inv_set_blocker [OF assms])
  have "frames_inv b (world p)" "bl_observing b" "distinct (selectors b)" "dom_wf (world p)"
    using assms by (simp_all add: page_inv_def)
  then show "frames_inv (fst (debounce_hide b (world p))) (snd (debounce_hide b (world p)))"
    "bl_observing (fst (debounce_hide b (world p)))" "distinct (selectors (fst (debounce_hide b (world p))))"
    "dom_wf (snd (debounce_hide b (world p)))"
    using debounce_hide_inv by simp_all
qed (simp_all add: debounce_hide_parts)

lemma page_inv_blocker_observing: "page_inv p \<Longrightarrow> blocker p = Some b \<Longrightarrow> bl_observing b"
  by (simp add: page_inv_def)

lemma page_inv_notify_blocker: "page_inv p \<Longrightarrow> page_inv (notify_blocker p)"
  by (cases "blocker p")
     (simp_all add: notify_blocker_def blocker_on_mutation_def split_beta page_inv_debounce page_inv_blocker_observing)

lemma page_inv_refresh_ads: "page_inv p \<Longrightarrow> page_inv (refresh_ads p)"
  by (cases "blocker p") (simp_all add: refresh_ads_def split_beta page_inv_debounce)

lemma page_inv_add_ad_selector: "page_inv p \<Longrightarrow> page_inv (add_ad_selector v p)"
proof -
  assume inv: "page_inv p"
  have "page_inv (p\<lparr>blocker := Some (fst (blocker_add s b (world p))), world := snd (blocker_add s b (world p))\<rparr>)"
    if "blocker p = Some b" for s b
  proof (rule page_inv_set_blocker [OF inv that])
    have "frames_inv b (world p)" "bl_observing b" "distinct (selectors b)" "dom_wf (world p)"
      using inv that by (simp_all add: page_inv_def)
    then show "frames_inv (fst (blocker_add s b (world p))) (snd (blocker_add s b (world p)))"
      "bl_observing (fst (blocker_add s b (world p)))" "distinct (selectors (fst (blocker_add s b (world p))))"
      "dom_wf (snd (blocker_add s b (world p)))"
      by (simp_all add: frames_inv_blocker_add blocker_add_selectors)
  qed simp_all
  with inv show ?thesis
    by (cases v; cases "blocker p") (simp_all add: add_ad_selector_def split_beta)
qed

lemma page_inv_on_loaded:
  assumes inv: "page_inv p"
  shows "page_inv (on_loaded r1 r2 p)"
proof (cases "api p")
  case True
  with inv show ?thesis by (simp add: on_loaded_def)
next
  case False
  with inv have sb: "scaler p = None" "blocker p = None" by (simp_all add: page_inv_def)
  with inv have pre: "timers (world p) = []" "frames (world p) = []"
    "count_list (console (world p)) ScalingEnabled = 0" "dom_wf (world p)" "timers_wf (world p)"
    by (simp_all add: page_inv_def)
  let ?b = "fst (blocker_new AD_SELECTORS (world p))" and ?w = "snd (blocker_new AD_SELECTORS (world p))"
  have "timers_wf ?w" using pre by (simp add: timers_wf_def)
  moreover have "frames_inv ?b ?w" using pre by (simp add: blocker_new_frames_inv)
  ultimately show ?thesis using False sb pre
    by (simp add: on_loaded_def split_beta page_inv_def scaler_new_def timers_owned_def)
qed

lemma page_inv_notify_mutation: "page_inv p \<Longrightarrow> page_inv (notify_mutation p)"
  by (simp add: notify_mutation_def page_inv_notify_scaler page_inv_notify_blocker)

lemma page_inv_insert: "page_inv p \<Longrightarrow> page_inv (notify_mutation (p\<lparr>world := insert_node i e (world p)\<rparr>))"
proof -
  assume inv: "page_inv p"
  then have "dom_wf (world p)" by (simp add: page_inv_def)
  then show ?thesis
    by (rule page_inv_notify_mutation [OF page_inv_mutate_dom [OF inv dom_wf_insert_node insert_remove_node_elems(1)]])
qed

lemma page_inv_remove: "page_inv p \<Longrightarrow> page_inv (notify_mutation (p\<lparr>world := remove_node k (world p)\<rparr>))"
proof -
  assume inv: "page_inv p"
  then have "dom_wf (world p)" by (simp add: page_inv_def)
  then show ?thesis
    by (rule page_inv_notify_mutation [OF page_inv_mutate_dom [OF inv dom_wf_remove_node insert_remove_node_elems(2)]])
qed

lemma page_inv_scaler_parts:
  "page_inv p \<Longrightarrow> scaler p = Some s \<Longrightarrow>
   timers_owned s (world p) \<and> listening s = (\<not> observing s) \<and>
   count_list (console (world p)) ScalingEnabled = (if observing s then 0 else 1)"
  by (simp add: page_inv_def)

lemma page_inv_on_resize:
  assumes inv: "page_inv p"
  shows "page_inv (on_resize cw ch p)"
proof -
  let ?w1 = "(world p)\<lparr>client_w := cw, client_h := ch\<rparr>"
  have inv1: "page_inv (p\<lparr>world := ?w1\<rparr>)"
    using inv by (rule page_inv_sched_same) (simp add: sched_same_def)
  show ?thesis
  proof (cases "scaler p")
    case None
    with inv1 show ?thesis by (simp add: on_resize_def)
  next
    case (Some s)
    show ?thesis
    proof (cases "listening s")
      case False
      then have "on_resize cw ch p = p\<lparr>world := ?w1\<rparr>"
        using Some by (cases p) (simp add: on_resize_def scaler_on_resize_def)
      with inv1 show ?thesis by simp
    next
      case True
      let ?s' = "fst (scaler_on_resize s ?w1)" and ?w' = "snd (scaler_on_resize s ?w1)"
      have parts: "timers_owned s ?w1" "listening s = (\<not> observing s)"
        "count_list (console ?w1) ScalingEnabled = (if observing s then 0 else 1)"
        using page_inv_scaler_parts [OF inv1] Some by simp_all
      have shape: "?s' = s\<lparr>resize_timer := Some (next_timer ?w1)\<rparr>"
        "timers ?w' = [(next_timer ?w1, now ?w1 + resize_delay (config s), ApplyScale)]"
        "next_timer ?w' = Suc (next_timer ?w1)"
        using scaler_on_resize_listening [OF True parts(1)] by (simp_all add: clear_timeout_def split: option.split)
      have "timers_wf ?w'" using shape by (simp add: timers_wf_def)
      moreover have "timers_owned ?s' ?w'" using shape by (simp add: timers_owned_def)
      moreover have fr: "frames_inv b ?w' = frames_inv b ?w1" for b by (rule inv_parts_cong(3)) simp_all
      moreover have "dom_wf ?w'" using inv by (simp add: page_inv_def)
      moreover have "case blocker p of None \<Rightarrow> frames ?w' = [] | Some b \<Rightarrow> frames_inv b ?w'"
        using inv1 by (cases "blocker p") (simp_all add: page_inv_def fr)
      moreover have "listening ?s' = (\<not> observing ?s')" "count_list (console ?w') ScalingEnabled = (if observing ?s' then 0 else 1)"
        using parts shape by simp_all
      ultimately have "page_inv (p\<lparr>world := ?w1, scaler := Some ?s', world := ?w'\<rparr>)"
        by (intro page_inv_set_scaler [OF inv1]) (simp_all add: Some)
      then show ?thesis using Some by (simp add: on_resize_def split_beta)
    qed
  qed
qed

lemma page_inv_elapse:
  assumes inv: "page_inv p"
  shows "page_inv (elapse c d p)"
proof -
  let ?t = "now (world p) + d"
  let ?p1 = "p\<lparr>world := (world p)\<lparr>now := ?t, timers := filter (\<lambda>(_, e, _). ?t < e) (timers (world p))\<rparr>\<rparr>"
  have "page_inv ?p1"
    using inv by (cases "scaler p"; cases "blocker p")
      (auto simp: page_inv_def timers_wf_def timers_owned_def frames_inv_def distinct_map_filter)
  then show ?thesis by (simp add: elapse_def Let_def page_inv_fold_run_task)
qed

lemma page_inv_frame:
  assumes inv: "page_inv p"
  shows "page_inv (frame c p)"
proof -
  have "page_inv (p\<lparr>world := (world p)\<lparr>frames := []\<rparr>\<rparr>)"
    using inv by (cases "scaler p"; cases "blocker p")
      (simp_all add: page_inv_def timers_wf_def timers_owned_def frames_inv_def)
  then show ?thesis by (simp add: frame_def Let_def page_inv_fold_run_task)
qed

lemma page_inv_step: "page_inv p \<Longrightarrow> page_inv (page_step c p e)"
  by (cases e) (simp_all add: page_inv_on_loaded page_inv_insert page_inv_remove page_inv_on_resize
      page_inv_elapse page_inv_frame page_inv_add_ad_selector page_inv_refresh_ads)

lemma reachable_page_inv: "reachable c p0 p \<Longrightarrow> page_inv p0 \<Longrightarrow> page_inv p"
  by (induction rule: reachable.induct) (simp_all add: page_inv_step)

lemma reachable_page_run: "reachable c p0 p \<Longrightarrow> reachable c p0 (page_run c p es)"
  by (induction es arbitrary: p) (simp_all add: reach_step)

lemma page_inv_new_page:
  "dom_wf w \<Longrightarrow> timers w = [] \<Longrightarrow> frames w = [] \<Longrightarrow> ScalingEnabled \<notin> set (console w) \<Longrightarrow>
   page_inv (new_page w env)"
  by (simp add: page_inv_def new_page_def timers_wf_def count_list_0_iff)


text \<open>
  C6.  At most one pending unit of work per controller: in every page reachable
  from a fresh document by any sequence of events, the document keeps distinct
  keys, at most one timer is pending (the scaler's debounce), at most one scan is
  pending (the blocker's frame), and \<open>ScalingEnabled\<close> has been logged at most once.
\<close>

theorem reachable_pending_work:
  assumes "reachable c (new_page w env) p"
    and "dom_wf w" and "timers w = []" and "frames w = []" and "ScalingEnabled \<notin> set (console w)"
  shows "dom_wf (world p) \<and> length (timers (world p)) \<le> 1 \<and> length (pending_scans (world p)) \<le> 1 \<and>
         count_list (console (world p)) ScalingEnabled \<le> 1"
proof -
  have inv: "page_inv p"
    using assms(1) page_inv_new_page [OF assms(2-5)] by (rule reachable_page_inv)
  then have "dom_wf (world p)" "distinct (map fst (timers (world p)))" by (simp_all add: page_inv_def timers_wf_def)
  moreover have "length (timers (world p)) \<le> 1 \<and> count_list (console (world p)) ScalingEnabled \<le> 1"
  proof (cases "scaler p")
    case (Some s)
    with inv have own: "timers_owned s (world p)" and "count_list (console (world p)) ScalingEnabled \<le> 1"
      by (simp_all add: page_inv_def)
    moreover have "length (timers (world p)) \<le> 1"
      using own \<open>distinct (map fst (timers (world p)))\<close> by (rule timers_owned_at_most_one)
    ultimately show ?thesis by simp
  qed (use inv in \<open>simp add: page_inv_def\<close>)
  moreover have "length (pending_scans (world p)) \<le> 1"
  proof (cases "blocker p")
    case (Some b)
    with inv have "frames_inv b (world p)" by (simp add: page_inv_def)
    then show ?thesis by (rule frames_inv_at_most_one)
  qed (use inv in \<open>simp add: page_inv_def pending_scans_def\<close>)
  ultimately show ?thesis by simp
qed

theorem reachable_pending_work_witness:
  "dom_wf (world (page_run c0_css (fresh_page 1000 540)
      [DOMContentLoaded 0 0, Insert 0 app_container, Resize 960 540, RefreshAds, Insert 1 new_ad])) \<and>
   length (timers (world (page_run c0_css (fresh_page 1000 540)
      [DOMContentLoaded 0 0, Insert 0 app_container, Resize 960 540, RefreshAds, Insert 1 new_ad]))) \<le> 1 \<and>
   length (pending_scans (world (page_run c0_css (fresh_page 1000 540)
      [DOMContentLoaded 0 0, Insert 0 app_container, Resize 960 540, RefreshAds, Insert 1 new_ad]))) \<le> 1 \<and>
   count_list (console (world (page_run c0_css (fresh_page 1000 540)
      [DOMContentLoaded 0 0, Insert 0 app_container, Resize 960 540, RefreshAds, Insert 1 new_ad]))) ScalingEnabled \<le> 1"
proof -
  have "reachable c0_css (fresh_page 1000 540) (page_run c0_css (fresh_page 1000 540)
      [DOMContentLoaded 0 0, Insert 0 app_container, Resize 960 540, RefreshAds, Insert 1 new_ad])"
    by (rule reachable_page_run [OF reach_start])
  then show ?thesis unfolding fresh_page_def
    by (rule reachable_pending_work) (simp_all add: new_world_def dom_wf_def keys_def)
qed

end
