(* ===== verification/UriEncode.thy ===== *)
theory UriEncode
  imports Prelude
begin

text \<open>
  The string machinery behind the error page of \<open>src/main.js\<close> (\<open>showErrorPage\<close>,
  lines 259--321): the page is loaded as a \<open>data:\<close> URL whose body is
  \<open>encodeURIComponent(html)\<close>.  This theory models, from ECMA-262 and the URL,
  Fetch and Encoding standards, the builtins on either side of that URL:
  \<^item> a JavaScript string as its UTF-16 code units (\<open>js_string\<close>; URLs too,
    so that \<open>%\<close>, \<open>#\<close> and \<open>,\<close> are the numbers 37, 35 and 44), read as code
    points, where a lone surrogate is the \<open>URIError\<close> of \<open>encodeURIComponent\<close>;
  \<^item> \<open>encodeURIComponent\<close>: unreserved ASCII kept, every other code point
    written as the \<open>%XX\<close> escapes of its UTF-8 bytes;
  \<^item> the browser's side: percent-decoding of the URL body, UTF-8 decoding of the
    bytes (with U+FFFD for malformed input) and the split of a \<open>data:\<close> URL at
    its first comma, before the fragment.
  The lemmas show that decoding undoes encoding for every well-formed string.
\<close>

type_synonym js_string = "nat list"

datatype uri_error = URIError

definition js_str :: "string \<Rightarrow> js_string" where
  "js_str s = map of_char s"

section \<open>UTF-16 code units to code points\<close>

definition is_lead :: "nat \<Rightarrow> bool" where
  "is_lead c \<longleftrightarrow> 0xD800 \<le> c \<and> c \<le> 0xDBFF"

definition is_trail :: "nat \<Rightarrow> bool" where
  "is_trail c \<longleftrightarrow> 0xDC00 \<le> c \<and> c \<le> 0xDFFF"

definition prepend_ok :: "'a \<Rightarrow> 'e + 'a list \<Rightarrow> 'e + 'a list" where
  "prepend_ok x r = (case r of Inl e \<Rightarrow> Inl e | Inr xs \<Rightarrow> Inr (x # xs))"

text \<open>\<open>CodePointAt\<close> (ECMA-262, 11.1.4) from left to right; \<open>Encode\<close> (19.2.6.5)
  throws \<open>URIError\<close> on an unpaired surrogate.\<close>

fun utf16_decode :: "js_string \<Rightarrow> uri_error + nat list" where
  "utf16_decode [] = Inr []"
| "utf16_decode [c] = (if is_lead c \<or> is_trail c then Inl URIError else Inr [c])"
| "utf16_decode (c # d # ds) =
     (if is_lead c then
        (if is_trail d then prepend_ok (0x10000 + (c - 0xD800) * 0x400 + (d - 0xDC00)) (utf16_decode ds)
         else Inl URIError)
      else if is_trail c then Inl URIError
      else prepend_ok c (utf16_decode (d # ds)))"

section \<open>encodeURIComponent\<close>

definition unreserved :: "nat \<Rightarrow> bool" where
  "unreserved c \<longleftrightarrow>
     (of_char CHR ''A'' \<le> c \<and> c \<le> of_char CHR ''Z'') \<or> (of_char CHR ''a'' \<le> c \<and> c \<le> of_char CHR ''z'') \<or>
     (of_char CHR ''0'' \<le> c \<and> c \<le> of_char CHR ''9'') \<or> c \<in> set (js_str ''-_.!~*'()'')"

definition utf8_encode :: "nat \<Rightarrow> nat list" where
  "utf8_encode cp =
     (if cp < 0x80 then [cp]
      else if cp < 0x800 then [0xC0 + cp div 64, 0x80 + cp mod 64]
      else if cp < 0x10000 then [0xE0 + cp div 4096, 0x80 + cp div 64 mod 64, 0x80 + cp mod 64]
      else [0xF0 + cp div 262144, 0x80 + cp div 4096 mod 64, 0x80 + cp div 64 mod 64, 0x80 + cp mod 64])"

text \<open>An upper-case hex digit, as a code unit.\<close>

definition hex_digit :: "nat \<Rightarrow> nat" where
  "hex_digit n = (if n < 10 then 48 + n else 55 + n)"

definition pct_octet :: "nat \<Rightarrow> js_string" where
  "pct_octet b = [37, hex_digit (b div 16), hex_digit (b mod 16)]"

definition enc_cp :: "nat \<Rightarrow> js_string" where
  "enc_cp cp = (if unreserved cp then [cp] else concat (map pct_octet (utf8_encode cp)))"

definition encode_uri_component :: "js_string \<Rightarrow> uri_error + js_string" where
  "encode_uri_component s =
     (case utf16_decode s of Inl e \<Rightarrow> Inl e | Inr cps \<Rightarrow> Inr (concat (map enc_cp cps)))"

section \<open>The browser side: percent-decoding and UTF-8 decoding\<close>

definition hex_val :: "nat \<Rightarrow> nat option" where
  "hex_val n =
     (if 48 \<le> n \<and> n \<le> 57 then Some (n - 48)
      else if 65 \<le> n \<and> n \<le> 70 then Some (n - 55)
      else if 97 \<le> n \<and> n \<le> 102 then Some (n - 87)
      else None)"

text \<open>Percent-decode of the URL standard: \<open>%\<close> and two hex digits is one byte,
  any other code unit its own byte (the URL holds ASCII only).\<close>

fun percent_decode :: "js_string \<Rightarrow> nat list" where
  "percent_decode (c # h1 # h2 # cs) =
     (case (c = 37, hex_val h1, hex_val h2) of
        (True, Some a, Some b) \<Rightarrow> (a * 16 + b) # percent_decode cs
      | _ \<Rightarrow> c # percent_decode (h1 # h2 # cs))"
| "percent_decode cs = cs"

definition is_cont :: "nat \<Rightarrow> bool" where
  "is_cont b \<longleftrightarrow> 0x80 \<le> b \<and> b \<le> 0xBF"

text \<open>The number of continuation bytes a lead byte announces, and the bounds the
  Encoding standard puts on the first continuation byte (no overlong form, no
  surrogate, nothing above U+10FFFF).\<close>

definition utf8_need :: "nat \<Rightarrow> (nat \<times> nat \<times> nat) option" where
  "utf8_need b =
     (if 0xC2 \<le> b \<and> b \<le> 0xDF then Some (1, 0x80, 0xBF)
      else if b = 0xE0 then Some (2, 0xA0, 0xBF)
      else if 0xE1 \<le> b \<and> b \<le> 0xEC then Some (2, 0x80, 0xBF)
      else if b = 0xED then Some (2, 0x80, 0x9F)
      else if 0xEE \<le> b \<and> b \<le> 0xEF then Some (2, 0x80, 0xBF)
      else if b = 0xF0 then Some (3, 0x90, 0xBF)
      else if 0xF1 \<le> b \<and> b \<le> 0xF3 then Some (3, 0x80, 0xBF)
      else if b = 0xF4 then Some (3, 0x80, 0x8F)
      else None)"

definition utf8_value :: "nat \<Rightarrow> nat list \<Rightarrow> nat" where
  "utf8_value b cs =
     fold (\<lambda>c v. v * 64 + (c - 0x80)) cs
       (if b < 0xE0 then b - 0xC0 else if b < 0xF0 then b - 0xE0 else b - 0xF0)"

function utf8_decode :: "nat list \<Rightarrow> nat list" where
  "utf8_decode [] = []"
| "utf8_decode (b # bs) =
     (if b < 0x80 then b # utf8_decode bs
      else (case utf8_need b of
              None \<Rightarrow> 0xFFFD # utf8_decode bs
            | Some (n, lo, hi) \<Rightarrow>
                (if n \<le> length bs \<and> lo \<le> hd bs \<and> hd bs \<le> hi \<and> list_all is_cont (take n bs)
                 then utf8_value b (take n bs) # utf8_decode (drop n bs)
                 else 0xFFFD # utf8_decode bs)))"
  by pat_completeness auto
termination
  by (relation "measure length") auto

text \<open>A \<open>data:\<close> URL: the fragment is cut at the first \<open>#\<close>, the media type runs
  to the first comma, the body after it is percent-decoded.\<close>

definition data_url_body :: "js_string \<Rightarrow> (js_string \<times> nat list) option" where
  "data_url_body u =
     (if take 5 u = js_str ''data:'' then
        (let v = takeWhile (\<lambda>c. c \<noteq> 35) (drop 5 u) in
         if 44 \<in> set v then
           Some (takeWhile (\<lambda>c. c \<noteq> 44) v, percent_decode (tl (dropWhile (\<lambda>c. c \<noteq> 44) v)))
         else None)
      else None)"

text \<open>The text of a \<open>text/html;charset=utf-8\<close> document loaded from a URL.\<close>

definition html_text :: "js_string \<Rightarrow> nat list option" where
  "html_text u =
     (case data_url_body u of
        Some (mt, bytes) \<Rightarrow> if mt = js_str ''text/html;charset=utf-8'' then Some (utf8_decode bytes) else None
      | None \<Rightarrow> None)"

section \<open>Well-formedness\<close>

text \<open>Code units are 16-bit; a code point is at most U+10FFFF and no surrogate.\<close>

definition js_wf :: "js_string \<Rightarrow> bool" where
  "js_wf s \<longleftrightarrow> list_all (\<lambda>c. c < 0x10000) s"

definition no_surrogate :: "nat \<Rightarrow> bool" where
  "no_surrogate c \<longleftrightarrow> \<not> is_lead c \<and> \<not> is_trail c"

definition valid_cp :: "nat \<Rightarrow> bool" where
  "valid_cp c \<longleftrightarrow> c \<le> 0x10FFFF \<and> \<not> (0xD800 \<le> c \<and> c \<le> 0xDFFF)"

section \<open>UTF-8 decoding undoes UTF-8 encoding\<close>

lemma utf8_decode_2:
  "2 \<le> a \<Longrightarrow> a \<le> 31 \<Longrightarrow> b < 64 \<Longrightarrow>
   utf8_decode ([192 + a, 128 + b] @ rest) = (a * 64 + b) # utf8_decode rest"
  by (simp add: utf8_need_def utf8_value_def is_cont_def)

lemma utf8_decode_3:
  "a \<le> 15 \<Longrightarrow> b < 64 \<Longrightarrow> c < 64 \<Longrightarrow> (a = 0 \<longrightarrow> 32 \<le> b) \<Longrightarrow> (a = 13 \<longrightarrow> b < 32) \<Longrightarrow>
   utf8_decode ([224 + a, 128 + b, 128 + c] @ rest) = ((a * 64 + b) * 64 + c) # utf8_decode rest"
  by (simp add: utf8_need_def utf8_value_def is_cont_def) auto

lemma utf8_decode_4:
  "a \<le> 4 \<Longrightarrow> b < 64 \<Longrightarrow> c < 64 \<Longrightarrow> d < 64 \<Longrightarrow> (a = 0 \<longrightarrow> 16 \<le> b) \<Longrightarrow> (a = 4 \<longrightarrow> b < 16) \<Longrightarrow>
   utf8_decode ([240 + a, 128 + b, 128 + c, 128 + d] @ rest) = (((a * 64 + b) * 64 + c) * 64 + d) # utf8_decode rest"
  by (simp add: utf8_need_def utf8_value_def is_cont_def) auto

lemma div64: "n = 64 * (n div 64) + n mod 64" "n mod 64 < (64::nat)"
  by simp_all

lemma div64_twice: "n div 4096 = n div 64 div (64::nat)" "n div 262144 = n div 64 div 64 div (64::nat)"
  by (simp_all add: div_mult2_eq [symmetric])

lemma utf8_decode_encode:
  assumes "valid_cp cp"
  shows "utf8_decode (utf8_encode cp @ rest) = cp # utf8_decode rest"
proof -
  have v: "cp \<le> 1114111" "\<not> (55296 \<le> cp \<and> cp \<le> 57343)" using assms by (simp_all add: valid_cp_def)
  define q where "q = cp div 64"
  define r where "r = cp mod 64"
  define a where "a = q div 64"
  define b where "b = q mod 64"
  define x where "x = a div 64"
  define y where "y = a mod 64"
  have e: "cp = 64 * q + r" "r < 64" "q = 64 * a + b" "b < 64" "a = 64 * x + y" "y < 64"
    unfolding q_def r_def a_def b_def x_def y_def by (simp_all only: div64)
  have l: "cp = 4096 * a + 64 * b + r" "cp = 262144 * x + 4096 * y + 64 * b + r"
    using e by simp_all
  have d: "cp div 64 = q" "cp mod 64 = r" "cp div 4096 = a" "cp div 64 mod 64 = b"
    "cp div 262144 = x" "cp div 4096 mod 64 = y"
    unfolding q_def r_def a_def b_def x_def y_def div64_twice by simp_all
  consider "cp < 128" | "128 \<le> cp" "cp < 2048" | "2048 \<le> cp" "cp < 65536" | "65536 \<le> cp"
    by linarith
  then show ?thesis
  proof cases
    case 1 then show ?thesis by (simp add: utf8_encode_def)
  next
    case 2
    have h: "2 \<le> q" "q \<le> 31" "q * 64 + r = cp" using 2 e by linarith+
    have "utf8_encode cp = [192 + q, 128 + r]" using 2 by (simp add: utf8_encode_def d)
    then show ?thesis using utf8_decode_2 [OF h(1,2) e(2), of rest] by (simp only: h(3))
  next
    case 3
    have h: "a \<le> 15" "a = 0 \<longrightarrow> 32 \<le> b" "a = 13 \<longrightarrow> b < 32"
      using 3 v e l by linarith+
    have i: "(a * 64 + b) * 64 + r = cp" using l(1) by (simp add: algebra_simps)
    have "utf8_encode cp = [224 + a, 128 + b, 128 + r]" using 3 by (simp add: utf8_encode_def d b_def)
    then show ?thesis using utf8_decode_3 [OF h(1) e(4) e(2) h(2,3), of rest] by (simp only: i)
  next
    case 4
    have h: "x \<le> 4" "x = 0 \<longrightarrow> 16 \<le> y" "x = 4 \<longrightarrow> y < 16"
      using 4 v e l by linarith+
    have i: "((x * 64 + y) * 64 + b) * 64 + r = cp" using l(2) by (simp add: algebra_simps)
    have "utf8_encode cp = [240 + x, 128 + y, 128 + b, 128 + r]" using 4 by (simp add: utf8_encode_def d b_def y_def)
    then show ?thesis using utf8_decode_4 [OF h(1) e(6) e(4) e(2) h(2,3), of rest] by (simp only: i)
  qed
qed


lemma hex_val_digit: "n < 16 \<Longrightarrow> hex_val (hex_digit n) = Some n"
  by (simp add: hex_val_def hex_digit_def)

lemma percent_decode_plain: "c \<noteq> 37 \<Longrightarrow> percent_decode (c # rest) = c # percent_decode rest"
proof (cases rest)
  case (Cons d ds)
  then show "c \<noteq> 37 \<Longrightarrow> ?thesis" by (cases ds) simp_all
qed simp

lemma percent_decode_pcts:
  "list_all (\<lambda>b. b < 256) bs \<Longrightarrow> percent_decode (concat (map pct_octet bs) @ rest) = bs @ percent_decode rest"
proof (induction bs)
  case (Cons b bs)
  then have "b div 16 < 16" "b mod 16 < 16" by (simp_all add: div_less_iff_less_mult)
  with Cons show ?case by (simp add: pct_octet_def hex_val_digit)
qed simp

lemma utf8_encode_bytes: "valid_cp cp \<Longrightarrow> list_all (\<lambda>b. b < 256) (utf8_encode cp)"
  by (auto simp: utf8_encode_def valid_cp_def div_less_iff_less_mult)

lemma unreserved_ascii: "unreserved c \<Longrightarrow> c < 128 \<and> c \<noteq> 37 \<and> c \<noteq> 35 \<and> c \<noteq> 44"
  by (auto simp: unreserved_def js_str_def)

lemma percent_decode_enc:
  "valid_cp cp \<Longrightarrow> percent_decode (enc_cp cp @ rest) = utf8_encode cp @ percent_decode rest"
proof (cases "unreserved cp")
  case True
  then show ?thesis by (simp add: enc_cp_def unreserved_ascii percent_decode_plain utf8_encode_def)
next
  case False
  assume "valid_cp cp"
  with False show ?thesis by (simp add: enc_cp_def percent_decode_pcts utf8_encode_bytes)
qed

lemma encoded_roundtrip:
  "list_all valid_cp cps \<Longrightarrow> utf8_decode (percent_decode (concat (map enc_cp cps))) = cps"
proof -
  assume v: "list_all valid_cp cps"
  have "percent_decode (concat (map enc_cp cps)) = concat (map utf8_encode cps)"
    using v by (induction cps) (simp_all add: percent_decode_enc)
  moreover have "utf8_decode (concat (map utf8_encode cps)) = cps"
    using v by (induction cps) (simp_all add: utf8_decode_encode)
  ultimately show ?thesis by simp
qed

lemma enc_cp_url_safe: "list_all (\<lambda>c. c \<noteq> 35 \<and> c \<noteq> 44) (enc_cp cp)"
proof (cases "unreserved cp")
  case False
  have "list_all (\<lambda>c. c \<noteq> 35 \<and> c \<noteq> 44) (pct_octet b)" for b
    by (simp add: pct_octet_def hex_digit_def)
  with False show ?thesis by (simp add: enc_cp_def list_all_iff)
qed (simp add: enc_cp_def unreserved_ascii)

lemma utf16_decode_valid:
  "list_all (\<lambda>c. c < 0x10000) s \<Longrightarrow> utf16_decode s = Inr cps \<Longrightarrow> list_all valid_cp cps"
proof (induction s arbitrary: cps rule: utf16_decode.induct)
  case (2 c)
  then show ?case by (auto simp: valid_cp_def is_lead_def is_trail_def split: if_splits)
next
  case (3 c d ds)
  then show ?case
    by (auto simp: valid_cp_def is_lead_def is_trail_def prepend_ok_def split: if_splits sum.splits)
qed simp

section \<open>Decoding code units\<close>

lemma prepend_ok_simps [simp]:
  "prepend_ok x (Inl e) = Inl e" "prepend_ok x (Inr xs) = Inr (x # xs)"
  by (simp_all add: prepend_ok_def)

lemma utf16_decode_append:
  "utf16_decode xs = Inr a \<Longrightarrow>
   utf16_decode (xs @ ys) = (case utf16_decode ys of Inl e \<Rightarrow> Inl e | Inr b \<Rightarrow> Inr (a @ b))"
proof (induction xs arbitrary: a rule: utf16_decode.induct)
  case 1
  then show ?case by (simp split: sum.split)
next
  case (2 c)
  then show ?case by (cases ys) (auto simp: prepend_ok_def split: if_splits sum.split)
next
  case (3 c d ds)
  then show ?case by (auto simp: prepend_ok_def split: if_splits sum.splits)
qed

lemma utf16_decode_bmp:
  "list_all no_surrogate s \<Longrightarrow> utf16_decode s = Inr s"
  by (induction s rule: utf16_decode.induct) (simp_all add: no_surrogate_def)

lemma js_str_bmp: "list_all no_surrogate (js_str s)"
proof -
  have "no_surrogate (of_char c)" for c :: char
  proof -
    have "of_char c < (0xD800::nat)" by (rule less_trans [OF nat_of_char_less_256]) simp
    then show ?thesis by (simp add: no_surrogate_def is_lead_def is_trail_def)
  qed
  then show ?thesis by (simp add: js_str_def list_all_iff)
qed

lemma js_str_wf [simp]: "js_wf (js_str s)"
proof -
  have "of_char c < (0x10000::nat)" for c :: char by (rule less_trans [OF nat_of_char_less_256]) simp
  then show ?thesis by (simp add: js_wf_def js_str_def list_all_iff)
qed

lemma js_wf_simps [simp]:
  "js_wf []" "js_wf (x # xs) \<longleftrightarrow> x < 0x10000 \<and> js_wf xs" "js_wf (xs @ ys) \<longleftrightarrow> js_wf xs \<and> js_wf ys"
  by (simp_all add: js_wf_def)

lemma utf16_decode_Cons_plain:
  "no_surrogate c \<Longrightarrow> utf16_decode (c # s) = prepend_ok c (utf16_decode s)"
  by (cases s) (simp_all add: no_surrogate_def)

lemma utf16_decode_empty: "utf16_decode s = Inr cs \<Longrightarrow> (s = []) = (cs = [])"
  by (cases s rule: utf16_decode.cases) (auto split: if_splits sum.splits simp: prepend_ok_def)

lemma utf16_decode_lone_trail:
  "list_all no_surrogate pre \<Longrightarrow> is_trail c \<Longrightarrow> utf16_decode (pre @ c # rest) = Inl URIError"
proof (induction pre)
  case Nil
  then have "\<not> is_lead c" by (simp add: is_lead_def is_trail_def)
  with Nil show ?case by (cases rest) simp_all
next
  case (Cons x xs)
  then show ?case by (cases xs) (simp_all add: no_surrogate_def)
qed

section \<open>The data URL\<close>

lemma data_url_html_text:
  assumes "list_all (\<lambda>c. c \<noteq> 35 \<and> c \<noteq> 44) e"
  shows "html_text (js_str ''data:text/html;charset=utf-8,'' @ e) = Some (utf8_decode (percent_decode e))"
proof -
  have t1: "takeWhile (\<lambda>c. c \<noteq> 35) e = e" using assms by (simp add: list_all_iff)
  have t2: "takeWhile (\<lambda>c. c \<noteq> 44) e = e" using assms by (simp add: list_all_iff)
  show ?thesis by (simp add: html_text_def data_url_body_def js_str_def t1 t2)
qed

lemma encode_uri_component_roundtrip:
  assumes "js_wf s" and "utf16_decode s = Inr cps"
  shows "\<exists>e. encode_uri_component s = Inr e \<and> list_all (\<lambda>c. c \<noteq> 35 \<and> c \<noteq> 44) e \<and>
             utf8_decode (percent_decode e) = cps"
proof -
  have "list_all valid_cp cps" using assms utf16_decode_valid by (simp add: js_wf_def)
  then show ?thesis using assms(2)
    by (simp add: encode_uri_component_def encoded_roundtrip list_all_iff enc_cp_url_safe [unfolded list_all_iff])
qed

end
