(* ===== verification/ErrorPage.thy ===== *)
theory ErrorPage
  imports UriEncode
begin

text \<open>
  \<open>showErrorPage(message, retryUrl = '')\<close> of \<open>src/main.js\<close> (lines 259--321): the
  HTML of the error page, a template literal with the message and the retry
  button's \<open>onclick\<close> spliced in, loaded as
  \<open>data:text/html;charset=utf-8,${encodeURIComponent(html)}\<close>.  The template is
  transcribed code unit by code unit (the non-ASCII characters of the heading and
  the button labels as their code points).  The lemmas show that the browser
  displays exactly the page built, and that a message with an unpaired surrogate
  makes \<open>encodeURIComponent\<close> throw before anything is loaded.
\<close>

text \<open>The template up to \<open>${message}\<close> (lines 260--310).\<close>

definition error_tpl_head :: js_string where
  \<open>error_tpl_head =
     [10] @
     js_str ''      <!DOCTYPE html>'' @
     [10] @
     js_str ''      <html>'' @
     [10] @
     js_str ''        <head>'' @
     [10] @
     js_str ''          <meta charset="utf-8">'' @
     [10] @
     js_str ''          <style>'' @
     [10] @
     js_str ''            body {'' @
     [10] @
     js_str ''              font-family: -apple-system, BlinkMacSystemFont, 'Segoe UI', sans-serif;'' @
     [10] @
     js_str ''              display: flex;'' @
     [10] @
     js_str ''              justify-content: center;'' @
     [10] @
     js_str ''              align-items: center;'' @
     [10] @
     js_str ''              height: 100vh;'' @
     [10] @
     js_str ''              margin: 0;'' @
     [10] @
     js_str ''              background: linear-gradient(135deg, #667eea 0%, #764ba2 100%);'' @
     [10] @
     js_str ''              color: white;'' @
     [10] @
     js_str ''            }'' @
     [10] @
     js_str ''            .error-container {'' @
     [10] @
     js_str ''              text-align: center;'' @
     [10] @
     js_str ''              padding: 40px;'' @
     [10] @
     js_str ''              background: rgba(255, 255, 255, 0.1);'' @
     [10] @
     js_str ''              border-radius: 10px;'' @
     [10] @
     js_str ''              backdrop-filter: blur(10px);'' @
     [10] @
     js_str ''            }'' @
     [10] @
     js_str ''            h1 {'' @
     [10] @
     js_str ''              margin: 0 0 20px;'' @
     [10] @
     js_str ''              font-size: 2.5em;'' @
     [10] @
     js_str ''            }'' @
     [10] @
     js_str ''            p {'' @
     [10] @
     js_str ''              margin: 0 0 30px;'' @
     [10] @
     js_str ''              opacity: 0.9;'' @
     [10] @
     js_str ''            }'' @
     [10] @
     js_str ''            button {'' @
     [10] @
     js_str ''              padding: 12px 30px;'' @
     [10] @
     js_str ''              margin: 0 10px;'' @
     [10] @
     js_str ''              border: none;'' @
     [10] @
     js_str ''              border-radius: 5px;'' @
     [10] @
     js_str ''              background: white;'' @
     [10] @
     js_str ''              color: #764ba2;'' @
     [10] @
     js_str ''              font-size: 16px;'' @
     [10] @
     js_str ''              cursor: pointer;'' @
     [10] @
     js_str ''              transition: transform 0.2s;'' @
     [10] @
     js_str ''            }'' @
     [10] @
     js_str ''            button:hover {'' @
     [10] @
     js_str ''              transform: scale(1.05);'' @
     [10] @
     js_str ''            }'' @
     [10] @
     js_str ''          </style>'' @
     [10] @
     js_str ''        </head>'' @
     [10] @
     js_str ''        <body>'' @
     [10] @
     js_str ''          <div class="error-container">'' @
     [10] @
     js_str ''            <h1>'' @
     [0x26A0, 0xFE0F] @
     js_str '' '' @
     [0x52A0, 0x8F7D, 0x5931, 0x8D25] @
     js_str ''</h1>'' @
     [10] @
     js_str ''            <p>''\<close>

text \<open>Between the message and the \<open>onclick\<close> value (lines 310--311).\<close>

definition error_tpl_mid :: js_string where
  \<open>error_tpl_mid =
     js_str ''</p>'' @
     [10] @
     js_str ''            <button onclick="''\<close>

text \<open>After the \<open>onclick\<close> value, to the closing backquote (lines 311--316).\<close>

definition error_tpl_tail :: js_string where
  \<open>error_tpl_tail =
     js_str ''">'' @
     [0x91CD, 0x8BD5] @
     js_str ''</button>'' @
     [10] @
     js_str ''            <button onclick="history.back()">'' @
     [0x8FD4, 0x56DE] @
     js_str ''</button>'' @
     [10] @
     js_str ''          </div>'' @
     [10] @
     js_str ''        </body>'' @
     [10] @
     js_str ''      </html>'' @
     [10] @
     js_str ''    ''\<close>

text \<open>\<open>retryUrl ? `location.href='${retryUrl}'` : 'location.reload()'\<close>: a
  string is truthy when it is not empty.\<close>

definition retry_onclick :: "js_string \<Rightarrow> js_string" where
  "retry_onclick r = (if r \<noteq> [] then js_str ''location.href='' @ [39] @ r @ [39] else js_str ''location.reload()'')"

definition error_html :: "js_string \<Rightarrow> js_string \<Rightarrow> js_string" where
  "error_html msg retry = error_tpl_head @ msg @ error_tpl_mid @ retry_onclick retry @ error_tpl_tail"

text \<open>The URL passed to \<open>loadURL\<close> (lines 318--319), or the \<open>URIError\<close> thrown
  while computing it.\<close>

definition error_page_url :: "js_string \<Rightarrow> uri_error + js_string" where
  "error_page_url html =
     (case encode_uri_component html of
        Inl e \<Rightarrow> Inl e
      | Inr enc \<Rightarrow> Inr (js_str ''data:text/html;charset=utf-8,'' @ enc))"

lemma error_tpl_plain:
  "list_all no_surrogate error_tpl_head" "list_all no_surrogate error_tpl_mid" "list_all no_surrogate error_tpl_tail"
  "js_wf error_tpl_head" "js_wf error_tpl_mid" "js_wf error_tpl_tail"
  by (simp_all add: error_tpl_head_def error_tpl_mid_def error_tpl_tail_def js_str_bmp
      no_surrogate_def is_lead_def is_trail_def)

lemma retry_onclick_decode:
  assumes "utf16_decode r = Inr r'"
  shows "utf16_decode (retry_onclick r) = Inr (retry_onclick r')"
proof -
  have "(r = []) = (r' = [])" using assms by (rule utf16_decode_empty)
  moreover have "utf16_decode (js_str ''location.href='' @ [39] @ r @ [39]) =
      Inr (js_str ''location.href='' @ [39] @ r' @ [39])"
  proof -
    have "no_surrogate 39" by (simp add: no_surrogate_def is_lead_def is_trail_def)
    moreover have "utf16_decode [39] = Inr [39]" by (simp add: is_lead_def is_trail_def)
    ultimately show ?thesis
      using assms by (simp add: utf16_decode_append utf16_decode_bmp js_str_bmp utf16_decode_Cons_plain)
  qed
  ultimately show ?thesis by (simp add: retry_onclick_def utf16_decode_bmp js_str_bmp)
qed

lemma error_html_decode:
  assumes "utf16_decode msg = Inr m" and "utf16_decode retry = Inr r"
  shows "utf16_decode (error_html msg retry) = Inr (error_html m r)"
  using assms retry_onclick_decode [OF assms(2)]
  by (simp add: error_html_def utf16_decode_append utf16_decode_bmp error_tpl_plain)

lemma error_html_wf: "js_wf msg \<Longrightarrow> js_wf retry \<Longrightarrow> js_wf (error_html msg retry)"
  by (simp add: error_html_def retry_onclick_def error_tpl_plain)

text \<open>
  C25.  The error page round-trips: for a well-formed message and retry URL,
  \<open>showErrorPage\<close> produces its \<open>data:\<close> URL without throwing, and the document
  the browser decodes from that URL is exactly the page's HTML, with the
  message and the retry target as their code points.
\<close>

theorem error_page_shows_html:
  assumes "js_wf msg" and "js_wf retry" and "utf16_decode msg = Inr m" and "utf16_decode retry = Inr r"
  shows "\<exists>u. error_page_url (error_html msg retry) = Inr u \<and> html_text u = Some (error_html m r)"
proof -
  obtain e where "encode_uri_component (error_html msg retry) = Inr e"
      and safe: "list_all (\<lambda>c. c \<noteq> 35 \<and> c \<noteq> 44) e" and dec: "utf8_decode (percent_decode e) = error_html m r"
    using encode_uri_component_roundtrip [OF error_html_wf [OF assms(1,2)] error_html_decode [OF assms(3,4)]]
    by blast
  then show ?thesis by (simp add: error_page_url_def data_url_html_text [OF safe] dec)
qed

lemma error_page_shows_html_witness:
  "\<exists>u. error_page_url (error_html (js_str ''Load timeout'') (js_str ''https://google.com/'')) = Inr u \<and>
       html_text u = Some (error_html (js_str ''Load timeout'') (js_str ''https://google.com/''))"
  by (rule error_page_shows_html) (simp_all add: utf16_decode_bmp js_str_bmp)



end
