(* ===== verification/MainWindow.thy ===== *)
theory MainWindow
  imports ErrorPage "HOL-Library.AList"
begin

text \<open>
  The class \<open>MainWindow\<close> of \<open>src/main.js\<close> (lines 41--337) and the parts of
  Electron it drives.  The main process is one state \<open>mstate\<close>: the fields of the
  \<open>MainWindow\<close> instance (\<open>window\<close>, \<open>isQuitting\<close>), Electron's open windows with
  their navigation history, the pending \<open>loadPage\<close> races, the queue of promise
  reactions still to run, the clock, and a log of the effects the user sees
  (dialogs, reloads, the clipboard, \<open>app.quit()\<close>).  Every handler is a function
  from this state to a new state, or to the exception it throws
  (\<open>js_exn + mstate\<close>).  A handler reaches the page through \<open>this.wc\<close>, that is
  \<open>this.window?.webContents\<close>: the window the instance refers to now, not the one
  that emitted the event.
\<close>

section \<open>Configuration (lines 11--36)\<close>

record web_prefs =
  affinity :: js_string
  context_isolation :: bool
  background_throttling :: bool
  web_security :: bool
  autoplay_policy :: js_string
  node_integration :: bool
  sandbox :: bool
  webview_tag :: bool
  preload :: "js_string option"

record window_config =
  wc_width :: nat
  wc_height :: nat
  min_width :: nat
  min_height :: nat
  wc_show :: bool
  background_color :: js_string
  web_preferences :: web_prefs

definition CONFIG_WINDOW :: window_config where
  "CONFIG_WINDOW =
     \<lparr>wc_width = 1200, wc_height = 600, min_width = 400, min_height = 300, wc_show = False,
      background_color = js_str ''#000'',
      web_preferences = \<lparr>affinity = js_str ''window2'', context_isolation = True,
        background_throttling = False, web_security = True,
        autoplay_policy = js_str ''no-user-gesture-required'', node_integration = False,
        sandbox = True, webview_tag = False, preload = None\<rparr>\<rparr>"

definition TARGET_URL :: js_string where
  "TARGET_URL = js_str ''https://google.com/''"


definition LOAD_TIMEOUT :: nat where
  "LOAD_TIMEOUT = 60000"

definition ERR_ABORTED :: int where
  "ERR_ABORTED = -3"

section \<open>Electron's side\<close>

text \<open>
  A navigation history (\<open>webContents.navigationHistory\<close>): the entries and the
  index of the current one.  \<open>loadURL\<close> drops the forward entries and appends.
\<close>

record nav_hist =
  entries :: "js_string list"
  idx :: nat

definition can_go_back :: "nav_hist \<Rightarrow> bool" where
  "can_go_back h \<longleftrightarrow> 0 < idx h"

definition can_go_forward :: "nav_hist \<Rightarrow> bool" where
  "can_go_forward h \<longleftrightarrow> Suc (idx h) < length (entries h)"

definition go_back :: "nav_hist \<Rightarrow> nav_hist" where
  "go_back h = (if can_go_back h then h\<lparr>idx := idx h - 1\<rparr> else h)"

definition go_forward :: "nav_hist \<Rightarrow> nav_hist" where
  "go_forward h = (if can_go_forward h then h\<lparr>idx := Suc (idx h)\<rparr> else h)"

definition nav_load :: "js_string \<Rightarrow> nav_hist \<Rightarrow> nav_hist" where
  "nav_load u h =
     (if entries h = [] then \<lparr>entries = [u], idx = 0\<rparr>
      else \<lparr>entries = take (Suc (idx h)) (entries h) @ [u], idx = Suc (idx h)\<rparr>)"


text \<open>A \<open>BrowserWindow\<close> with its \<open>webContents\<close>.\<close>

record bwin =
  win_id :: nat
  visible :: bool
  hist :: nav_hist
  devtools :: bool
  prefs :: web_prefs

datatype platform = Darwin | Win32 | Linux

datatype effect =
    Reloaded nat
  | DevToolsOpened nat
  | DevToolsToggled nat
  | ClipboardWrite js_string
  | CopySelection nat
  | PasteInto nat
  | CutFrom nat
  | InspectAt nat int int
  | MenuShown nat
  | CrashDialog
  | HangDialog
  | ErrorBox js_string js_string
  | UserDataSet js_string
  | SwitchAppended js_string js_string
  | AppMenuCleared
  | AppQuit

text \<open>
  What a handler can throw: a \<open>TypeError\<close> when it calls a method through a
  \<open>null\<close> \<open>this.window\<close>, the \<open>URIError\<close> of \<open>encodeURIComponent\<close>.
\<close>

datatype js_exn = TypeError | URIErr

datatype init_state = InitIdle | InitPending js_string | InitDone

record mstate =
  window :: "nat option"
  is_quitting :: bool
  wins :: "bwin list"
  next_win :: nat
  platform :: platform
  dev_mode :: bool
  clock :: nat
  races :: "(nat \<times> nat) list"
  reactions :: "js_string list"
  init :: init_state
  app_dir :: js_string
  quit :: bool
  effects :: "effect list"

definition log_effect :: "effect \<Rightarrow> mstate \<Rightarrow> mstate" where
  "log_effect e st = st\<lparr>effects := effects st @ [e]\<rparr>"

definition find_win :: "nat \<Rightarrow> mstate \<Rightarrow> bwin option" where
  "find_win i st = find (\<lambda>w. win_id w = i) (wins st)"

definition map_win :: "nat \<Rightarrow> (bwin \<Rightarrow> bwin) \<Rightarrow> mstate \<Rightarrow> mstate" where
  "map_win i f st = st\<lparr>wins := map (\<lambda>w. if win_id w = i then f w else w) (wins st)\<rparr>"

text \<open>
  A navigation of window \<open>i\<close> started from the main process.  It interrupts the
  pending \<open>loadPage\<close> load of that window, if any: Electron rejects that
  \<open>loadURL\<close> promise with \<open>ERR_ABORTED\<close>, and the rejection's reaction (the
  \<open>catch\<close> of \<open>loadPage\<close>) is queued.
\<close>

definition abort_message :: js_string where
  "abort_message = js_str ''ERR_ABORTED (-3) loading '' @ [39] @ TARGET_URL @ [39]"

definition interrupt_load :: "nat \<Rightarrow> mstate \<Rightarrow> mstate" where
  "interrupt_load i st =
     (if i \<in> fst ` set (races st)
      then st\<lparr>races := filter (\<lambda>(j, _). j \<noteq> i) (races st), reactions := reactions st @ [abort_message]\<rparr>
      else st)"

definition load_url :: "nat \<Rightarrow> js_string \<Rightarrow> mstate \<Rightarrow> mstate" where
  "load_url i u st = interrupt_load i (map_win i (\<lambda>w. w\<lparr>hist := nav_load u (hist w)\<rparr>) st)"

definition reload :: "nat \<Rightarrow> mstate \<Rightarrow> mstate" where
  "reload i st = interrupt_load i (log_effect (Reloaded i) st)"

text \<open>\<open>this.wc\<close> and a call through it: a \<open>TypeError\<close> when \<open>this.window\<close> is \<open>null\<close>.\<close>

definition with_wc :: "(nat \<Rightarrow> mstate \<Rightarrow> mstate) \<Rightarrow> mstate \<Rightarrow> js_exn + mstate" where
  "with_wc f st = (case window st of None \<Rightarrow> Inl TypeError | Some i \<Rightarrow> Inr (f i st))"

definition cur_hist :: "mstate \<Rightarrow> nav_hist option" where
  "cur_hist st = (case window st of None \<Rightarrow> None | Some i \<Rightarrow> map_option hist (find_win i st))"

text \<open>What the window invariant reads of a state: the open windows' ids,
  \<open>this.window\<close>, and how far start-up got.\<close>

definition shape :: "mstate \<Rightarrow> nat list \<times> nat option \<times> init_state" where
  "shape st = (map win_id (wins st), window st, init st)"

definition keeps_shape :: "mstate \<Rightarrow> js_exn + mstate \<Rightarrow> bool" where
  "keeps_shape st r = (case r of Inl _ \<Rightarrow> True | Inr st' \<Rightarrow> shape st' = shape st)"

text \<open>A step that neither moves the clock nor starts a load race.\<close>

definition races_sub :: "mstate \<Rightarrow> mstate \<Rightarrow> bool" where
  "races_sub st st' \<longleftrightarrow> clock st' = clock st \<and> set (races st') \<subseteq> set (races st)"

definition keeps_races :: "mstate \<Rightarrow> js_exn + mstate \<Rightarrow> bool" where
  "keeps_races st r = (case r of Inl _ \<Rightarrow> True | Inr st' \<Rightarrow> races_sub st st')"

section \<open>The methods of MainWindow\<close>

text \<open>\<open>setQuitting(value)\<close>, \<open>show()\<close>, \<open>exists()\<close> (lines 326--336).\<close>

definition set_quitting :: "bool \<Rightarrow> mstate \<Rightarrow> mstate" where
  "set_quitting v st = st\<lparr>is_quitting := v\<rparr>"

definition mw_show :: "mstate \<Rightarrow> mstate" where
  "mw_show st = (case window st of None \<Rightarrow> st | Some i \<Rightarrow> map_win i (\<lambda>w. w\<lparr>visible := True\<rparr>) st)"

definition mw_exists :: "mstate \<Rightarrow> bool" where
  "mw_exists st \<longleftrightarrow> window st \<noteq> None"

text \<open>
  \<open>app.quit()\<close>: Electron emits \<open>before-quit\<close>, whose listener (line 359) is
  \<open>setQuitting(true)\<close>, then closes every window; no \<open>close\<close> listener prevents
  it once \<open>isQuitting\<close> holds, and each \<open>closed\<close> listener sets \<open>this.window\<close>
  to \<open>null\<close>.  \<open>window-all-closed\<close> is not emitted while quitting.
\<close>

definition app_quit :: "mstate \<Rightarrow> mstate" where
  "app_quit st =
     log_effect AppQuit ((set_quitting True st)\<lparr>wins := [], window := None, races := [], quit := True\<rparr>)"

text \<open>
  \<open>loadPage()\<close> (lines 202--214): \<open>this.window.loadURL(TARGET_URL)\<close> raced against a
  timer of \<open>LOAD_TIMEOUT\<close> ms; the race is recorded with its deadline.  Its
  \<open>catch\<close> is \<open>on_load_rejected\<close> below.
\<close>

definition load_page :: "mstate \<Rightarrow> mstate" where
  "load_page st =
     (case window st of
        None \<Rightarrow> st
      | Some i \<Rightarrow> (let st1 = load_url i TARGET_URL st
                   in st1\<lparr>races := races st1 @ [(i, clock st + LOAD_TIMEOUT)]\<rparr>))"

text \<open>
  \<open>create()\<close> (lines 50--68): a hidden window with the configured preferences
  and the preload script, the listeners of \<open>setupWebContents\<close> and
  \<open>setupEventHandlers\<close> (the cases of the event loop), \<open>loadPage()\<close>, and in
  development the developer tools.
\<close>

definition create :: "mstate \<Rightarrow> mstate" where
  "create st =
     (let i = next_win st;
          w = \<lparr>win_id = i, visible = wc_show CONFIG_WINDOW, hist = \<lparr>entries = [], idx = 0\<rparr>, devtools = False,
               prefs = (web_preferences CONFIG_WINDOW)\<lparr>preload := Some (app_dir st @ js_str ''/preload.js'')\<rparr>\<rparr>;
          st1 = load_page (st\<lparr>window := Some i, wins := wins st @ [w], next_win := Suc i\<rparr>)
      in if dev_mode st1 then map_win i (\<lambda>w. w\<lparr>devtools := True\<rparr>) (log_effect (DevToolsOpened i) st1) else st1)"

text \<open>
  \<open>showErrorPage(message, retryUrl)\<close> (lines 259--321).  \<open>this.wc.loadURL\<close> is
  looked up before its argument is evaluated, so a \<open>null\<close> window throws
  \<open>TypeError\<close> before \<open>encodeURIComponent\<close> can throw \<open>URIError\<close>.
\<close>

definition show_error_page :: "js_string \<Rightarrow> js_string \<Rightarrow> mstate \<Rightarrow> js_exn + mstate" where
  "show_error_page msg retry st =
     (case window st of
        None \<Rightarrow> Inl TypeError
      | Some i \<Rightarrow> (case error_page_url (error_html msg retry) of
                     Inl _ \<Rightarrow> Inl URIErr
                   | Inr u \<Rightarrow> Inr (load_url i u st)))"

text \<open>The \<open>catch\<close> of \<open>loadPage\<close>: \<open>showErrorPage(err.message, CONFIG.TARGET_URL)\<close>.\<close>

definition on_load_rejected :: "js_string \<Rightarrow> mstate \<Rightarrow> js_exn + mstate" where
  "on_load_rejected msg st = show_error_page msg TARGET_URL st"

text \<open>\<open>navigate(direction)\<close> (lines 140--150): the result is whether it moved.\<close>

datatype direction = Forward | Back

definition navigate :: "direction \<Rightarrow> mstate \<Rightarrow> js_exn + (bool \<times> mstate)" where
  "navigate d st =
     (case window st of
        None \<Rightarrow> Inl TypeError
      | Some i \<Rightarrow>
          (case find_win i st of
             None \<Rightarrow> Inl TypeError
           | Some w \<Rightarrow>
               (if (if d = Forward then can_go_forward (hist w) else can_go_back (hist w))
                then Inr (True, interrupt_load i
                                  (map_win i (\<lambda>w. w\<lparr>hist := (if d = Forward then go_forward else go_back) (hist w)\<rparr>) st))
                else Inr (False, st))))"

section \<open>Keyboard shortcuts (lines 100--121)\<close>

record key_input =
  in_type :: js_string
  control :: bool
  meta :: bool
  in_key :: js_string

text \<open>\<open>toLowerCase()\<close> on the ASCII letters (key values of the keys in the map are
  ASCII), and \<open>replace(' ', '')\<close>, which replaces the first space only.\<close>

definition js_lower :: "js_string \<Rightarrow> js_string" where
  "js_lower s = map (\<lambda>c. if 65 \<le> c \<and> c \<le> 90 then c + 32 else c) s"

fun replace_first :: "nat \<Rightarrow> js_string \<Rightarrow> js_string \<Rightarrow> js_string" where
  "replace_first x r [] = []"
| "replace_first x r (c # cs) = (if c = x then r @ cs else c # replace_first x r cs)"

definition normalize_key :: "js_string \<Rightarrow> js_string" where
  "normalize_key k = replace_first 32 [] (js_lower k)"

datatype key_action = KReload | KForward | KBack | KDevtools

definition key_map :: "js_string \<Rightarrow> key_action option" where
  "key_map k =
     (if k = js_str ''r'' then Some KReload
      else if k = js_str ''arrowright'' then Some KForward
      else if k = js_str ''arrowleft'' then Some KBack
      else if k = js_str ''i'' then Some KDevtools
      else None)"

text \<open>An action and its truthiness: \<open>this.wc.reload()\<close> returns \<open>undefined\<close>.\<close>

definition run_key_action :: "key_action \<Rightarrow> mstate \<Rightarrow> js_exn + (bool \<times> mstate)" where
  "run_key_action a st =
     (case a of
        KReload \<Rightarrow> (case with_wc reload st of Inl e \<Rightarrow> Inl e | Inr st' \<Rightarrow> Inr (False, st'))
      | KForward \<Rightarrow> navigate Forward st
      | KBack \<Rightarrow> navigate Back st
      | KDevtools \<Rightarrow>
          (if dev_mode st then
             (case with_wc (\<lambda>i st. map_win i (\<lambda>w. w\<lparr>devtools := \<not> devtools w\<rparr>) (log_effect (DevToolsToggled i) st)) st of
                Inl e \<Rightarrow> Inl e | Inr st' \<Rightarrow> Inr (True, st'))
           else Inr (False, st)))"

text \<open>The \<open>before-input-event\<close> listener: the result says whether it called
  \<open>event.preventDefault()\<close>.\<close>

definition before_input :: "key_input \<Rightarrow> mstate \<Rightarrow> js_exn + (bool \<times> mstate)" where
  "before_input inp st =
     (if in_type inp = js_str ''keyDown'' \<and> (control inp \<or> meta inp) then
        (case key_map (normalize_key (in_key inp)) of
           None \<Rightarrow> Inr (False, st)
         | Some a \<Rightarrow> run_key_action a st)
      else Inr (False, st))"

section \<open>The context menu (lines 155--197)\<close>

record ctx_params =
  link_url :: js_string
  selection_text :: js_string
  px :: int
  py :: int

text \<open>The items, in order, with whether each is enabled; the labels (Refresh,
  Forward, Back, Copy, Paste, Cut, Inspect element) are named by the command.\<close>

datatype menu_cmd = CmdReload | CmdForward | CmdBack | CmdCopy | CmdPaste | CmdCut | CmdInspect

datatype menu_entry = Item menu_cmd bool | Separator

definition context_menu :: "nav_hist \<Rightarrow> ctx_params \<Rightarrow> menu_entry list" where
  "context_menu h p =
     [Item CmdReload True, Separator,
      Item CmdForward (can_go_forward h), Item CmdBack (can_go_back h), Separator,
      Item CmdCopy (link_url p \<noteq> [] \<or> selection_text p \<noteq> []),
      Item CmdPaste True, Item CmdCut True, Separator,
      Item CmdInspect True]"

definition show_context_menu :: "ctx_params \<Rightarrow> mstate \<Rightarrow> js_exn + (menu_entry list \<times> mstate)" where
  "show_context_menu p st =
     (case window st of
        None \<Rightarrow> Inl TypeError
      | Some i \<Rightarrow> (case find_win i st of
                     None \<Rightarrow> Inl TypeError
                   | Some w \<Rightarrow> Inr (context_menu (hist w) p, log_effect (MenuShown i) st)))"

text \<open>The \<open>click\<close> of an item (or its \<open>role\<close>).  Electron calls it only for an
  enabled item; \<open>nav.goForward()\<close> and \<open>nav.goBack()\<close> act on the history the
  menu was built from.\<close>

definition menu_click :: "menu_cmd \<Rightarrow> ctx_params \<Rightarrow> mstate \<Rightarrow> js_exn + mstate" where
  "menu_click c p st =
     (case c of
        CmdReload \<Rightarrow> with_wc reload st
      | CmdForward \<Rightarrow> with_wc (\<lambda>i. interrupt_load i \<circ> map_win i (\<lambda>w. w\<lparr>hist := go_forward (hist w)\<rparr>)) st
      | CmdBack \<Rightarrow> with_wc (\<lambda>i. interrupt_load i \<circ> map_win i (\<lambda>w. w\<lparr>hist := go_back (hist w)\<rparr>)) st
      | CmdCopy \<Rightarrow> (if link_url p \<noteq> [] then Inr (log_effect (ClipboardWrite (link_url p)) st)
                   else with_wc (\<lambda>i. log_effect (CopySelection i)) st)
      | CmdPaste \<Rightarrow> with_wc (\<lambda>i. log_effect (PasteInto i)) st
      | CmdCut \<Rightarrow> with_wc (\<lambda>i. log_effect (CutFrom i)) st
      | CmdInspect \<Rightarrow> with_wc (\<lambda>i. log_effect (InspectAt i (px p) (py p))) st)"

section \<open>Error handlers (lines 219--254)\<close>

text \<open>\<open>handleCrash(_, details)\<close>: only the reason \<open>'crashed'\<close> asks; button 0
  reloads, any other answer quits.\<close>

definition handle_crash :: "js_string \<Rightarrow> nat \<Rightarrow> mstate \<Rightarrow> js_exn + mstate" where
  "handle_crash reason choice st =
     (if reason \<noteq> js_str ''crashed'' then Inr st
      else (let st1 = log_effect CrashDialog st in
            if choice = 0 then with_wc reload st1 else Inr (app_quit st1)))"

definition handle_unresponsive :: "nat \<Rightarrow> mstate \<Rightarrow> js_exn + mstate" where
  "handle_unresponsive choice st =
     (let st1 = log_effect HangDialog st in if choice = 1 then with_wc reload st1 else Inr st1)"

text \<open>\<open>handleLoadError(_, errorCode, errorDescription)\<close>: the listener of
  \<open>did-fail-load\<close> gets neither the URL nor whether the main frame failed.\<close>

definition handle_load_error :: "int \<Rightarrow> js_string \<Rightarrow> mstate \<Rightarrow> js_exn + mstate" where
  "handle_load_error code desc st = (if code = ERR_ABORTED then Inr st else show_error_page desc [] st)"

section \<open>Window listeners (lines 78--94, 125--134)\<close>


text \<open>\<open>setWindowOpenHandler\<close>: a URL starting with \<open>http\<close> is loaded in
  \<open>this.window\<close>; the answer is always \<open>deny\<close> (no window is opened).\<close>

datatype open_action = Deny | Allow

definition window_open :: "js_string \<Rightarrow> mstate \<Rightarrow> js_exn + (open_action \<times> mstate)" where
  "window_open u st =
     (if take 4 u = js_str ''http'' then
        (case with_wc (\<lambda>i. load_url i u) st of Inl e \<Rightarrow> Inl e | Inr st' \<Rightarrow> Inr (Deny, st'))
      else Inr (Deny, st))"

text \<open>The \<open>close\<close> listener: on macOS, unless quitting, cancel and hide
  \<open>this.window\<close>.  The result says whether the close was prevented.\<close>

definition on_close :: "mstate \<Rightarrow> js_exn + (bool \<times> mstate)" where
  "on_close st =
     (if \<not> is_quitting st \<and> platform st = Darwin then
        (case with_wc (\<lambda>i. map_win i (\<lambda>w. w\<lparr>visible := False\<rparr>)) st of
           Inl e \<Rightarrow> Inl e | Inr st' \<Rightarrow> Inr (True, st'))
      else Inr (False, st))"

definition on_closed :: "mstate \<Rightarrow> mstate" where
  "on_closed st = st\<lparr>window := None\<rparr>"

section \<open>An example state\<close>

text \<open>One visible window, id 1, still loading \<open>TARGET_URL\<close> (its \<open>loadPage\<close>
  race pending, due at 60000 ms).\<close>

definition demo_win :: bwin where
  "demo_win = \<lparr>win_id = 1, visible = True, hist = \<lparr>entries = [TARGET_URL], idx = 0\<rparr>, devtools = False,
               prefs = web_preferences CONFIG_WINDOW\<rparr>"

definition demo_st :: mstate where
  "demo_st = \<lparr>window = Some 1, is_quitting = False, wins = [demo_win], next_win = 2, platform = Linux,
              dev_mode = False, clock = 0, races = [(1, LOAD_TIMEOUT)], reactions = [], init = InitDone,
              app_dir = [], quit = False, effects = []\<rparr>"

section \<open>Frame lemmas\<close>

lemma shape_simps [simp]:
  "shape (log_effect e st) = shape st"
  "shape (map_win i f st) = shape st \<longleftrightarrow> map (\<lambda>w. win_id (if win_id w = i then f w else w)) (wins st) = map win_id (wins st)"
  "shape (interrupt_load i st) = shape st"
  "shape (st\<lparr>races := rs\<rparr>) = shape st" "shape (st\<lparr>reactions := ms\<rparr>) = shape st"
  "shape (st\<lparr>clock := t\<rparr>) = shape st"
  by (simp_all add: shape_def log_effect_def map_win_def interrupt_load_def)

lemma shape_map_win [simp]: "(\<And>w. win_id (f w) = win_id w) \<Longrightarrow> shape (map_win i f st) = shape st"
  by (simp add: shape_def map_win_def comp_def)

lemma shape_ops [simp]:
  "shape (load_url i u st) = shape st" "shape (reload i st) = shape st"
  by (simp_all add: load_url_def reload_def)

lemma keeps_shape_sum [simp]: "keeps_shape st (Inl e)" "keeps_shape st (Inr st') \<longleftrightarrow> shape st' = shape st"
  by (simp_all add: keeps_shape_def)

lemma keeps_shape_with_wc [simp]:
  "(\<And>i st. shape (f i st) = shape st) \<Longrightarrow> shape st' = shape st \<Longrightarrow> keeps_shape st (with_wc f st')"
  by (simp add: keeps_shape_def with_wc_def split: option.split)

lemma keeps_shape_show_error_page [simp]: "keeps_shape st (show_error_page m r st)"
  by (simp add: keeps_shape_def show_error_page_def split: option.split sum.split)

lemma keeps_shape_handlers [simp]:
  "keeps_shape st (handle_load_error c d st)" "keeps_shape st (handle_unresponsive ch st)"
  "keeps_shape st (on_load_rejected m st)"
  by (simp_all add: handle_load_error_def handle_unresponsive_def on_load_rejected_def Let_def)

lemma keeps_shape_menu_click [simp]: "keeps_shape st (menu_click c p st)"
  by (cases c) (simp_all add: menu_click_def keeps_shape_def with_wc_def split: option.split)

lemma shape_navigate: "navigate d st = Inr (b, st') \<Longrightarrow> shape st' = shape st"
  by (auto simp: navigate_def split: option.splits if_splits)

lemma shape_before_input: "before_input inp st = Inr (b, st') \<Longrightarrow> shape st' = shape st"
  by (auto simp: before_input_def run_key_action_def with_wc_def shape_navigate
      split: option.splits if_splits key_action.splits sum.splits)

lemma shape_show_context_menu: "show_context_menu p st = Inr (m, st') \<Longrightarrow> shape st' = shape st"
  by (auto simp: show_context_menu_def split: option.splits)

lemma shape_window_open: "window_open u st = Inr (a, st') \<Longrightarrow> shape st' = shape st \<and> a = Deny"
  by (auto simp: window_open_def with_wc_def split: if_splits option.splits sum.splits)

lemma shape_on_close: "on_close st = Inr (b, st') \<Longrightarrow> shape st' = shape st"
  by (auto simp: on_close_def with_wc_def split: if_splits option.splits sum.splits)

lemma races_sub_refl [simp]: "races_sub st st"
  by (simp add: races_sub_def)

lemma races_sub_trans: "races_sub a b \<Longrightarrow> races_sub b c \<Longrightarrow> races_sub a c"
  by (auto simp: races_sub_def)

lemma races_sub_ops [simp]:
  "races_sub st x \<Longrightarrow> races_sub st (log_effect e x)" "races_sub st x \<Longrightarrow> races_sub st (map_win i f x)"
  "races_sub st x \<Longrightarrow> races_sub st (interrupt_load i x)" "races_sub st x \<Longrightarrow> races_sub st (load_url i u x)"
  "races_sub st x \<Longrightarrow> races_sub st (reload i x)" "races_sub st x \<Longrightarrow> races_sub st (x\<lparr>reactions := ms\<rparr>)"
  by (auto simp: races_sub_def log_effect_def map_win_def interrupt_load_def load_url_def reload_def)

lemma keeps_races_sum [simp]: "keeps_races st (Inl e)" "keeps_races st (Inr st') \<longleftrightarrow> races_sub st st'"
  by (simp_all add: keeps_races_def)

lemma keeps_races_with_wc [simp]:
  "(\<And>i st. races_sub st (f i st)) \<Longrightarrow> races_sub st st' \<Longrightarrow> keeps_races st (with_wc f st')"
  by (auto simp: keeps_races_def with_wc_def intro: races_sub_trans split: option.split)

lemma keeps_races_handlers [simp]:
  "keeps_races st (show_error_page m r st)" "keeps_races st (handle_load_error c d st)"
  "keeps_races st (handle_unresponsive ch st)" "keeps_races st (on_load_rejected m st)"
  "keeps_races st (menu_click cmd p st)"
  by (simp_all add: show_error_page_def handle_load_error_def handle_unresponsive_def on_load_rejected_def Let_def
      split: option.split sum.split, cases cmd, simp_all add: menu_click_def comp_def)

lemma races_sub_results:
  "navigate d st = Inr (b, st') \<Longrightarrow> races_sub st st'"
  "before_input inp st = Inr (b, st') \<Longrightarrow> races_sub st st'"
  "show_context_menu p st = Inr (m, st') \<Longrightarrow> races_sub st st'"
  "window_open u st = Inr (a, st') \<Longrightarrow> races_sub st st'"
  "on_close st = Inr (b, st') \<Longrightarrow> races_sub st st'"
  by (auto simp: navigate_def before_input_def run_key_action_def show_context_menu_def window_open_def on_close_def
      with_wc_def split: option.splits if_splits key_action.splits sum.splits)

section \<open>Properties of the handlers\<close>

lemma find_win_single: "map win_id (wins st) = [i] \<Longrightarrow> \<exists>w. wins st = [w] \<and> win_id w = i \<and> find_win i st = Some w"
  by (cases "wins st") (auto simp: find_win_def)

text \<open>
  C27.  \<open>Ctrl+R\<close> (or \<open>Cmd+R\<close>, any case of \<open>r\<close>) reloads the page but does not
  cancel the key event: the action \<open>() => this.wc.reload()\<close> returns
  \<open>undefined\<close>, so \<open>action && action()\<close> is falsy and \<open>preventDefault()\<close> is never
  called; the keystroke also reaches the page.
\<close>

theorem ctrl_r_reloads_unprevented:
  assumes "window st = Some i" and "normalize_key k = js_str ''r''" and "c \<or> m"
  shows "before_input \<lparr>in_type = js_str ''keyDown'', control = c, meta = m, in_key = k\<rparr> st = Inr (False, reload i st)"
  using assms by (simp add: before_input_def key_map_def run_key_action_def with_wc_def)

lemma ctrl_r_reloads_unprevented_witness:
  "before_input \<lparr>in_type = js_str ''keyDown'', control = True, meta = False, in_key = js_str ''R''\<rparr> demo_st =
     Inr (False, reload 1 demo_st)"
  by (rule ctrl_r_reloads_unprevented) (simp_all add: demo_st_def normalize_key_def js_lower_def js_str_def)

text \<open>
  C28.  \<open>Ctrl+ArrowRight\<close> goes forward exactly when the history can, and the
  event is cancelled exactly then; otherwise nothing changes.
\<close>

theorem ctrl_arrow_forward:
  assumes "window st = Some i" and "find_win i st = Some w" and "c \<or> m"
  shows "before_input \<lparr>in_type = js_str ''keyDown'', control = c, meta = m, in_key = js_str ''ArrowRight''\<rparr> st =
           Inr (can_go_forward (hist w),
                if can_go_forward (hist w)
                then interrupt_load i (map_win i (\<lambda>w. w\<lparr>hist := go_forward (hist w)\<rparr>) st) else st)"
  using assms by (simp add: before_input_def key_map_def run_key_action_def navigate_def normalize_key_def
      js_lower_def js_str_def)

lemma ctrl_arrow_forward_witness:
  "before_input \<lparr>in_type = js_str ''keyDown'', control = False, meta = True, in_key = js_str ''ArrowRight''\<rparr> demo_st =
     Inr (False, demo_st)"
proof -
  have "window demo_st = Some 1" "find_win 1 demo_st = Some demo_win" by (simp_all add: demo_st_def find_win_def demo_win_def)
  from ctrl_arrow_forward [OF this, of False True] show ?thesis by (simp add: can_go_forward_def demo_win_def)
qed




text \<open>
  C29.  The window-open handler never opens a window: the answer is \<open>deny\<close>,
  the set of windows is unchanged, and a URL not starting with \<open>http\<close> changes
  nothing at all.
\<close>

theorem window_open_denies:
  assumes "window_open u st = Inr (a, st')"
  shows "a = Deny \<and> map win_id (wins st') = map win_id (wins st) \<and> (take 4 u \<noteq> js_str ''http'' \<longrightarrow> st' = st)"
  using assms shape_window_open [OF assms] by (auto simp: shape_def window_open_def)

lemma window_open_denies_witness:
  "window_open (js_str ''file:///etc/passwd'') demo_st = Inr (Deny, demo_st)"
proof -
  have "window_open (js_str ''file:///etc/passwd'') demo_st = Inr (Deny, demo_st)" by (simp add: window_open_def js_str_def)
  with window_open_denies [OF this] show ?thesis by simp
qed

text \<open>
  C24.  \<open>handleLoadError\<close> ignores \<open>ERR_ABORTED\<close>; for any other code it loads the
  error page with the description and no retry URL, whose button therefore runs
  \<open>location.reload()\<close>: it reloads the error page's own \<open>data:\<close> URL, not the page
  that failed.
\<close>

theorem handle_load_error_page:
  assumes "window st = Some i" and "js_wf desc" and "utf16_decode desc = Inr d"
  shows "(code = ERR_ABORTED \<longrightarrow> handle_load_error code desc st = Inr st) \<and>
         (code \<noteq> ERR_ABORTED \<longrightarrow> (\<exists>u. handle_load_error code desc st = Inr (load_url i u st) \<and>
              html_text u = Some (error_html d []) \<and> retry_onclick [] = js_str ''location.reload()''))"
proof -
  have "utf16_decode [] = Inr []" by simp
  from error_page_shows_html [OF assms(2) _ assms(3) this] obtain u
    where "error_page_url (error_html desc []) = Inr u" "html_text u = Some (error_html d [])" by auto
  with assms(1) show ?thesis
    by (auto simp: handle_load_error_def show_error_page_def retry_onclick_def)
qed

lemma handle_load_error_page_witness:
  "\<exists>u. handle_load_error (-105) (js_str ''net::ERR_NAME_NOT_RESOLVED'') demo_st = Inr (load_url 1 u demo_st) \<and>
       html_text u = Some (error_html (js_str ''net::ERR_NAME_NOT_RESOLVED'') []) \<and>
       retry_onclick [] = js_str ''location.reload()''"
proof -
  have "window demo_st = Some 1" "js_wf (js_str ''net::ERR_NAME_NOT_RESOLVED'')"
    "utf16_decode (js_str ''net::ERR_NAME_NOT_RESOLVED'') = Inr (js_str ''net::ERR_NAME_NOT_RESOLVED'')"
    by (simp_all add: demo_st_def utf16_decode_bmp js_str_bmp)
  from handle_load_error_page [OF this, of "-105"] show ?thesis by (simp add: ERR_ABORTED_def)
qed

end
