(* ===== verification/Application.thy ===== *)
theory Application
  imports MainWindow
begin

text \<open>
  The class \<open>Application\<close> of \<open>src/main.js\<close> (lines 342--406) and the main
  process as an event loop: \<open>mstep\<close> delivers one event (an app event, a window
  event, a timer, or one queued promise reaction) to the listeners the code
  registered, and \<open>mreach\<close> is the set of states reachable from start-up.  A
  listener that throws reaches \<open>process.on('uncaughtException')\<close> (an error box);
  a rejected promise nobody handles reaches \<open>unhandledRejection\<close> (the console
  only).
\<close>

section \<open>Paths (Node's \<open>path\<close>, POSIX, already normalised input)\<close>

definition path_join :: "js_string \<Rightarrow> js_string \<Rightarrow> js_string" where
  "path_join a b = a @ [47] @ b"

definition path_dirname :: "js_string \<Rightarrow> js_string" where
  "path_dirname p =
     (if 47 \<in> set p then
        (let d = rev (tl (dropWhile (\<lambda>c. c \<noteq> 47) (rev p))) in if d = [] then [47] else d)
      else js_str ''.'')"

section \<open>Start-up (lines 343--357, 386--405)\<close>

text \<open>The constructor: a fresh \<open>MainWindow\<close> (\<open>window = null\<close>, \<open>isQuitting =
  false\<close>), then \<open>setupApp()\<close>: three command-line switches, no application menu.\<close>

definition setup_app :: "mstate \<Rightarrow> mstate" where
  "setup_app st =
     log_effect AppMenuCleared
      (log_effect (SwitchAppended (js_str ''disable-features'') (js_str ''OutOfBlinkCors''))
        (log_effect (SwitchAppended (js_str ''disable-site-isolation-trials'') [])
          (log_effect (SwitchAppended (js_str ''js-flags'') (js_str ''--max-old-space-size=4096'')) st)))"

definition boot :: "platform \<Rightarrow> bool \<Rightarrow> js_string \<Rightarrow> mstate" where
  "boot pf dev dir =
     setup_app \<lparr>window = None, is_quitting = False, wins = [], next_win = 1, platform = pf,
                dev_mode = dev, clock = 0, races = [], reactions = [], init = InitIdle, app_dir = dir,
                quit = False, effects = []\<rparr>"

text \<open>\<open>initUserData()\<close> up to its \<open>await\<close>: the directory it creates.\<close>

definition user_data_path :: "bool \<Rightarrow> js_string \<Rightarrow> js_string \<Rightarrow> js_string" where
  "user_data_path packaged exe app_path =
     path_join (if packaged then path_dirname exe else app_path) (js_str ''userData'')"

text \<open>\<open>init()\<close> after \<open>fs.mkdir\<close> settles: \<open>setPath\<close> and \<open>create()\<close>, or the
  error box and \<open>app.quit()\<close>.\<close>

definition init_resume :: "js_string option \<Rightarrow> mstate \<Rightarrow> mstate" where
  "init_resume r st =
     (case init st of
        InitPending p \<Rightarrow>
          (case r of
             None \<Rightarrow> create (log_effect (UserDataSet p) (st\<lparr>init := InitDone\<rparr>))
           | Some msg \<Rightarrow> app_quit (log_effect (ErrorBox (js_str ''Initialization failed'') msg) (st\<lparr>init := InitDone\<rparr>)))
      | _ \<Rightarrow> st)"

section \<open>The event loop\<close>

datatype mevent =
    Ready bool js_string js_string
  | MkdirDone "js_string option"
  | Activate
  | QuitRequested
  | CloseClicked nat
  | ReadyToShow nat
  | KeyDown nat key_input
  | ContextMenu nat ctx_params
  | MenuPick nat menu_cmd ctx_params
  | RenderGone nat js_string nat
  | Unresponsive nat nat
  | DidFailLoad nat int js_string js_string bool
  | DidFinishLoad nat
  | Elapse nat
  | Microtask
  | WindowOpen nat js_string

definition exn_message :: "js_exn \<Rightarrow> js_string" where
  "exn_message e = (case e of TypeError \<Rightarrow> js_str ''Cannot read properties of null'' | URIErr \<Rightarrow> js_str ''URI malformed'')"

text \<open>\<open>process.on('uncaughtException')\<close> (lines 373--376).\<close>

definition uncaught :: "js_exn \<Rightarrow> mstate \<Rightarrow> mstate" where
  "uncaught e st = log_effect (ErrorBox (js_str ''Error occurred'') (exn_message e)) st"

definition run_listener :: "js_exn + mstate \<Rightarrow> mstate \<Rightarrow> mstate" where
  "run_listener r st = (case r of Inl e \<Rightarrow> uncaught e st | Inr st' \<Rightarrow> st')"

definition win_open :: "nat \<Rightarrow> mstate \<Rightarrow> bool" where
  "win_open i st \<longleftrightarrow> find_win i st \<noteq> None"

definition drop_race :: "nat \<Rightarrow> mstate \<Rightarrow> mstate" where
  "drop_race i st = st\<lparr>races := filter (\<lambda>(j, _). j \<noteq> i) (races st)\<rparr>"

text \<open>
  The window goes away after an unprevented \<open>close\<close>: \<open>closed\<close> sets
  \<open>this.window\<close> to \<open>null\<close>, and when it was the last window,
  \<open>window-all-closed\<close> (lines 361--363) quits except on macOS.
\<close>

definition close_window :: "nat \<Rightarrow> mstate \<Rightarrow> mstate" where
  "close_window i st =
     (let st1 = on_closed (drop_race i (st\<lparr>wins := filter (\<lambda>w. win_id w \<noteq> i) (wins st)\<rparr>))
      in if wins st1 = [] \<and> platform st1 \<noteq> Darwin then app_quit st1 else st1)"

text \<open>
  \<open>did-fail-load\<close> for window \<open>i\<close>: Electron's own listener of a pending
  \<open>loadURL\<close> (registered after the code's) rejects it for a main-frame failure,
  queuing the \<open>catch\<close> of \<open>loadPage\<close>; the code's listener \<open>handleLoadError\<close> runs.
  The two are independent, so the model settles the race first.
\<close>

definition fail_load :: "nat \<Rightarrow> bool \<Rightarrow> js_string \<Rightarrow> mstate \<Rightarrow> mstate" where
  "fail_load i main msg st =
     (if main \<and> i \<in> fst ` set (races st)
      then (drop_race i st)\<lparr>reactions := reactions st @ [msg]\<rparr> else st)"

text \<open>Time passes: the timers of the races due reject them with \<open>Load timeout\<close>.\<close>

definition elapse_main :: "nat \<Rightarrow> mstate \<Rightarrow> mstate" where
  "elapse_main d st =
     (let t = clock st + d;
          due = filter (\<lambda>(_, dl). dl \<le> t) (races st)
      in st\<lparr>clock := t, races := filter (\<lambda>(_, dl). t < dl) (races st),
            reactions := reactions st @ map (\<lambda>_. js_str ''Load timeout'') due\<rparr>)"

text \<open>One queued reaction: the \<open>catch\<close> of \<open>loadPage\<close>.  If it throws, the
  promise of \<open>loadPage\<close> rejects unhandled: only the console sees it.\<close>

definition run_microtask :: "mstate \<Rightarrow> mstate" where
  "run_microtask st =
     (case reactions st of
        [] \<Rightarrow> st
      | m # ms \<Rightarrow> (case on_load_rejected m (st\<lparr>reactions := ms\<rparr>) of
                    Inl _ \<Rightarrow> st\<lparr>reactions := ms\<rparr>
                  | Inr st' \<Rightarrow> st'))"

fun mstep :: "mstate \<Rightarrow> mevent \<Rightarrow> mstate" where
  "mstep st (Ready pk exe ap) =
     (if init st = InitIdle then st\<lparr>init := InitPending (user_data_path pk exe ap)\<rparr> else st)"
| "mstep st (MkdirDone r) = init_resume r st"
| "mstep st Activate = (if mw_exists st then mw_show st else create st)"
| "mstep st QuitRequested = app_quit st"
| "mstep st (CloseClicked i) =
     (if win_open i st then
        (case on_close st of
           Inl e \<Rightarrow> uncaught e st
         | Inr (True, st') \<Rightarrow> st'
         | Inr (False, st') \<Rightarrow> close_window i st')
      else st)"
| "mstep st (ReadyToShow i) =
     (if win_open i st then run_listener (with_wc (\<lambda>j. map_win j (\<lambda>w. w\<lparr>visible := True\<rparr>)) st) st else st)"
| "mstep st (KeyDown i inp) =
     (if win_open i st then (case before_input inp st of Inl e \<Rightarrow> uncaught e st | Inr (_, st') \<Rightarrow> st') else st)"
| "mstep st (ContextMenu i p) =
     (if win_open i st then (case show_context_menu p st of Inl e \<Rightarrow> uncaught e st | Inr (_, st') \<Rightarrow> st') else st)"
| "mstep st (MenuPick i c p) =
     (if win_open i st \<and> (case cur_hist st of None \<Rightarrow> False | Some h \<Rightarrow> Item c True \<in> set (context_menu h p))
      then run_listener (menu_click c p st) st else st)"
| "mstep st (RenderGone i reason choice) =
     (if win_open i st then run_listener (handle_crash reason choice st) st else st)"
| "mstep st (Unresponsive i choice) =
     (if win_open i st then run_listener (handle_unresponsive choice st) st else st)"
| "mstep st (DidFailLoad i code desc msg main) =
     (if win_open i st then (let st1 = fail_load i main msg st in run_listener (handle_load_error code desc st1) st1)
      else st)"
| "mstep st (DidFinishLoad i) = drop_race i st"
| "mstep st (Elapse d) = elapse_main d st"
| "mstep st Microtask = run_microtask st"
| "mstep st (WindowOpen i u) =
     (if win_open i st then (case window_open u st of Inl e \<Rightarrow> uncaught e st | Inr (_, st') \<Rightarrow> st') else st)"

section \<open>Reachable states\<close>

text \<open>
  The order of events the code relies on: nothing after the app has quit, and
  no \<open>activate\<close> before \<open>init()\<close> has finished (Electron can deliver one while
  \<open>fs.mkdir\<close> is pending; see the finding below).
\<close>

definition ev_ok :: "mstate \<Rightarrow> mevent \<Rightarrow> bool" where
  "ev_ok st ev \<longleftrightarrow> \<not> quit st \<and> (ev = Activate \<longrightarrow> init st = InitDone)"

inductive mreach :: "mstate \<Rightarrow> mstate \<Rightarrow> bool" for s0 where
  mreach_start: "mreach s0 s0"
| mreach_step: "mreach s0 st \<Longrightarrow> ev_ok st ev \<Longrightarrow> mreach s0 (mstep st ev)"

text \<open>At most one window, \<open>this.window\<close> is that window, and windows exist only
  once start-up has finished.\<close>

definition mw_inv :: "mstate \<Rightarrow> bool" where
  "mw_inv st \<longleftrightarrow>
     (case shape st of
        ([], w, _) \<Rightarrow> w = None
      | ([i], w, s) \<Rightarrow> w = Some i \<and> s = InitDone
      | _ \<Rightarrow> False)"

text \<open>Every pending \<open>loadPage\<close> race is due within \<open>LOAD_TIMEOUT\<close> ms.\<close>

definition races_ok :: "mstate \<Rightarrow> bool" where
  "races_ok st \<longleftrightarrow> list_all (\<lambda>(_, dl). dl \<le> clock st + LOAD_TIMEOUT) (races st)"


section \<open>The window invariant\<close>

lemma mw_inv_shape: "shape st' = shape st \<Longrightarrow> mw_inv st' = mw_inv st"
  by (simp add: mw_inv_def)

lemma shape_steps [simp]:
  "shape (uncaught e st) = shape st" "shape (drop_race i st) = shape st"
  "shape (fail_load i m msg st) = shape st" "shape (elapse_main d st) = shape st"
  by (simp_all add: uncaught_def drop_race_def fail_load_def elapse_main_def Let_def shape_def log_effect_def)

lemma shape_run_listener: "keeps_shape st r \<Longrightarrow> shape (run_listener r st) = shape st"
  by (cases r) (simp_all add: run_listener_def)

lemma shape_run_microtask: "shape (run_microtask st) = shape st"
proof (cases "reactions st")
  case (Cons m ms)
  have "keeps_shape (st\<lparr>reactions := ms\<rparr>) (on_load_rejected m (st\<lparr>reactions := ms\<rparr>))" by simp
  with Cons show ?thesis by (auto simp: run_microtask_def keeps_shape_def split: sum.splits)
qed (simp add: run_microtask_def)

lemma mw_inv_app_quit: "mw_inv (app_quit st)"
  by (simp add: mw_inv_def shape_def app_quit_def set_quitting_def log_effect_def)

lemma mw_inv_create:
  assumes "wins st = []" and "init st = InitDone"
  shows "mw_inv (create st)"
proof -
  let ?st1 = "st\<lparr>window := Some (next_win st), wins := wins st @ [\<lparr>win_id = next_win st, visible = wc_show CONFIG_WINDOW,
      hist = \<lparr>entries = [], idx = 0\<rparr>, devtools = False,
      prefs = (web_preferences CONFIG_WINDOW)\<lparr>preload := Some (app_dir st @ js_str ''/preload.js'')\<rparr>\<rparr>], next_win := Suc (next_win st)\<rparr>"
  have s1: "shape (load_page ?st1) = shape ?st1" by (simp add: load_page_def Let_def)
  have s2: "shape (create st) = shape (load_page ?st1)" by (simp add: create_def Let_def)
  have "mw_inv ?st1" using assms by (simp add: mw_inv_def shape_def)
  then show ?thesis using mw_inv_shape [OF s1] mw_inv_shape [OF s2] by simp
qed

lemma mw_inv_init_resume:
  assumes inv: "mw_inv st"
  shows "mw_inv (init_resume r st)"
proof (cases "init st")
  case (InitPending p)
  with inv have "wins st = []" by (auto simp: mw_inv_def shape_def split: list.splits)
  then have "mw_inv (create (log_effect (UserDataSet p) (st\<lparr>init := InitDone\<rparr>)))"
    by (intro mw_inv_create) (simp_all add: log_effect_def)
  with InitPending show ?thesis
    by (cases r) (simp_all add: init_resume_def mw_inv_app_quit)
qed (use inv in \<open>simp_all add: init_resume_def\<close>)

lemma mstep_shape:
  "shape (mstep st (ReadyToShow i)) = shape st"
  "shape (mstep st (KeyDown i inp)) = shape st"
  "shape (mstep st (ContextMenu i p)) = shape st"
  "shape (mstep st (MenuPick i c p)) = shape st"
  "shape (mstep st (Unresponsive i ch)) = shape st"
  "shape (mstep st (DidFailLoad i code desc msg main)) = shape st"
  "shape (mstep st (DidFinishLoad i)) = shape st"
  "shape (mstep st (Elapse d)) = shape st"
  "shape (mstep st Microtask) = shape st"
  "shape (mstep st (WindowOpen i u)) = shape st"
  by (auto simp: shape_run_listener shape_run_microtask Let_def dest: shape_before_input
      shape_show_context_menu shape_window_open split: sum.splits prod.splits)

lemma mw_inv_single: "mw_inv st \<Longrightarrow> win_open i st \<Longrightarrow> map win_id (wins st) = [i] \<and> window st = Some i"
  by (auto simp: mw_inv_def shape_def win_open_def find_win_def find_Some_iff split: list.splits)

lemma mw_inv_close_window: "map win_id (wins st) = [i] \<Longrightarrow> mw_inv (close_window i st)"
proof -
  assume ids: "map win_id (wins st) = [i]"
  then have "filter (\<lambda>w. win_id w \<noteq> i) (wins st) = []" by (cases "wins st") auto
  then show ?thesis
    by (simp add: close_window_def Let_def on_closed_def drop_race_def mw_inv_app_quit, simp add: mw_inv_def shape_def)
qed

lemma mw_inv_close: "mw_inv st \<Longrightarrow> mw_inv (mstep st (CloseClicked i))"
proof (cases "win_open i st")
  case True
  assume inv: "mw_inv st"
  with True have ids: "map win_id (wins st) = [i]" by (simp add: mw_inv_single)
  show ?thesis
  proof (cases "on_close st")
    case (Inl e)
    with True inv show ?thesis using mw_inv_shape [of "uncaught e st" st] by simp
  next
    case (Inr r)
    obtain b st' where r: "r = (b, st')" by (cases r)
    with Inr have sh: "shape st' = shape st" by (simp add: shape_on_close)
    then have "map win_id (wins st') = [i]" using ids by (simp add: shape_def)
    then have "mw_inv (close_window i st')" by (rule mw_inv_close_window)
    moreover have "mw_inv st'" using inv mw_inv_shape [OF sh] by simp
    ultimately show ?thesis using True Inr r by (cases b) simp_all
  qed
qed simp

lemma mw_inv_crash: "mw_inv st \<Longrightarrow> mw_inv (mstep st (RenderGone i reason ch))"
proof -
  assume inv: "mw_inv st"
  have "mw_inv (run_listener (handle_crash reason ch st) st)"
  proof (cases "reason \<noteq> js_str ''crashed'' \<or> ch = 0")
    case True
    then have "keeps_shape st (handle_crash reason ch st)" by (auto simp: handle_crash_def Let_def)
    then show ?thesis using inv mw_inv_shape [OF shape_run_listener] by blast
  next
    case False
    then show ?thesis by (simp add: handle_crash_def Let_def run_listener_def mw_inv_app_quit)
  qed
  then show ?thesis using inv by simp
qed

lemma mw_inv_step: "mw_inv st \<Longrightarrow> ev_ok st ev \<Longrightarrow> mw_inv (mstep st ev)"
proof (cases ev)
  case (Ready pk exe ap)
  assume inv: "mw_inv st"
  show ?thesis
  proof (cases "init st = InitIdle")
    case True
    with inv have "wins st = []" by (auto simp: mw_inv_def shape_def split: list.splits)
    with inv True Ready show ?thesis by (simp add: mw_inv_def shape_def)
  qed (use inv Ready in simp)
next
  case Activate
  assume inv: "mw_inv st" and ok: "ev_ok st ev"
  show ?thesis
  proof (cases "mw_exists st")
    case True
    have "shape (mw_show st) = shape st" by (simp add: mw_show_def split: option.split)
    with inv True Activate show ?thesis using mw_inv_shape [of "mw_show st" st] by simp
  next
    case False
    with inv have "wins st = []" by (auto simp: mw_inv_def shape_def mw_exists_def split: list.splits)
    moreover have "init st = InitDone" using ok Activate by (simp add: ev_ok_def)
    ultimately show ?thesis using False Activate by (simp add: mw_inv_create)
  qed
qed (simp_all del: mstep.simps add: mstep.simps(2,4) mw_inv_init_resume mw_inv_app_quit mw_inv_close mw_inv_crash
       mw_inv_shape [OF mstep_shape(1)] mw_inv_shape [OF mstep_shape(2)] mw_inv_shape [OF mstep_shape(3)]
       mw_inv_shape [OF mstep_shape(4)] mw_inv_shape [OF mstep_shape(5)] mw_inv_shape [OF mstep_shape(6)]
       mw_inv_shape [OF mstep_shape(7)] mw_inv_shape [OF mstep_shape(8)] mw_inv_shape [OF mstep_shape(9)]
       mw_inv_shape [OF mstep_shape(10)])

lemma mreach_mw_inv: "mreach s0 st \<Longrightarrow> mw_inv s0 \<Longrightarrow> mw_inv st"
  by (induction rule: mreach.induct) (simp_all add: mw_inv_step)

lemma mw_inv_boot: "mw_inv (boot pf dev dir)"
  by (simp add: boot_def setup_app_def log_effect_def mw_inv_def shape_def)

section \<open>Load races are bounded\<close>

lemma races_ok_sub: "races_ok st \<Longrightarrow> races_sub st st' \<Longrightarrow> races_ok st'"
  by (auto simp: races_ok_def races_sub_def list_all_iff)

lemma races_sub_steps [simp]:
  "races_sub st x \<Longrightarrow> races_sub st (uncaught e x)" "races_sub st x \<Longrightarrow> races_sub st (drop_race i x)"
  "races_sub st x \<Longrightarrow> races_sub st (fail_load i m msg x)"
  by (auto simp: races_sub_def uncaught_def log_effect_def drop_race_def fail_load_def)

lemma races_ok_ops [simp]: "races_ok x \<Longrightarrow> races_ok (log_effect e x)" "races_ok x \<Longrightarrow> races_ok (map_win i f x)"
  "races_ok x \<Longrightarrow> races_ok (fail_load i m msg x)" "races_ok x \<Longrightarrow> races_ok (uncaught e' x)"
  "races_ok x \<Longrightarrow> races_ok (drop_race i x)" "races_ok (x\<lparr>init := s\<rparr>) \<longleftrightarrow> races_ok x"
  by (rule races_ok_sub [OF _ races_sub_ops(1) [OF races_sub_refl]], assumption,
      rule races_ok_sub [OF _ races_sub_ops(2) [OF races_sub_refl]], assumption,
      rule races_ok_sub [OF _ races_sub_steps(3) [OF races_sub_refl]], assumption,
      rule races_ok_sub [OF _ races_sub_steps(1) [OF races_sub_refl]], assumption,
      rule races_ok_sub [OF _ races_sub_steps(2) [OF races_sub_refl]], assumption, simp add: races_ok_def)

lemma races_ok_app_quit [simp]: "races_ok (app_quit st)"
  by (simp add: races_ok_def app_quit_def set_quitting_def log_effect_def)

lemma races_ok_create: "races_ok st \<Longrightarrow> races_ok (create st)"
proof -
  assume ok: "races_ok st"
  have "races_ok (load_page st')" if "races_ok st'" "window st' = Some i" for st' i
  proof -
    have "races_ok (load_url i TARGET_URL st')" using that(1) by (rule races_ok_sub) simp
    moreover have "clock (load_url i TARGET_URL st') = clock st'"
      using races_sub_ops(4) [OF races_sub_refl [of st'], of i TARGET_URL] by (simp add: races_sub_def)
    ultimately show ?thesis using that(2) by (simp add: load_page_def races_ok_def Let_def)
  qed
  moreover have "races_ok (st\<lparr>window := Some j, wins := ws, next_win := n\<rparr>)" for j ws n
    using ok by (simp add: races_ok_def)
  ultimately have "races_ok (load_page (st\<lparr>window := Some j, wins := ws, next_win := n\<rparr>))" for j ws n by simp
  then show ?thesis by (simp add: create_def Let_def)
qed

lemma races_ok_elapse: "races_ok st \<Longrightarrow> races_ok (elapse_main d st)"
  by (auto simp: races_ok_def elapse_main_def Let_def list_all_iff)

lemma races_ok_listener: "races_ok st \<Longrightarrow> keeps_races st r \<Longrightarrow> races_ok (run_listener r st)"
proof (cases r)
  case (Inl e)
  assume "races_ok st"
  then show ?thesis using races_sub_steps(1) [OF races_sub_refl [of st], of e] Inl
    by (simp add: run_listener_def races_ok_sub)
qed (simp add: run_listener_def races_ok_sub)

lemma races_ok_result:
  "races_ok st \<Longrightarrow> (\<And>b st'. r = Inr (b, st') \<Longrightarrow> races_sub st st') \<Longrightarrow>
   races_ok (case r of Inl e \<Rightarrow> uncaught e st | Inr (_, st') \<Rightarrow> st')"
  by (cases r) (auto intro: races_ok_sub)

lemmas races_ok_results =
  races_ok_result [where r = "before_input inp st" for inp st, OF _ races_sub_results(2)]
  races_ok_result [where r = "show_context_menu p st" for p st, OF _ races_sub_results(3)]
  races_ok_result [where r = "window_open u st" for u st, OF _ races_sub_results(4)]

lemma races_ok_step: "races_ok st \<Longrightarrow> races_ok (mstep st ev)"
proof (cases ev)
  case (MkdirDone r)
  assume ok: "races_ok st"
  have "races_ok (log_effect (UserDataSet p) (st\<lparr>init := InitDone\<rparr>))" for p
    using ok by (simp add: races_ok_def log_effect_def)
  with MkdirDone ok show ?thesis
    by (auto simp: init_resume_def races_ok_create split: init_state.split option.split)
next
  case Activate
  assume ok: "races_ok st"
  have "races_sub st (mw_show st)" by (simp add: mw_show_def split: option.split)
  with Activate ok show ?thesis by (auto simp: races_ok_create elim: races_ok_sub)
next
  case (CloseClicked i)
  assume ok: "races_ok st"
  have c: "races_ok (close_window i st')" if "races_ok st'" for st'
    using that by (simp add: close_window_def Let_def on_closed_def) (auto simp: races_ok_def drop_race_def list_all_iff)
  show ?thesis
  proof (cases "on_close st")
    case (Inr r)
    then obtain b st' where r: "on_close st = Inr (b, st')" by (cases r) auto
    have ok': "races_ok st'" using races_ok_sub [OF ok races_sub_results(5) [OF r]] .
    with CloseClicked r c [OF ok'] ok show ?thesis by (cases b) simp_all
  qed (use CloseClicked ok in \<open>auto elim: races_ok_sub\<close>)
next
  case (RenderGone i reason ch)
  assume ok: "races_ok st"
  have h: "keeps_races st (handle_crash reason ch st) \<or> (\<exists>x. handle_crash reason ch st = Inr (app_quit x))"
    by (auto simp: handle_crash_def Let_def)
  show ?thesis
  proof (cases "keeps_races st (handle_crash reason ch st)")
    case True
    with RenderGone ok show ?thesis by (simp add: races_ok_listener)
  next
    case False
    with h obtain x where "handle_crash reason ch st = Inr (app_quit x)" by blast
    with RenderGone ok show ?thesis by (simp add: run_listener_def)
  qed
next
  case Microtask
  assume ok: "races_ok st"
  have "races_sub st (run_microtask st)"
  proof (cases "reactions st")
    case (Cons m ms)
    have "keeps_races (st\<lparr>reactions := ms\<rparr>) (on_load_rejected m (st\<lparr>reactions := ms\<rparr>))" by simp
    with Cons show ?thesis by (auto simp: run_microtask_def keeps_races_def races_sub_def split: sum.splits)
  qed (simp add: run_microtask_def)
  with Microtask ok show ?thesis by (auto elim: races_ok_sub)
qed (simp_all add: races_ok_elapse races_ok_listener races_ok_results Let_def)

lemma races_ok_mreach: "mreach (boot pf dev dir) st \<Longrightarrow> races_ok st"
  by (induction rule: mreach.induct)
     (simp add: races_ok_def boot_def setup_app_def log_effect_def, simp add: races_ok_step)

text \<open>The start-up of the example runs: \<open>ready\<close>, then \<open>fs.mkdir\<close> succeeds.\<close>

lemma mreach_started:
  "mreach (boot Linux False []) (mstep (mstep (boot Linux False []) (Ready False [] [])) (MkdirDone None))"
proof -
  let ?s0 = "boot Linux False []"
  have r1: "mreach ?s0 (mstep ?s0 (Ready False [] []))"
    by (rule mreach_step [OF mreach_start]) (simp add: ev_ok_def boot_def setup_app_def log_effect_def)
  show ?thesis
    by (rule mreach_step [OF r1]) (simp add: ev_ok_def boot_def setup_app_def log_effect_def)
qed

section \<open>One window\<close>

lemma single_window_state:
  assumes "wins st = [w]" and "win_id w = i" and "window st = Some i"
  shows "win_open i st" "find_win i st = Some w"
    "win_id (f w) = i \<Longrightarrow> cur_hist (map_win i f st) = Some (hist (f w))"
  using assms by (simp_all add: win_open_def find_win_def cur_hist_def map_win_def)

lemma load_url_settled: "races st = [] \<Longrightarrow> load_url i u st = map_win i (\<lambda>w. w\<lparr>hist := nav_load u (hist w)\<rparr>) st"
  by (simp add: load_url_def interrupt_load_def map_win_def)

lemma map_win_fields [simp]:
  "window (map_win i f st) = window st" "races (map_win i f st) = races st"
  "reactions (map_win i f st) = reactions st" "wins ((map_win i f st)\<lparr>reactions := ms\<rparr>) = wins (map_win i f st)"
  by (simp_all add: map_win_def)








text \<open>
  C22.  \<open>handleLoadError\<close> does not look at \<open>isMainFrame\<close>: once the page is
  loaded, a failure with any code but \<open>ERR_ABORTED\<close>, also of a sub-frame (an
  \<open>iframe\<close>, an embedded ad), replaces the whole page by the error page.
\<close>

theorem load_error_replaces_page:
  assumes win: "wins st = [w]" "win_id w = i" "window st = Some i"
    and settled: "races st = []" and code: "code \<noteq> ERR_ABORTED"
    and desc: "js_wf desc" "utf16_decode desc = Inr d"
  shows "\<exists>u. cur_hist (mstep st (DidFailLoad i code desc msg main)) = Some (nav_load u (hist w)) \<and>
             html_text u = Some (error_html d [])"
proof -
  have f: "fail_load i main msg st = st" using settled by (simp add: fail_load_def)
  obtain u where h: "handle_load_error code desc st = Inr (load_url i u st)" and t: "html_text u = Some (error_html d [])"
    using handle_load_error_page [OF win(3) desc, of code] code by auto
  have "mstep st (DidFailLoad i code desc msg main) = load_url i u st"
    using single_window_state(1) [OF win] f h by (simp add: run_listener_def)
  moreover have "cur_hist (load_url i u st) = Some (nav_load u (hist w))"
    using win settled by (simp add: load_url_settled single_window_state(3))
  ultimately show ?thesis using t by auto
qed

lemma load_error_replaces_page_witness:
  "\<exists>u. cur_hist (mstep (demo_st\<lparr>races := []\<rparr>) (DidFailLoad 1 (-2) (js_str ''net::ERR_FAILED'') [] False)) =
         Some (nav_load u (hist demo_win)) \<and>
       html_text u = Some (error_html (js_str ''net::ERR_FAILED'') [])"
  by (rule load_error_replaces_page) (simp_all add: demo_st_def demo_win_def ERR_ABORTED_def js_str_bmp utf16_decode_bmp)

text \<open>
  C18.  With events in the order the code assumes, the main process never has
  more than one window, and \<open>this.window\<close> is the window every listener was
  registered on, so \<open>this.wc\<close> reaches the page that emitted the event.
\<close>

theorem single_window:
  assumes "mreach (boot pf dev dir) st"
  shows "length (wins st) \<le> 1 \<and> (\<forall>i. win_open i st \<longrightarrow> window st = Some i)"
proof -
  have inv: "mw_inv st" using assms mw_inv_boot by (rule mreach_mw_inv)
  then have "length (wins st) \<le> 1"
    by (auto simp: mw_inv_def shape_def split: list.splits dest: arg_cong [of _ _ length])
  moreover have "win_open i st \<longrightarrow> window st = Some i" for i using inv mw_inv_single by blast
  ultimately show ?thesis by blast
qed

lemma single_window_witness:
  "length (wins (mstep (mstep (boot Linux False []) (Ready False [] [])) (MkdirDone None))) \<le> 1 \<and>
   window (mstep (mstep (boot Linux False []) (Ready False [] [])) (MkdirDone None)) = Some 1"
proof -
  let ?s0 = "boot Linux False []"
  note r2 = mreach_started
  have o: "win_open 1 (mstep (mstep ?s0 (Ready False [] [])) (MkdirDone None))"
    by (simp add: boot_def setup_app_def log_effect_def init_resume_def create_def load_page_def load_url_def
        interrupt_load_def map_win_def win_open_def find_win_def)
  from single_window [OF r2] o show ?thesis by blast
qed


text \<open>
  C23.  The load timeout is a fallback that always fires: in every reachable
  state each pending \<open>loadPage\<close> race is due within \<open>LOAD_TIMEOUT\<close> ms, so once
  \<open>LOAD_TIMEOUT\<close> ms pass no race is left and each pending one has queued the
  rejection \<open>Load timeout\<close> for its \<open>catch\<close>, which shows the error page.
\<close>

theorem load_timeout_settles:
  assumes "mreach (boot pf dev dir) st" and "LOAD_TIMEOUT \<le> d"
  shows "races (mstep st (Elapse d)) = [] \<and>
         reactions (mstep st (Elapse d)) = reactions st @ replicate (length (races st)) (js_str ''Load timeout'')"
proof -
  have "list_all (\<lambda>(_, dl). dl \<le> clock st + d) (races st)"
    using races_ok_mreach [OF assms(1)] assms(2) by (auto simp: races_ok_def list_all_iff)
  then have "filter (\<lambda>(_, dl). dl \<le> clock st + d) (races st) = races st"
    and "filter (\<lambda>(_, dl). clock st + d < dl) (races st) = []"
    by (auto simp: list_all_iff filter_id_conv filter_empty_conv)
  then show ?thesis by (simp add: elapse_main_def map_replicate_const)
qed

lemma load_timeout_settles_witness:
  "LOAD_TIMEOUT \<le> 60000 \<and>
   races (mstep (mstep (mstep (boot Linux False []) (Ready False [] [])) (MkdirDone None)) (Elapse 60000)) = [] \<and>
   reactions (mstep (mstep (mstep (boot Linux False []) (Ready False [] [])) (MkdirDone None)) (Elapse 60000))
     = [js_str ''Load timeout'']"
proof -
  have "length (races (mstep (mstep (boot Linux False []) (Ready False [] [])) (MkdirDone None))) = 1"
    and "reactions (mstep (mstep (boot Linux False []) (Ready False [] [])) (MkdirDone None)) = []"
    by (simp_all add: boot_def setup_app_def log_effect_def init_resume_def create_def load_page_def
        load_url_def interrupt_load_def map_win_def)
  with load_timeout_settles [OF mreach_started, of 60000] show ?thesis by (simp add: LOAD_TIMEOUT_def)
qed

end
