(* ===== verification/Spec2Isabelle.thy ===== *)
theory Spec2Isabelle
  imports Preload Application
begin

text \<open>
  A verification development of the Electron shell in \<open>src/\<close>: \<open>src/preload.js\<close>,
  the script run in the page before its own scripts (fingerprint masking, the
  content scaler, the ad blocker, and the bridge exposed to the page), and
  \<open>src/main.js\<close>, the main process (one window on a fixed URL, error pages,
  crash and hang dialogs, keyboard shortcuts, a context menu).  The two halves
  meet only through the page: the main process loads \<open>TARGET_URL\<close> with the
  preload script, and the preload script reacts to that page's DOM.

  \<^bold>\<open>Theories\<close>, in import order, and what each models.
  \<^item> \<open>Prelude\<close>: JavaScript values and truthiness; the insertion-ordered
    JavaScript \<open>Set\<close> as a duplicate-free list; list lemmas shared by the
    components.
  \<^item> \<open>Browser\<close>: the page's world, written from the DOM and HTML standards (not
    repository code): elements in tree order with distinct keys (\<open>dom_wf\<close>),
    root metrics, overflow styles, \<open>setTimeout\<close>/\<open>clearTimeout\<close>,
    \<open>requestAnimationFrame\<close>/\<open>cancelAnimationFrame\<close>, the console, and
    \<open>querySelectorAll\<close> over a selector list with a selector engine given as a
    parameter (\<open>css\<close>: which selectors parse, which elements they match).
  \<^item> \<open>PageScaler\<close>: the class \<open>PageScaler\<close> and \<open>CONFIG.SCALE\<close> (preload.js
    47--93): \<open>compute_scale\<close>/\<open>scale_box\<close>/\<open>apply_scale\<close> (\<open>applyScale\<close>),
    \<open>setup_scaling\<close>, the observer callback \<open>scaler_on_mutation\<close>, the debounced
    listener \<open>scaler_on_resize\<close> and its timer callback.
  \<^item> \<open>AdBlocker\<close>: the class \<open>AdBlocker\<close> (preload.js 98--146): \<open>hide_ads\<close>
    (\<open>hideAds\<close>, one compound \<open>querySelectorAll\<close> whose \<open>SyntaxError\<close> is caught),
    \<open>debounce_hide\<close>, \<open>blocker_add\<close>/\<open>blocker_remove\<close>, and the selector list
    refined to a set of strings.
  \<^item> \<open>Fingerprint\<close>: \<open>hideBrowserFingerprint\<close> (preload.js 26--42), with the
    random draws as arguments.
  \<^item> \<open>Preload\<close>: the \<open>DOMContentLoaded\<close> handler and the bridge (148--168), and the
    page's event loop \<open>page_step\<close> over DOM mutations, resizes, elapsed time,
    animation frames and bridge calls; \<open>reachable\<close> is the inductive set of pages
    reachable from a fresh document, \<open>page_inv\<close> its invariant.
  \<^item> \<open>UriEncode\<close>: \<open>encodeURIComponent\<close> (ECMA-262) and the browser's decoding of
    a \<open>data:\<close> URL (URL, Fetch and Encoding standards), the environment of the
    error page; JavaScript strings are lists of UTF-16 code units.
  \<^item> \<open>ErrorPage\<close>: the HTML template of \<open>showErrorPage\<close> (main.js 259--321),
    transcribed code unit by code unit, and the URL it loads.
  \<^item> \<open>MainWindow\<close>: the class \<open>MainWindow\<close> (main.js 41--337) over the
    main-process state \<open>mstate\<close>: the instance fields, Electron's windows with
    their navigation history, pending \<open>loadPage\<close> races with their deadlines,
    the queue of promise reactions, and an effect log; every method and listener
    is a function to a new state or to the exception it throws.
  \<^item> \<open>Application\<close>: the class \<open>Application\<close> (main.js 342--406), start-up split
    at the \<open>await\<close> of \<open>fs.mkdir\<close>, and the main event loop \<open>mstep\<close> with the
    reachable states \<open>mreach\<close>.

  \<^bold>\<open>What the lemmas show.\<close>  The scale is the largest uniform fit and is
  tight, and the box is centred; the resize listener keeps one pending timer and a
  burst of resizes applies the scale once with the last metrics; a scan hides
  exactly the matched elements, is idempotent, and one malformed selector blocks
  it; the selector list refines a set (directly and through the bridge); in every
  reachable page at most one timer and one scan are pending and scaling is set up
  at most once; two end-to-end runs evaluate by \<open>simp\<close>.  For the main process:
  the error page's \<open>data:\<close> URL decodes to exactly the page built, or throws
  \<open>URIError\<close> for an unpaired surrogate; the keyboard map, history navigation,
  the window-open policy and the user-agent rewrite behave as stated; with
  events in the order the code assumes there is one window and \<open>this.window\<close>
  is it; every pending \<open>loadPage\<close> race is due within \<open>LOAD_TIMEOUT\<close> ms in
  every reachable state (\<open>races_ok\<close>), so the timeout fallback always settles the
  initial load; and the failure modes below are theorems over the event loop.

  \<^bold>\<open>Findings\<close> proved here: a malformed selector blocks all hiding; a container
  present before load with no later mutation is never scaled; \<open>Ctrl+R\<close> is not
  \<open>preventDefault\<close>-ed; the load-error page's retry reloads itself; a sub-frame
  failure replaces the whole page; a failed initial load leaves two error pages;
  a navigation during the initial load is replaced by an \<open>ERR_ABORTED\<close> error
  page; an \<open>activate\<close> during start-up creates a second, orphaned window.

  \<^bold>\<open>Choices and bounds.\<close>  JavaScript numbers are \<open>rat\<close> (the scale and
  margins), \<open>nat\<close> (pixel sizes, times in ms, code units) or \<open>int\<close> (error
  codes): no value in this code is near the range where floating point rounding
  or the 2^53 bound matters, and rounding is not modelled.  No loop of the code
  can diverge, so every operation is a total function: the event loops are
  folds over a finite list of events, \<open>utf8_decode\<close> has a length measure,
  everything else is structural.  The timer and frame callbacks of the page never
  set timers, so running the due ones at once is the browser's loop.  Dialog
  answers, the outcome of \<open>fs.mkdir\<close>, and Electron's error messages are event
  parameters.

  \<^bold>\<open>Not modelled.\<close>  Rendering and layout (only the style values the code
  writes); the inside of the selector engine (a parameter); which DOM changes
  trigger which mutation records beyond child-list changes; the wall clock beyond
  the order of events; Electron's \<open>session\<close>, menus and dialogs beyond the values
  they return; the developer tools, clipboard and \<open>inspectElement\<close> beyond an
  entry in the effect log; Node's \<open>path\<close> beyond POSIX joins of normalised paths;
  \<open>toLowerCase\<close> beyond ASCII (the key values in the map are ASCII); the
  commit of error pages into the history is simplified to one entry per
  \<open>loadURL\<close>.
\<close>

end
